(* ===== verification/Epistl_Prelude.thy ===== *)
theory Epistl_Prelude
  imports Main
begin

text \<open>
  Shared vocabulary of the development: Rust strings as the list of their UTF-8 bytes with the
  \<open>str\<close> methods the sources call, JSON values, HTTP responses, and the collections of rewrite
  rules that the component theories use.

  A Rust \<open>String\<close> is a sequence of UTF-8 bytes and \<open>len\<close>, \<open>find\<close> and slicing count bytes.
  A \<open>string\<close> of this development is that sequence, so a character of the model is one byte;
  an ASCII character of the source is one byte with the same code.
\<close>

named_theorems str_simps \<open>characterisations of the string operations\<close>
named_theorems db_simps \<open>what one table operation does to each field of the database\<close>
named_theorems wf_intros \<open>preservation of the well-formedness of the database\<close>

section \<open>Bytes\<close>

definition byte :: "char \<Rightarrow> nat" where
  "byte c = of_char c"

definition is_ascii_lowercase :: "char \<Rightarrow> bool" where
  "is_ascii_lowercase c \<longleftrightarrow> 97 \<le> byte c \<and> byte c \<le> 122"

definition is_ascii_uppercase :: "char \<Rightarrow> bool" where
  "is_ascii_uppercase c \<longleftrightarrow> 65 \<le> byte c \<and> byte c \<le> 90"

definition is_ascii_digit :: "char \<Rightarrow> bool" where
  "is_ascii_digit c \<longleftrightarrow> 48 \<le> byte c \<and> byte c \<le> 57"

definition is_ascii_alphanumeric :: "char \<Rightarrow> bool" where
  "is_ascii_alphanumeric c \<longleftrightarrow> is_ascii_lowercase c \<or> is_ascii_uppercase c \<or> is_ascii_digit c"

definition is_ascii :: "char \<Rightarrow> bool" where
  "is_ascii c \<longleftrightarrow> byte c < 128"

text \<open>A byte \<open>10xxxxxx\<close> continues the character that an earlier byte started.\<close>

definition is_continuation :: "char \<Rightarrow> bool" where
  "is_continuation c \<longleftrightarrow> 128 \<le> byte c \<and> byte c < 192"

definition to_ascii_lowercase_char :: "char \<Rightarrow> char" where
  "to_ascii_lowercase_char c = (if is_ascii_uppercase c then char_of (byte c + 32) else c)"

definition to_ascii_lowercase :: "string \<Rightarrow> string" where
  "to_ascii_lowercase s = map to_ascii_lowercase_char s"

definition eq_ignore_ascii_case :: "string \<Rightarrow> string \<Rightarrow> bool" where
  "eq_ignore_ascii_case s t \<longleftrightarrow> to_ascii_lowercase s = to_ascii_lowercase t"

text \<open>\<open>s.chars().count()\<close>: the bytes that start a character.\<close>

definition char_count :: "string \<Rightarrow> nat" where
  "char_count s = length (filter (\<lambda>c. \<not> is_continuation c) s)"

text \<open>\<open>&s[..n]\<close>: Rust panics (\<open>None\<close>) past the end or inside a character.\<close>

definition slice_to :: "string \<Rightarrow> nat \<Rightarrow> string option" where
  "slice_to s n =
     (if n = length s then Some s
      else if n < length s \<and> \<not> is_continuation (s ! n) then Some (take n s)
      else None)"

lemma is_ascii_not_continuation: "is_ascii c \<Longrightarrow> \<not> is_continuation c"
  by (simp add: is_ascii_def is_continuation_def)

lemma slice_to_ascii:
  "list_all is_ascii s \<Longrightarrow> n \<le> length s \<Longrightarrow> slice_to s n = Some (take n s)"
  by (auto simp: slice_to_def list_all_length is_ascii_not_continuation)

section \<open>Searching and splitting\<close>

text \<open>\<open>s.strip_prefix(p)\<close>.\<close>

fun strip_prefix :: "'a list \<Rightarrow> 'a list \<Rightarrow> 'a list option" where
  "strip_prefix [] s = Some s"
| "strip_prefix (p # ps) [] = None"
| "strip_prefix (p # ps) (c # cs) = (if p = c then strip_prefix ps cs else None)"

lemma strip_prefix_Some [str_simps]: "strip_prefix p s = Some r \<longleftrightarrow> s = p @ r"
  by (induction p s rule: strip_prefix.induct) auto

lemma strip_prefix_append [simp]: "strip_prefix p (p @ r) = Some r"
  by (simp add: strip_prefix_Some)

lemma strip_prefix_None: "strip_prefix p s = None \<longleftrightarrow> (\<forall>r. s \<noteq> p @ r)"
  by (metis not_Some_eq strip_prefix_Some)

text \<open>
  \<open>s.find(p)\<close> together with the two slices the callers take at the index: the text before the
  first occurrence of \<open>p\<close> and the text after it.
\<close>

fun break_on :: "'a list \<Rightarrow> 'a list \<Rightarrow> ('a list \<times> 'a list) option" where
  "break_on p [] = (if p = [] then Some ([], []) else None)"
| "break_on p (c # cs) =
     (case strip_prefix p (c # cs) of
        Some r \<Rightarrow> Some ([], r)
      | None \<Rightarrow> map_option (\<lambda>(a, b). (c # a, b)) (break_on p cs))"

lemma break_on_Some: "break_on p s = Some (a, b) \<Longrightarrow> s = a @ p @ b"
  by (induction p s arbitrary: a b rule: break_on.induct)
     (auto simp: strip_prefix_Some split: if_splits option.splits)

lemma break_on_None: "break_on p s = None \<Longrightarrow> s \<noteq> a @ p @ b"
proof (induction p s arbitrary: a rule: break_on.induct)
  case (1 p)
  then show ?case by (auto split: if_splits)
next
  case (2 p c cs)
  from "2.prems" have n: "strip_prefix p (c # cs) = None" and r: "break_on p cs = None"
    by (auto split: option.splits)
  show ?case
  proof (cases a)
    case Nil
    then show ?thesis using n by (auto simp: strip_prefix_None)
  next
    case (Cons x xs)
    then show ?thesis using "2.IH"[OF n r, of xs] by auto
  qed
qed

text \<open>The occurrence found is the first one: no earlier prefix can be followed by \<open>p\<close>.\<close>

lemma break_on_first:
  "break_on p s = Some (a, b) \<Longrightarrow> s = a' @ p @ b' \<Longrightarrow> length a \<le> length a'"
proof (induction p s arbitrary: a b a' rule: break_on.induct)
  case (1 p)
  then show ?case by (auto split: if_splits)
next
  case (2 p c cs)
  show ?case
  proof (cases "strip_prefix p (c # cs)")
    case (Some r)
    with "2.prems"(1) have "a = []" by simp
    then show ?thesis by simp
  next
    case None
    with "2.prems"(1) obtain a0 where a: "a = c # a0" and r: "break_on p cs = Some (a0, b)"
      by auto
    from None "2.prems"(2) obtain x xs where "a' = x # xs"
      by (cases a') (auto simp: strip_prefix_None)
    with "2.prems"(2) have "cs = xs @ p @ b'" by simp
    then have "length a0 \<le> length xs" using "2.IH"[OF None r] by blast
    then show ?thesis using a \<open>a' = x # xs\<close> by simp
  qed
qed

lemma break_on_unique:
  assumes "break_on p s = Some (a, b)" and "s = a' @ p @ b'" and "length a' \<le> length a"
  shows "a' = a \<and> b' = b"
proof -
  from assms have "length a = length a'" using break_on_first by fastforce
  moreover have "a @ p @ b = a' @ p @ b'" using assms break_on_Some by metis
  ultimately show ?thesis by auto
qed

lemma break_on_exists: "\<exists>a' b'. break_on p (a @ p @ b) = Some (a', b')"
  by (metis break_on_None not_Some_eq surj_pair)

text \<open>\<open>s.contains(p)\<close>.\<close>

definition contains :: "'a list \<Rightarrow> 'a list \<Rightarrow> bool" where
  "contains s p \<longleftrightarrow> break_on p s \<noteq> None"

lemma contains_iff [str_simps]: "contains s p \<longleftrightarrow> (\<exists>a b. s = a @ p @ b)"
  unfolding contains_def by (metis break_on_None break_on_exists break_on_Some not_None_eq surj_pair)

text \<open>\<open>s.split(c).next().unwrap_or("")\<close>.\<close>

definition first_piece :: "'a \<Rightarrow> 'a list \<Rightarrow> 'a list" where
  "first_piece c s = takeWhile (\<lambda>x. x \<noteq> c) s"

text \<open>\<open>s.ends_with(p)\<close>.\<close>

definition ends_with :: "'a list \<Rightarrow> 'a list \<Rightarrow> bool" where
  "ends_with s p \<longleftrightarrow> strip_prefix (rev p) (rev s) \<noteq> None"

text \<open>All pieces of \<open>s.split(c)\<close>, never none of them.\<close>

fun split_on :: "'a \<Rightarrow> 'a list \<Rightarrow> 'a list list" where
  "split_on c [] = [[]]"
| "split_on c (x # xs) =
     (if x = c then [] # split_on c xs
      else (x # hd (split_on c xs)) # tl (split_on c xs))"

lemma split_on_not_Nil [simp]: "split_on c s \<noteq> []"
  by (induction s) auto

lemma split_on_free: "c \<notin> set s \<Longrightarrow> split_on c s = [s]"
  by (induction s) auto

lemma split_on_Cons: "c \<notin> set a \<Longrightarrow> split_on c (a @ c # b) = a # split_on c b"
  by (induction a) auto

text \<open>
  \<open>s.lines()\<close>: the pieces between newlines, an empty last piece left out, one carriage return
  before a newline (or the end) dropped.
\<close>

abbreviation newline :: char where "newline \<equiv> CHR 0x0A"
abbreviation carriage_return :: char where "carriage_return \<equiv> CHR 0x0D"

definition strip_cr :: "string \<Rightarrow> string" where
  "strip_cr l = (if l \<noteq> [] \<and> last l = carriage_return then butlast l else l)"

text \<open>
  The carriage return is part of the line ending, so it goes with a newline only; a last line
  that no newline ends keeps its own.
\<close>

definition lines :: "string \<Rightarrow> string list" where
  "lines s =
     (let ps = split_on newline s
      in map strip_cr (butlast ps) @ (if last ps = [] then [] else [last ps]))"

text \<open>\<open>lines.join("\n")\<close> with a newline after each: how the sources write lines back.\<close>

definition unlines :: "string list \<Rightarrow> string" where
  "unlines ls = concat (map (\<lambda>l. l @ [newline]) ls)"

lemma unlines_simps [simp]:
  "unlines [] = []"
  "unlines (l # ls) = l @ newline # unlines ls"
  "unlines (ls @ ms) = unlines ls @ unlines ms"
  by (simp_all add: unlines_def)

lemma split_on_unlines:
  "list_all (\<lambda>l. newline \<notin> set l) ls \<Longrightarrow> split_on newline (unlines ls) = ls @ [[]]"
  by (induction ls) (auto simp: split_on_Cons)

definition clean_line :: "string \<Rightarrow> bool" where
  "clean_line l \<longleftrightarrow> newline \<notin> set l \<and> strip_cr l = l"

lemma lines_unlines: "list_all clean_line ls \<Longrightarrow> lines (unlines ls) = ls"
proof -
  assume a: "list_all clean_line ls"
  then have "map strip_cr ls = ls"
    by (induction ls) (auto simp: clean_line_def)
  moreover have "split_on newline (unlines ls) = ls @ [[]]"
    using a by (intro split_on_unlines) (auto simp: clean_line_def list_all_iff)
  ultimately show ?thesis by (simp add: lines_def)
qed

text \<open>\<open>join(sep)\<close>.\<close>

fun join :: "'a list \<Rightarrow> 'a list list \<Rightarrow> 'a list" where
  "join sep [] = []"
| "join sep [x] = x"
| "join sep (x # y # zs) = x @ sep @ join sep (y # zs)"

section \<open>Trimming\<close>

text \<open>
  The UTF-8 encodings of the characters with the Unicode property \<open>White_Space\<close>, which
  \<open>trim\<close>, \<open>trim_start\<close> and \<open>trim_end\<close> remove.
\<close>

definition whitespace_encodings :: "string list" where
  "whitespace_encodings =
     [[CHR 0x09], [CHR 0x0A], [CHR 0x0B], [CHR 0x0C], [CHR 0x0D], [CHR 0x20],
      [CHR 0xC2, CHR 0x85], [CHR 0xC2, CHR 0xA0], [CHR 0xE1, CHR 0x9A, CHR 0x80],
      [CHR 0xE2, CHR 0x80, CHR 0x80], [CHR 0xE2, CHR 0x80, CHR 0x81],
      [CHR 0xE2, CHR 0x80, CHR 0x82], [CHR 0xE2, CHR 0x80, CHR 0x83],
      [CHR 0xE2, CHR 0x80, CHR 0x84], [CHR 0xE2, CHR 0x80, CHR 0x85],
      [CHR 0xE2, CHR 0x80, CHR 0x86], [CHR 0xE2, CHR 0x80, CHR 0x87],
      [CHR 0xE2, CHR 0x80, CHR 0x88], [CHR 0xE2, CHR 0x80, CHR 0x89],
      [CHR 0xE2, CHR 0x80, CHR 0x8A], [CHR 0xE2, CHR 0x80, CHR 0xA8],
      [CHR 0xE2, CHR 0x80, CHR 0xA9], [CHR 0xE2, CHR 0x80, CHR 0xAF],
      [CHR 0xE2, CHR 0x81, CHR 0x9F], [CHR 0xE3, CHR 0x80, CHR 0x80]]"

fun strip_any :: "string list \<Rightarrow> string \<Rightarrow> string option" where
  "strip_any [] s = None"
| "strip_any (p # ps) s =
     (case strip_prefix p s of Some r \<Rightarrow> Some r | None \<Rightarrow> strip_any ps s)"

lemma strip_any_Some: "strip_any ps s = Some r \<Longrightarrow> \<exists>p \<in> set ps. s = p @ r"
  by (induction ps s rule: strip_any.induct)
     (auto simp: strip_prefix_Some split: option.splits)

lemma strip_any_shorter: "strip_any ps s = Some r \<Longrightarrow> [] \<notin> set ps \<Longrightarrow> length r < length s"
  using strip_any_Some by fastforce

text \<open>The empty list of encodings is excluded so that each round removes a byte.\<close>

function trim_with :: "string list \<Rightarrow> string \<Rightarrow> string" where
  "trim_with ps s =
     (case strip_any (filter (\<lambda>p. p \<noteq> []) ps) s of None \<Rightarrow> s | Some r \<Rightarrow> trim_with ps r)"
  by pat_completeness auto
termination
  by (relation "measure (\<lambda>(ps, s). length s)") (auto dest: strip_any_shorter)

declare trim_with.simps [simp del]

definition trim_start :: "string \<Rightarrow> string" where
  "trim_start s = trim_with whitespace_encodings s"

definition trim_end :: "string \<Rightarrow> string" where
  "trim_end s = rev (trim_with (map rev whitespace_encodings) (rev s))"

definition trim :: "string \<Rightarrow> string" where
  "trim s = trim_end (trim_start s)"

text \<open>What is removed is removed for good: trimming twice is trimming once.\<close>

lemma trim_with_fixed: "strip_any (filter (\<lambda>p. p \<noteq> []) ps) (trim_with ps s) = None"
proof (induction ps s rule: trim_with.induct)
  case (1 ps s)
  then show ?case
    by (cases "strip_any (filter (\<lambda>p. p \<noteq> []) ps) s") (simp_all add: trim_with.simps [of ps s])
qed

lemma trim_with_stop: "strip_any (filter (\<lambda>p. p \<noteq> []) ps) s = None \<Longrightarrow> trim_with ps s = s"
  by (simp add: trim_with.simps)

text \<open>Whitespace characters begin and end with bytes of their own; other text is left alone.\<close>

lemma trim_start_stop: "strip_any whitespace_encodings s = None \<Longrightarrow> trim_start s = s"
  unfolding trim_start_def by (rule trim_with_stop) (simp add: whitespace_encodings_def)

lemma trim_end_stop: "strip_any (map rev whitespace_encodings) (rev s) = None \<Longrightarrow> trim_end s = s"
  unfolding trim_end_def by (subst trim_with_stop) (simp_all add: whitespace_encodings_def)

lemma trim_with_idem [simp]: "trim_with ps (trim_with ps s) = trim_with ps s"
  using trim_with_fixed [of ps s] by (subst trim_with.simps) simp

lemma trim_end_idem [simp]: "trim_end (trim_end s) = trim_end s"
  by (simp add: trim_end_def)

lemma trim_with_suffix: "\<exists>p. s = p @ trim_with ps s"
proof (induction ps s rule: trim_with.induct)
  case (1 ps s)
  show ?case
  proof (cases "strip_any (filter (\<lambda>p. p \<noteq> []) ps) s")
    case None
    then show ?thesis by (simp add: trim_with.simps [of ps s])
  next
    case (Some r)
    then obtain q where "s = q @ r" using strip_any_Some by blast
    moreover obtain p where "r = p @ trim_with ps r" using "1.IH" [OF Some] by blast
    moreover have "trim_with ps s = trim_with ps r"
      using Some by (simp add: trim_with.simps [of ps s])
    ultimately have "s = (q @ p) @ trim_with ps s" by simp
    then show ?thesis by blast
  qed
qed

lemma trim_end_prefix: "\<exists>w. s = trim_end s @ w"
proof -
  obtain p where "rev s = p @ trim_with (map rev whitespace_encodings) (rev s)"
    using trim_with_suffix by blast
  then have "s = trim_end s @ rev p"
    unfolding trim_end_def by (metis rev_append rev_rev_ident)
  then show ?thesis by blast
qed

lemma set_trim_end: "set (trim_end s) \<subseteq> set s"
  using trim_end_prefix [of s] by (metis set_append sup_ge1)

text \<open>\<open>trim_end_matches(['\r', '\n'])\<close>: the delimiter of the line protocols.\<close>

definition trim_newlines :: "string \<Rightarrow> string" where
  "trim_newlines s =
     rev (dropWhile (\<lambda>c. c = newline \<or> c = carriage_return) (rev s))"

text \<open>The decimal digits of a natural number.\<close>

fun show_nat :: "nat \<Rightarrow> string" where
  "show_nat n =
     (if n < 10 then [char_of (48 + n)] else show_nat (n div 10) @ [char_of (48 + n mod 10)])"

declare show_nat.simps [simp del]

text \<open>\<open>parse::<u32>()\<close>: an optional plus sign, then decimal digits, within 32 bits.\<close>

fun digits_value :: "nat \<Rightarrow> string \<Rightarrow> nat option" where
  "digits_value n [] = Some n"
| "digits_value n (c # s) = (if is_ascii_digit c then digits_value (10 * n + (byte c - 48)) s else None)"

definition parse_u32 :: "string \<Rightarrow> nat option" where
  "parse_u32 s =
     (let ds = (if s \<noteq> [] \<and> hd s = CHR ''+'' then tl s else s)
      in if ds = [] then None
         else (case digits_value 0 ds of None \<Rightarrow> None | Some n \<Rightarrow> if n < 2 ^ 32 then Some n else None))"

lemma digits_value_append:
  "digits_value n (s @ t) = (case digits_value n s of None \<Rightarrow> None | Some m \<Rightarrow> digits_value m t)"
  by (induction s arbitrary: n) auto

lemma digit_char: "k < 10 \<Longrightarrow> is_ascii_digit (char_of (48 + k)) \<and> byte (char_of (48 + k)) = 48 + k"
  by (simp add: is_ascii_digit_def byte_def)

lemma digits_value_show: "digits_value 0 (show_nat n) = Some n"
proof (induction n rule: less_induct)
  case (less n)
  show ?case
  proof (cases "n < 10")
    case True
    then show ?thesis using digit_char [of n] by (simp add: show_nat.simps [of n])
  next
    case False
    then have "digits_value 0 (show_nat (n div 10)) = Some (n div 10)" using less by simp
    then show ?thesis
      using False digit_char [of "n mod 10"] by (simp add: show_nat.simps [of n] digits_value_append)
  qed
qed

lemma digits_value_digits: "digits_value n s \<noteq> None \<Longrightarrow> list_all is_ascii_digit s"
  by (induction s arbitrary: n) (auto split: if_splits)

lemma show_nat_digits: "list_all is_ascii_digit (show_nat n)"
  using digits_value_show [of n] digits_value_digits [of 0 "show_nat n"] by simp

lemma show_nat_not_Nil [simp]: "show_nat n \<noteq> []"
  by (simp add: show_nat.simps [of n])

lemma parse_show_u32: "n < 2 ^ 32 \<Longrightarrow> parse_u32 (show_nat n) = Some n"
proof -
  obtain c s where c: "show_nat n = c # s" by (cases "show_nat n") auto
  then have "is_ascii_digit c" using show_nat_digits [of n] by simp
  moreover have "\<not> is_ascii_digit (CHR ''+'')" by (simp add: is_ascii_digit_def byte_def)
  ultimately have "c \<noteq> CHR ''+''" by metis
  then show "n < 2 ^ 32 \<Longrightarrow> ?thesis" using c digits_value_show [of n] by (simp add: parse_u32_def Let_def)
qed

text \<open>\<open>String::from_utf8\<close> succeeds: the byte patterns of the Unicode standard, without surrogates.\<close>

definition two_bytes :: "char \<Rightarrow> char \<Rightarrow> bool" where
  "two_bytes a b \<longleftrightarrow> 194 \<le> byte a \<and> byte a \<le> 223 \<and> is_continuation b"

definition three_bytes :: "char \<Rightarrow> char \<Rightarrow> char \<Rightarrow> bool" where
  "three_bytes a b c \<longleftrightarrow>
     224 \<le> byte a \<and> byte a \<le> 239 \<and> is_continuation b \<and> is_continuation c \<and>
     (byte a = 224 \<longrightarrow> 160 \<le> byte b) \<and> (byte a = 237 \<longrightarrow> byte b < 160)"

definition four_bytes :: "char \<Rightarrow> char \<Rightarrow> char \<Rightarrow> char \<Rightarrow> bool" where
  "four_bytes a b c d \<longleftrightarrow>
     240 \<le> byte a \<and> byte a \<le> 244 \<and> is_continuation b \<and> is_continuation c \<and> is_continuation d \<and>
     (byte a = 240 \<longrightarrow> 144 \<le> byte b) \<and> (byte a = 244 \<longrightarrow> byte b < 144)"

fun valid_utf8 :: "string \<Rightarrow> bool" where
  "valid_utf8 [] = True"
| "valid_utf8 [a] = is_ascii a"
| "valid_utf8 [a, b] = (if is_ascii a then valid_utf8 [b] else two_bytes a b)"
| "valid_utf8 [a, b, c] =
     (if is_ascii a then valid_utf8 [b, c] else if two_bytes a b then valid_utf8 [c] else three_bytes a b c)"
| "valid_utf8 (a # b # c # d # s) =
     (if is_ascii a then valid_utf8 (b # c # d # s)
      else if two_bytes a b then valid_utf8 (c # d # s)
      else if three_bytes a b c then valid_utf8 (d # s)
      else four_bytes a b c d \<and> valid_utf8 s)"

lemma valid_utf8_snoc_ascii:
  "valid_utf8 s \<Longrightarrow> is_ascii x \<Longrightarrow> valid_utf8 (s @ [x])"
proof (induction s rule: valid_utf8.induct)
  case (5 a b c d s)
  then show ?case by (cases s) (auto split: if_splits)
qed (auto split: if_splits simp: two_bytes_def three_bytes_def)

section \<open>Fallible effects\<close>

text \<open>
  A call that changes the state of something outside the program and may fail: the early return of
  \<open>?\<close> is \<open>and_then\<close>, and \<open>map_err\<close> changes the error.
\<close>

definition and_then :: "('w \<Rightarrow> ('e + 'x) \<times> 'w) \<Rightarrow> ('x \<Rightarrow> 'w \<Rightarrow> ('e + 'y) \<times> 'w) \<Rightarrow> 'w \<Rightarrow> ('e + 'y) \<times> 'w" where
  "and_then m f w = (case m w of (Inl err, w') \<Rightarrow> (Inl err, w') | (Inr x, w') \<Rightarrow> f x w')"

definition map_err :: "('e \<Rightarrow> 'f) \<Rightarrow> ('w \<Rightarrow> ('e + 'x) \<times> 'w) \<Rightarrow> 'w \<Rightarrow> ('f + 'x) \<times> 'w" where
  "map_err g m w = (case m w of (Inl err, w') \<Rightarrow> (Inl (g err), w') | (Inr x, w') \<Rightarrow> (Inr x, w'))"

definition yields :: "'x \<Rightarrow> 'w \<Rightarrow> ('e + 'x) \<times> 'w" where
  "yields x w = (Inr x, w)"

definition fails :: "'e \<Rightarrow> 'w \<Rightarrow> ('e + 'x) \<times> 'w" where
  "fails err w = (Inl err, w)"

lemma and_then_simps [simp]:
  "m w = (Inr x, w') \<Longrightarrow> and_then m f w = f x w'"
  "m w = (Inl err, w') \<Longrightarrow> and_then m f w = (Inl err, w')"
  "and_then (yields x) f = f x"
  "and_then (fails err) f = fails err"
  by (auto simp: and_then_def yields_def fails_def fun_eq_iff)

lemma and_then_assoc: "and_then (and_then m f) g = and_then m (\<lambda>x. and_then (f x) g)"
  by (auto simp: and_then_def fun_eq_iff split: prod.splits sum.splits)

lemma and_then_Inr:
  assumes "and_then m f w = (Inr y, w2)"
  obtains x w1 where "m w = (Inr x, w1)" and "f x w1 = (Inr y, w2)"
  using assms by (auto simp: and_then_def split: prod.splits sum.splits)

section \<open>JSON values\<close>

text \<open>
  \<open>serde_json::Value\<close>. The sources build and read objects, strings, nulls and lists; a number
  is kept as an integer, which no modelled code looks into.
\<close>

datatype json =
    JNull
  | JBool bool
  | JNum int
  | JStr string
  | JArr "json list"
  | JObj "(string \<times> json) list"

text \<open>\<open>Value::get\<close> with a string key, and \<open>Value::as_str\<close>.\<close>

fun json_get :: "json \<Rightarrow> string \<Rightarrow> json option" where
  "json_get (JObj fields) k = map_of fields k"
| "json_get _ k = None"

fun as_str :: "json \<Rightarrow> string option" where
  "as_str (JStr s) = Some s"
| "as_str _ = None"

definition str_field :: "json \<Rightarrow> string \<Rightarrow> string option" where
  "str_field v k = Option.bind (json_get v k) as_str"

text \<open>An \<open>Option\<close> inside \<open>json!\<close> serialises \<open>None\<close> as null.\<close>

fun json_opt :: "json option \<Rightarrow> json" where
  "json_opt None = JNull"
| "json_opt (Some v) = v"

lemma str_field_obj [simp]:
  "str_field (JObj ((k, v) # kvs)) k' = (if k' = k then as_str v else str_field (JObj kvs) k')"
  "str_field (JObj []) k' = None"
  by (simp_all add: str_field_def)

section \<open>Responses\<close>

text \<open>
  An HTTP response as a handler builds it: a status with a JSON body, a bare status, or a
  redirect with its location.
\<close>

datatype response =
    Reply nat json
  | Bare nat
  | Redirect nat string
  | Plain nat string

fun status_of :: "response \<Rightarrow> nat" where
  "status_of (Reply s _) = s"
| "status_of (Bare s) = s"
| "status_of (Redirect s _) = s"
| "status_of (Plain s _) = s"

definition error_body :: "string \<Rightarrow> json" where
  "error_body code = JObj [(''error'', JStr code)]"

definition fail_with :: "nat \<Rightarrow> string \<Rightarrow> response" where
  "fail_with st code = Reply st (error_body code)"

lemma status_fail_with [simp]: "status_of (fail_with st code) = st"
  by (simp add: fail_with_def)

lemma fail_with_inject [simp]: "fail_with s c = fail_with s' c' \<longleftrightarrow> s = s' \<and> c = c'"
  by (simp add: fail_with_def error_body_def)

section \<open>Identifiers and time\<close>

text \<open>
  A UUID is an opaque identifier; its textual form belongs to the \<open>uuid\<close> crate. A point in
  time is a count of microseconds.
\<close>

datatype uuid = Uuid nat

type_synonym timestamp = int

section \<open>Lists and options\<close>

text \<open>\<open>unwrap_or\<close> and \<open>unwrap_or_default\<close>.\<close>

definition or_default :: "'x \<Rightarrow> 'x option \<Rightarrow> 'x" where
  "or_default d v = (case v of None \<Rightarrow> d | Some x \<Rightarrow> x)"

lemma find_Some_iff_ex: "(\<exists>x. find P xs = Some x) \<longleftrightarrow> (\<exists>x \<in> set xs. P x)"
  by (metis find_None_iff not_Some_eq)

lemma find_SomeD: "find P xs = Some x \<Longrightarrow> x \<in> set xs \<and> P x"
  by (metis find_Some_iff nth_mem)

lemma distinct_map_filter: "distinct (map f xs) \<Longrightarrow> distinct (map f (filter P xs))"
  by (induction xs) auto

lemma distinct_map_inj: "distinct (map f xs) \<Longrightarrow> x \<in> set xs \<Longrightarrow> y \<in> set xs \<Longrightarrow> f x = f y \<Longrightarrow> x = y"
  by (auto simp: distinct_map inj_on_def)

lemma filter_unique:
  "distinct (map f xs) \<Longrightarrow> x \<in> set xs \<Longrightarrow> filter (\<lambda>y. f y = f x) xs = [x]"
proof (induction xs)
  case (Cons y ys)
  show ?case
  proof (cases "y = x")
    case True
    then have "filter (\<lambda>z. f z = f x) ys = []"
      using Cons.prems(1) by (auto simp: filter_empty_conv image_iff)
    then show ?thesis using True by simp
  next
    case False
    then have "f y \<noteq> f x" using Cons.prems by auto
    then show ?thesis using Cons False by simp
  qed
qed simp

lemma in_map_filter: "y \<in> set (List.map_filter f xs) \<longleftrightarrow> (\<exists>x \<in> set xs. f x = Some y)"
  by (induction xs) (auto split: option.splits)

lemma find_unique:
  assumes "distinct (map f xs)" and "x \<in> set xs"
  shows "find (\<lambda>y. f y = f x) xs = Some x"
proof -
  obtain y where y: "find (\<lambda>y. f y = f x) xs = Some y"
    using assms(2) find_Some_iff_ex [of "\<lambda>y. f y = f x" xs] by blast
  then have "y \<in> set xs \<and> f y = f x" by (rule find_SomeD)
  then show ?thesis using y assms distinct_map_inj [of f xs y x] by auto
qed

end
