(* ===== verification/Api_Naming.thy ===== *)
theory Api_Naming
  imports Epistl_Prelude
begin

text \<open>
  The per-worktree names of \<open>apps/api/src/db.rs\<close> and \<open>apps/api/src/nats.rs\<close>: the slug, the
  database name and URL derived from it, the JetStream stream name and subjects, and the
  creation, drop and prune of worktree databases.

  The process environment and the output of \<open>git\<close> are the fields of \<open>host\<close>. The Postgres
  server is a parameter: whether a URL connects, and what a statement sent over a URL answers.
  What the safety lemmas need of it (a statement \<open>DROP DATABASE\<close> removes the database of that
  name and no other, names being cut at 63 bytes) is the named hypothesis \<open>drops_only_named\<close>.
\<close>

section \<open>Slugs\<close>

definition MAX_PG_IDENTIFIER_LEN :: nat where
  "MAX_PG_IDENTIFIER_LEN = 63"

text \<open>
  \<open>str::to_lowercase\<close> as \<open>sanitize_slug\<close> sees it. Only two characters outside ASCII have an
  ASCII character in their lowercase mapping: the Kelvin sign U+212A (\<open>k\<close>) and the dotted
  capital I U+0130 (\<open>i\<close> followed by U+0307). Every other character outside ASCII maps to
  one character outside ASCII, and which one makes no difference to the slug.
\<close>

fun slug_lowercase :: "string \<Rightarrow> string" where
  "slug_lowercase [] = []"
| "slug_lowercase (c # s) =
     (if c = CHR 0xE2 \<and> take 2 s = [CHR 0x84, CHR 0xAA]
      then CHR ''k'' # slug_lowercase (drop 2 s)
      else if c = CHR 0xC4 \<and> take 1 s = [CHR 0xB0]
      then [CHR ''i'', CHR 0xCC, CHR 0x87] @ slug_lowercase (drop 1 s)
      else to_ascii_lowercase_char c # slug_lowercase s)"

definition slug_char :: "char \<Rightarrow> bool" where
  "slug_char c \<longleftrightarrow> is_ascii_lowercase c \<or> is_ascii_digit c \<or> c = CHR ''_''"

text \<open>A character outside ASCII is one underscore, at its first byte.\<close>

definition slug_byte :: "char \<Rightarrow> string" where
  "slug_byte c = (if slug_char c then [c] else if is_continuation c then [] else ''_'')"

definition sanitize_slug :: "string \<Rightarrow> string" where
  "sanitize_slug slug = concat (map slug_byte (slug_lowercase slug))"

record host =
  env_var :: "string \<Rightarrow> string option"
  git_toplevel :: "string option"

definition WORKTREE_SLUG_VAR :: string where
  "WORKTREE_SLUG_VAR = ''EPISTL_WORKTREE_SLUG''"

definition DATABASE_URL_VAR :: string where
  "DATABASE_URL_VAR = ''DATABASE_URL''"

definition worktree_marker :: string where
  "worktree_marker = ''/.claude/worktrees/''"

definition slug_from_toplevel :: "string \<Rightarrow> string option" where
  "slug_from_toplevel toplevel =
     (case break_on worktree_marker toplevel of
        Some (_, after) \<Rightarrow>
          (let name = trim (first_piece (CHR ''/'') after)
           in if name \<noteq> [] then Some (sanitize_slug name) else None)
      | None \<Rightarrow> None)"

definition worktree_slug :: "host \<Rightarrow> string option" where
  "worktree_slug h =
     (case env_var h WORKTREE_SLUG_VAR of
        Some slug \<Rightarrow>
          if slug \<noteq> [] then Some (sanitize_slug slug)
          else Option.bind (git_toplevel h) (\<lambda>t. slug_from_toplevel (trim t))
      | None \<Rightarrow> Option.bind (git_toplevel h) (\<lambda>t. slug_from_toplevel (trim t)))"

lemma slug_char_ascii: "slug_char c \<Longrightarrow> is_ascii c"
  by (auto simp: slug_char_def is_ascii_lowercase_def is_ascii_digit_def is_ascii_def byte_def)

lemma slug_char_lower: "slug_char c \<Longrightarrow> to_ascii_lowercase_char c = c"
  by (auto simp: slug_char_def is_ascii_lowercase_def is_ascii_digit_def byte_def
      to_ascii_lowercase_char_def is_ascii_uppercase_def)

lemma sanitize_slug_chars: "list_all slug_char (sanitize_slug slug)"
  by (auto simp: sanitize_slug_def list_all_iff slug_byte_def slug_char_def split: if_splits)

lemma slug_lowercase_slug: "list_all slug_char s \<Longrightarrow> slug_lowercase s = s"
proof (induction s)
  case (Cons c s)
  then have "c \<noteq> CHR 0xE2 \<and> c \<noteq> CHR 0xC4"
    by (auto dest!: slug_char_ascii simp: is_ascii_def byte_def)
  with Cons show ?case by (simp add: slug_char_lower)
qed simp

lemma sanitize_slug_fixed: "list_all slug_char s \<Longrightarrow> sanitize_slug s = s"
  by (simp add: sanitize_slug_def slug_lowercase_slug)
     (induction s, auto simp: slug_byte_def)

lemma slug_from_toplevel_chars: "slug_from_toplevel t = Some slug \<Longrightarrow> list_all slug_char slug"
  by (auto simp: slug_from_toplevel_def Let_def intro!: sanitize_slug_chars
      split: option.splits if_splits prod.splits)

lemma worktree_slug_chars: "worktree_slug h = Some slug \<Longrightarrow> list_all slug_char slug"
  by (auto simp: worktree_slug_def bind_eq_Some_conv
      intro: sanitize_slug_chars slug_from_toplevel_chars split: option.splits if_splits)

section \<open>Database names\<close>

definition wt_infix :: string where
  "wt_infix = ''_wt_''"

lemma length_wt_infix [simp]: "length wt_infix = 4"
  by (simp add: wt_infix_def)

text \<open>\<open>None\<close> is the panic of a slice that is not at a character boundary.\<close>

definition derive_db_name :: "string \<Rightarrow> string \<Rightarrow> string option" where
  "derive_db_name base_db slug =
     (let prefix = base_db @ wt_infix;
          remaining = MAX_PG_IDENTIFIER_LEN - length prefix
      in map_option (\<lambda>truncated. prefix @ truncated) (slice_to slug (min (length slug) remaining)))"

text \<open>On a sanitised slug the slice never panics.\<close>

definition derived_name :: "string \<Rightarrow> string \<Rightarrow> string" where
  "derived_name base_db slug =
     (base_db @ wt_infix) @ take (MAX_PG_IDENTIFIER_LEN - length (base_db @ wt_infix)) slug"

lemma derive_db_name_slug:
  assumes "list_all slug_char slug"
  shows "derive_db_name base_db slug = Some (derived_name base_db slug)"
proof -
  have "list_all is_ascii slug"
    using assms by (auto simp: list_all_iff slug_char_ascii)
  then have "slice_to slug (min (length slug) n) = Some (take n slug)" for n
    by (simp add: slice_to_ascii min_def)
  then show ?thesis
    by (simp only: derive_db_name_def derived_name_def Let_def option.map)
qed

lemma length_derived_name:
  "length (derived_name base_db slug) =
     length base_db + 4 + min (length slug) (63 - (length base_db + 4))"
  by (simp add: derived_name_def MAX_PG_IDENTIFIER_LEN_def)

lemma derived_name_not_base [simp]: "derived_name base_db slug \<noteq> base_db"
  by (metis length_derived_name not_add_less1 zero_less_numeral add_gr_0 less_add_same_cancel1 add.assoc)

section \<open>Database URLs\<close>

fun first_scheme :: "string list \<Rightarrow> string \<Rightarrow> (string \<times> string) option" where
  "first_scheme [] url = None"
| "first_scheme (s # ss) url =
     (case strip_prefix s url of Some r \<Rightarrow> Some (s, r) | None \<Rightarrow> first_scheme ss url)"

definition extract_db_url_parts :: "string \<Rightarrow> (string \<times> string \<times> string) option" where
  "extract_db_url_parts url =
     (case first_scheme [''postgresql://'', ''postgres://''] url of
        None \<Rightarrow> None
      | Some (scheme, rest) \<Rightarrow>
          (case break_on ''/'' rest of
             None \<Rightarrow> None
           | Some (authority, after_slash) \<Rightarrow>
               (case break_on ''?'' after_slash of
                  Some (db_name, query) \<Rightarrow> Some (scheme @ authority @ ''/'', db_name, ''?'' @ query)
                | None \<Rightarrow> Some (scheme @ authority @ ''/'', after_slash, []))))"

text \<open>\<open>Panicked\<close> stands for a panic of \<open>derive_db_name\<close>, which no caller below can cause.\<close>

datatype db_error =
    MissingDatabaseUrl
  | InvalidDatabaseUrl
  | ConnectError
  | DbOp
  | NoWorktreeSlug
  | Panicked

definition effective_database_url :: "host \<Rightarrow> db_error + string" where
  "effective_database_url h =
     (case env_var h DATABASE_URL_VAR of
        None \<Rightarrow> Inl MissingDatabaseUrl
      | Some url \<Rightarrow>
          (case worktree_slug h of
             None \<Rightarrow> Inr url
           | Some slug \<Rightarrow>
               (case extract_db_url_parts url of
                  None \<Rightarrow> Inl InvalidDatabaseUrl
                | Some (prefix, base_db, suffix) \<Rightarrow>
                    (case derive_db_name base_db slug of
                       None \<Rightarrow> Inl Panicked
                     | Some derived \<Rightarrow> Inr (prefix @ derived @ suffix)))))"

definition maintenance_url :: "string \<Rightarrow> string option" where
  "maintenance_url url =
     (case extract_db_url_parts url of
        None \<Rightarrow> None
      | Some (prefix, _, suffix) \<Rightarrow> Some (prefix @ ''postgres'' @ suffix))"

lemma first_scheme_Some: "first_scheme ss url = Some (s, r) \<Longrightarrow> s \<in> set ss \<and> url = s @ r"
  by (induction ss url rule: first_scheme.induct)
     (auto simp: strip_prefix_Some split: option.splits)

lemma break_on_single_free: "break_on [c] s = Some (a, b) \<Longrightarrow> c \<notin> set a"
proof
  assume b: "break_on [c] s = Some (a, b)" and "c \<in> set a"
  then obtain x y where "a = x @ c # y" by (meson split_list)
  with break_on_Some [OF b] have "s = x @ [c] @ (y @ [c] @ b)" by simp
  from break_on_first [OF b this] \<open>a = x @ c # y\<close> show False by simp
qed

lemma break_on_single: "c \<notin> set a \<Longrightarrow> break_on [c] (a @ c # b) = Some (a, b)"
proof -
  assume c: "c \<notin> set a"
  obtain a' b' where ab: "break_on [c] (a @ [c] @ b) = Some (a', b')"
    using break_on_exists by blast
  then have eq: "a @ c # b = a' @ c # b'" and c': "c \<notin> set a'"
    by (auto dest: break_on_Some break_on_single_free)
  have "takeWhile (\<lambda>x. x \<noteq> c) (a @ c # b) = a" "takeWhile (\<lambda>x. x \<noteq> c) (a' @ c # b') = a'"
    using c c' by (simp_all add: takeWhile_tail takeWhile_eq_all_conv) (metis takeWhile_append2 takeWhile.simps(2) append_Nil2)+
  with eq have "a' = a" by simp
  with eq have "a' = a \<and> b' = b" by simp
  with ab show ?thesis by simp
qed

lemma break_on_single_None_iff: "break_on [c] s = None \<longleftrightarrow> c \<notin> set s"
proof
  assume n: "break_on [c] s = None"
  show "c \<notin> set s"
  proof
    assume "c \<in> set s"
    then obtain x y where "s = x @ [c] @ y" by (auto simp: in_set_conv_decomp)
    with break_on_None [OF n] show False by blast
  qed
next
  assume "c \<notin> set s"
  then show "break_on [c] s = None"
    by (cases "break_on [c] s") (auto dest!: break_on_Some)
qed

lemma extract_db_url_parts_cases:
  assumes "extract_db_url_parts url = Some (p, d, s)"
  obtains scheme authority rest after where
    "first_scheme [''postgresql://'', ''postgres://''] url = Some (scheme, rest)"
    "break_on ''/'' rest = Some (authority, after)" "p = scheme @ authority @ ''/''"
    "(\<exists>q. break_on ''?'' after = Some (d, q) \<and> s = ''?'' @ q) \<or>
     (break_on ''?'' after = None \<and> d = after \<and> s = [])"
  using assms unfolding extract_db_url_parts_def by (simp split: option.splits prod.splits)

lemma extract_db_url_parts_concat:
  assumes "extract_db_url_parts url = Some (p, d, s)"
  shows "url = p @ d @ s"
proof -
  obtain scheme authority rest after where
    u: "first_scheme [''postgresql://'', ''postgres://''] url = Some (scheme, rest)"
    and r: "break_on ''/'' rest = Some (authority, after)"
    and p: "p = scheme @ authority @ ''/''"
    and q: "(\<exists>q. break_on ''?'' after = Some (d, q) \<and> s = ''?'' @ q) \<or>
            (break_on ''?'' after = None \<and> d = after \<and> s = [])"
    using assms by (rule extract_db_url_parts_cases)
  from u have u: "url = scheme @ rest" using first_scheme_Some by blast
  from r have r: "rest = authority @ ''/'' @ after" by (rule break_on_Some)
  from q have "after = d @ s" by (auto dest: break_on_Some)
  then show ?thesis using u r p by simp
qed

lemma extract_db_url_parts_shape:
  assumes "extract_db_url_parts url = Some (p, d, s)"
  shows "\<exists>scheme authority. scheme \<in> {''postgresql://'', ''postgres://''} \<and>
           p = scheme @ authority @ ''/'' \<and> CHR ''/'' \<notin> set authority \<and>
           CHR ''?'' \<notin> set d \<and> (s = [] \<or> hd s = CHR ''?'')"
proof -
  obtain scheme authority rest after where
    u: "first_scheme [''postgresql://'', ''postgres://''] url = Some (scheme, rest)"
    and a: "break_on ''/'' rest = Some (authority, after)"
    and p: "p = scheme @ authority @ ''/''"
    and q: "(\<exists>q. break_on ''?'' after = Some (d, q) \<and> s = ''?'' @ q) \<or>
            (break_on ''?'' after = None \<and> d = after \<and> s = [])"
    using assms by (rule extract_db_url_parts_cases)
  from u have u: "scheme \<in> {''postgresql://'', ''postgres://''}"
    using first_scheme_Some by fastforce
  from a have a: "CHR ''/'' \<notin> set authority" by (rule break_on_single_free)
  from q have "CHR ''?'' \<notin> set d \<and> (s = [] \<or> hd s = CHR ''?'')"
    by (auto dest: break_on_single_free simp: break_on_single_None_iff)
  then show ?thesis using u a p by blast
qed

text \<open>Parsing is stable under exchanging the database name.\<close>

lemma extract_db_url_parts_rebuild:
  assumes "extract_db_url_parts url = Some (p, d, s)" and "CHR ''?'' \<notin> set d'"
  shows "extract_db_url_parts (p @ d' @ s) = Some (p, d', s)"
proof -
  obtain scheme authority where
    sch: "scheme \<in> {''postgresql://'', ''postgres://''}" and p: "p = scheme @ authority @ ''/''"
    and au: "CHR ''/'' \<notin> set authority" and s: "s = [] \<or> hd s = CHR ''?''"
    using extract_db_url_parts_shape [OF assms(1)] by blast
  have fs: "first_scheme [''postgresql://'', ''postgres://''] (scheme @ r) = Some (scheme, r)" for r
    using sch by auto
  have br: "break_on ''/'' (authority @ CHR ''/'' # r) = Some (authority, r)" for r
    using au by (rule break_on_single)
  show ?thesis
  proof (cases s)
    case Nil
    then show ?thesis
      using fs [of "authority @ CHR ''/'' # d'"] br [of d'] assms(2)
      break_on_single_None_iff [THEN iffD2, OF assms(2)]
      by (simp add: extract_db_url_parts_def p del: first_scheme.simps)
  next
    case (Cons c q)
    then have "s = CHR ''?'' # q" using s by simp
    then show ?thesis
      using fs [of "authority @ CHR ''/'' # d' @ s"] br [of "d' @ s"] break_on_single [OF assms(2), of q]
      by (simp add: extract_db_url_parts_def p del: first_scheme.simps)
  qed
qed

lemma effective_database_url_no_panic: "effective_database_url h \<noteq> Inl Panicked"
  by (auto simp: effective_database_url_def derive_db_name_slug worktree_slug_chars
      split: option.splits)

end
