(* ===== verification/Api_Worktrees.thy ===== *)
theory Api_Worktrees
  imports Api_Naming
begin

text \<open>
  Creation, drop and prune of the worktree databases (\<open>apps/api/src/db.rs\<close>), the names of the
  JetStream stream and subjects (\<open>apps/api/src/nats.rs\<close>), and the migration binary that calls
  them (\<open>apps/api/src/bin/migrate.rs\<close>).

  The Postgres server and the JetStream administration are parameters: records of functions on
  abstract states. The properties that need to know what the server does with a statement name
  the documented behaviour as \<open>drops_only_named\<close>.
\<close>

section \<open>The server\<close>

datatype sql_answer = Executed | DatabaseError string | TransportError

record 'p server =
  srv_connects :: "string \<Rightarrow> 'p \<Rightarrow> bool"
  srv_exec :: "string \<Rightarrow> string \<Rightarrow> 'p \<Rightarrow> sql_answer \<times> 'p"
  srv_databases :: "'p \<Rightarrow> string list option"

abbreviation dquote :: char where "dquote \<equiv> CHR 0x22"
abbreviation squote :: char where "squote \<equiv> CHR 0x27"

text \<open>\<open>name.replace('"', "\"\"")\<close> and the statements built from it.\<close>

definition double_char :: "char \<Rightarrow> string \<Rightarrow> string" where
  "double_char q s = concat (map (\<lambda>c. if c = q then [q, q] else [c]) s)"

definition create_database_sql :: "string \<Rightarrow> string" where
  "create_database_sql name =
     ''CREATE DATABASE '' @ [dquote] @ double_char dquote name @ [dquote]"

definition drop_database_sql :: "string \<Rightarrow> string" where
  "drop_database_sql name =
     ''DROP DATABASE IF EXISTS '' @ [dquote] @ double_char dquote name @ [dquote]"

definition terminate_sql :: "string \<Rightarrow> string" where
  "terminate_sql name =
     ''SELECT pg_terminate_backend(pid) FROM pg_stat_activity WHERE datname = '' @ [squote]
       @ double_char squote name @ [squote] @ '' AND pid <> pg_backend_pid()''"

definition create_db_if_missing :: "'p server \<Rightarrow> string \<Rightarrow> 'p \<Rightarrow> (db_error + unit) \<times> 'p" where
  "create_db_if_missing srv url p =
     (case extract_db_url_parts url of
        None \<Rightarrow> (Inl InvalidDatabaseUrl, p)
      | Some (_, db_name, _) \<Rightarrow>
          (case maintenance_url url of
             None \<Rightarrow> (Inl InvalidDatabaseUrl, p)
           | Some maint \<Rightarrow>
               if \<not> srv_connects srv maint p then (Inl ConnectError, p)
               else (case srv_exec srv maint (create_database_sql db_name) p of
                       (Executed, p') \<Rightarrow> (Inr (), p')
                     | (DatabaseError code, p') \<Rightarrow>
                         if code = ''42P04'' then (Inr (), p') else (Inl DbOp, p')
                     | (TransportError, p') \<Rightarrow> (Inl DbOp, p'))))"

definition drop_worktree_db_for_slug ::
  "'p server \<Rightarrow> string option \<Rightarrow> string \<Rightarrow> 'p \<Rightarrow> (db_error + unit) \<times> 'p" where
  "drop_worktree_db_for_slug srv slug_opt url p =
     (case slug_opt of
        None \<Rightarrow> (Inl NoWorktreeSlug, p)
      | Some slug \<Rightarrow>
          (case extract_db_url_parts url of
             None \<Rightarrow> (Inl InvalidDatabaseUrl, p)
           | Some (prefix, base_db, suffix) \<Rightarrow>
               (case derive_db_name base_db slug of
                  None \<Rightarrow> (Inl Panicked, p)
                | Some derived \<Rightarrow>
                    if derived = base_db then (Inl NoWorktreeSlug, p)
                    else
                      (let maint = prefix @ ''postgres'' @ suffix
                       in if \<not> srv_connects srv maint p then (Inl ConnectError, p)
                          else (case srv_exec srv maint (drop_database_sql derived) p of
                                  (Executed, p') \<Rightarrow> (Inr (), p')
                                | (_, p') \<Rightarrow> (Inl DbOp, p'))))))"

definition drop_worktree_db :: "'p server \<Rightarrow> host \<Rightarrow> string \<Rightarrow> 'p \<Rightarrow> (db_error + unit) \<times> 'p" where
  "drop_worktree_db srv h url p = drop_worktree_db_for_slug srv (worktree_slug h) url p"

section \<open>Orphans and pruning\<close>

definition orphaned_worktree_dbs ::
  "string list \<Rightarrow> string \<Rightarrow> string set \<Rightarrow> (string \<times> string) list" where
  "orphaned_worktree_dbs all_dbs base_db active_slugs =
     List.map_filter
       (\<lambda>name. case strip_prefix (base_db @ wt_infix) name of
                 None \<Rightarrow> None
               | Some slug \<Rightarrow> if slug \<notin> active_slugs then Some (name, slug) else None)
       all_dbs"

text \<open>One line of \<open>git worktree list --porcelain\<close>, and all of them.\<close>

definition worktree_line_slug :: "string \<Rightarrow> string option" where
  "worktree_line_slug line =
     (case strip_prefix ''worktree '' line of
        None \<Rightarrow> None
      | Some rest \<Rightarrow>
          (case break_on worktree_marker rest of
             None \<Rightarrow> None
           | Some (_, after) \<Rightarrow>
               (let name = trim (first_piece (CHR ''/'') after)
                in if name \<noteq> [] then Some (sanitize_slug name) else None)))"

definition live_worktree_slugs :: "string \<Rightarrow> string set" where
  "live_worktree_slugs porcelain = set (List.map_filter worktree_line_slug (lines porcelain))"

fun drop_orphans ::
  "'p server \<Rightarrow> string \<Rightarrow> (string \<times> string) list \<Rightarrow> 'p \<Rightarrow> (db_error + unit) \<times> 'p" where
  "drop_orphans srv maint [] p = (Inr (), p)"
| "drop_orphans srv maint ((db_name, slug) # rest) p =
     (let p1 = snd (srv_exec srv maint (terminate_sql db_name) p)
      in case srv_exec srv maint (drop_database_sql db_name) p1 of
           (Executed, p2) \<Rightarrow> drop_orphans srv maint rest p2
         | (_, p2) \<Rightarrow> (Inl DbOp, p2))"

definition prune_worktree_dbs ::
  "'p server \<Rightarrow> string \<Rightarrow> string \<Rightarrow> bool \<Rightarrow> 'p \<Rightarrow> (db_error + (string \<times> string) list) \<times> 'p" where
  "prune_worktree_dbs srv porcelain url dry_run p =
     (case extract_db_url_parts url of
        None \<Rightarrow> (Inl InvalidDatabaseUrl, p)
      | Some (prefix, base_db, suffix) \<Rightarrow>
          (let maint = prefix @ ''postgres'' @ suffix
           in if \<not> srv_connects srv maint p then (Inl ConnectError, p)
              else (case srv_databases srv p of
                      None \<Rightarrow> (Inl DbOp, p)
                    | Some all_dbs \<Rightarrow>
                        (let orphans = orphaned_worktree_dbs all_dbs base_db (live_worktree_slugs porcelain)
                         in if dry_run then (Inr orphans, p)
                            else (case drop_orphans srv maint orphans p of
                                    (Inl e, p') \<Rightarrow> (Inl e, p')
                                  | (Inr _, p') \<Rightarrow> (Inr orphans, p'))))))"

lemma orphaned_worktree_dbs_iff:
  "(name, slug) \<in> set (orphaned_worktree_dbs all_dbs base_db active) \<longleftrightarrow>
     name \<in> set all_dbs \<and> name = base_db @ wt_infix @ slug \<and> slug \<notin> active"
  by (auto simp: orphaned_worktree_dbs_def in_map_filter strip_prefix_Some
      split: option.splits if_splits)

text \<open>
  What the safety of drop and prune rests on. \<open>dbs\<close> reads the set of databases from the server's
  state. \<open>DROP DATABASE IF EXISTS "n"\<close> removes the database of that name, the name being cut to
  63 bytes, and no other; terminating backends removes none; the listing holds names the server
  accepted, so none is longer than 63 bytes.
\<close>

definition drops_only_named :: "'p server \<Rightarrow> ('p \<Rightarrow> string set) \<Rightarrow> bool" where
  "drops_only_named srv dbs \<longleftrightarrow>
     (\<forall>url name p d. d \<in> dbs p \<and> d \<noteq> take 63 name \<longrightarrow>
        d \<in> dbs (snd (srv_exec srv url (drop_database_sql name) p))) \<and>
     (\<forall>url name p. dbs (snd (srv_exec srv url (terminate_sql name) p)) = dbs p) \<and>
     (\<forall>p l. srv_databases srv p = Some l \<longrightarrow> (\<forall>d \<in> set l. length d \<le> 63))"

lemma drop_orphans_keeps:
  assumes "drops_only_named srv dbs" and "d \<in> dbs p"
    and "\<forall>(n, s) \<in> set orphans. length n \<le> 63 \<and> n \<noteq> d"
  shows "d \<in> dbs (snd (drop_orphans srv maint orphans p))"
  using assms(2,3)
proof (induction orphans arbitrary: p)
  case (Cons o' rest)
  obtain db_name slug where o: "o' = (db_name, slug)" by force
  define p1 where "p1 = snd (srv_exec srv maint (terminate_sql db_name) p)"
  define p2 where "p2 = snd (srv_exec srv maint (drop_database_sql db_name) p1)"
  have "d \<in> dbs p1"
    using assms(1) Cons.prems(1) by (simp add: p1_def drops_only_named_def)
  then have d2: "d \<in> dbs p2"
    using assms(1) Cons.prems(2) by (auto simp: p2_def drops_only_named_def o)
  have "d \<in> dbs (snd (drop_orphans srv maint rest p2))"
    using d2 Cons.prems(2) by (intro Cons.IH) auto
  then show ?case
    using d2 by (auto simp: o p1_def [symmetric] p2_def Let_def split: prod.splits sql_answer.splits)
qed simp

section \<open>JetStream names\<close>

definition OFFLINE_STREAM_NAME :: string where
  "OFFLINE_STREAM_NAME = ''EPISTL_OFFLINE_MESSAGES''"

definition OFFLINE_STREAM_SUBJECTS :: string where
  "OFFLINE_STREAM_SUBJECTS = ''epistl.offline.*''"

definition effective_stream_name :: "host \<Rightarrow> string" where
  "effective_stream_name h =
     (case worktree_slug h of
        Some slug \<Rightarrow> OFFLINE_STREAM_NAME @ wt_infix @ slug
      | None \<Rightarrow> OFFLINE_STREAM_NAME)"

definition effective_stream_subjects :: "host \<Rightarrow> string list" where
  "effective_stream_subjects h =
     (case worktree_slug h of
        Some slug \<Rightarrow> [''epistl.offline.'' @ slug @ ''.*'']
      | None \<Rightarrow> [OFFLINE_STREAM_SUBJECTS])"

text \<open>\<open>show_uuid\<close> is the \<open>uuid\<close> crate's textual form.\<close>

definition offline_subject :: "(uuid \<Rightarrow> string) \<Rightarrow> uuid \<Rightarrow> string" where
  "offline_subject show_uuid user_id = ''epistl.offline.'' @ show_uuid user_id"

definition effective_offline_subject :: "(uuid \<Rightarrow> string) \<Rightarrow> host \<Rightarrow> uuid \<Rightarrow> string" where
  "effective_offline_subject show_uuid h user_id =
     (case worktree_slug h of
        Some slug \<Rightarrow> ''epistl.offline.'' @ slug @ ''.'' @ show_uuid user_id
      | None \<Rightarrow> offline_subject show_uuid user_id)"

text \<open>\<open>str::parse::<u64>\<close>: an optional plus sign, then digits, below \<open>2 ^ 64\<close>.\<close>

definition digits_value :: "string \<Rightarrow> nat" where
  "digits_value ds = foldl (\<lambda>n c. n * 10 + (byte c - 48)) 0 ds"

definition parse_u64 :: "string \<Rightarrow> nat option" where
  "parse_u64 s =
     (let ds = (case s of [] \<Rightarrow> [] | c # r \<Rightarrow> if c = CHR ''+'' then r else s)
      in if ds \<noteq> [] \<and> list_all is_ascii_digit ds \<and> digits_value ds < 2 ^ 64
         then Some (digits_value ds) else None)"

definition DEFAULT_OFFLINE_QUEUE_MAX_AGE_SECS :: nat where
  "DEFAULT_OFFLINE_QUEUE_MAX_AGE_SECS = 86400"

definition offline_queue_max_age :: "host \<Rightarrow> nat" where
  "offline_queue_max_age h =
     (case Option.bind (env_var h ''OFFLINE_QUEUE_MAX_AGE_SECS'') parse_u64 of
        Some secs \<Rightarrow> secs
      | None \<Rightarrow> DEFAULT_OFFLINE_QUEUE_MAX_AGE_SECS)"

datatype retention = Limits | Interest | WorkQueue
datatype storage = File | Memory

record stream_config =
  sc_name :: string
  sc_subjects :: "string list"
  sc_retention :: retention
  sc_max_age :: nat
  sc_storage :: storage

text \<open>The configuration the code hands to \<open>get_or_create_stream\<close>.\<close>

definition offline_stream_config :: "host \<Rightarrow> stream_config" where
  "offline_stream_config h =
     \<lparr>sc_name = effective_stream_name h,
      sc_subjects = effective_stream_subjects h,
      sc_retention = WorkQueue,
      sc_max_age = offline_queue_max_age h,
      sc_storage = File\<rparr>"

text \<open>
  The JetStream administration as a parameter: creating a stream, deleting one by name, and the
  names of all streams (up to the first error of the listing).
\<close>

record 'n jetstream_admin =
  adm_get_or_create :: "stream_config \<Rightarrow> 'n \<Rightarrow> bool \<times> 'n"
  adm_delete :: "string \<Rightarrow> 'n \<Rightarrow> 'n"
  adm_streams :: "'n \<Rightarrow> string list"

definition ensure_offline_stream :: "'n jetstream_admin \<Rightarrow> host \<Rightarrow> 'n \<Rightarrow> bool \<times> 'n" where
  "ensure_offline_stream adm h n = adm_get_or_create adm (offline_stream_config h) n"

definition drop_worktree_stream :: "'n jetstream_admin \<Rightarrow> host \<Rightarrow> 'n \<Rightarrow> 'n" where
  "drop_worktree_stream adm h n =
     (let name = effective_stream_name h
      in if name = OFFLINE_STREAM_NAME then n else adm_delete adm name n)"

definition orphaned_worktree_streams :: "'n jetstream_admin \<Rightarrow> string set \<Rightarrow> 'n \<Rightarrow> string list" where
  "orphaned_worktree_streams adm active_slugs n =
     filter (\<lambda>name. case strip_prefix (OFFLINE_STREAM_NAME @ wt_infix) name of
                      None \<Rightarrow> False
                    | Some slug \<Rightarrow> slug \<notin> active_slugs)
       (adm_streams adm n)"

lemma orphaned_worktree_streams_iff:
  "name \<in> set (orphaned_worktree_streams adm active n) \<longleftrightarrow>
     name \<in> set (adm_streams adm n) \<and>
     (\<exists>slug. name = OFFLINE_STREAM_NAME @ wt_infix @ slug \<and> slug \<notin> active)"
  by (auto simp: orphaned_worktree_streams_def strip_prefix_Some strip_prefix_None
      split: option.splits)

end
