(* ===== verification/Api_Migrate.thy ===== *)
theory Api_Migrate
  imports Api_Worktrees
begin

text \<open>
  The migration binary (\<open>apps/api/src/bin/migrate.rs\<close>): its flags, the three runs they select and
  the exit code, and the properties of worktree names, drop and prune. The lines printed on the
  standard output are kept, those on the standard error are not.
\<close>

section \<open>Flags and runs\<close>

record migrate_flags =
  mf_drop :: bool
  mf_prune :: bool
  mf_dry_run :: bool

definition parse_migrate_flags :: "string list \<Rightarrow> migrate_flags" where
  "parse_migrate_flags argv =
     (let args = tl argv
      in \<lparr>mf_drop = ''--drop'' \<in> set args,
          mf_prune = ''--prune'' \<in> set args,
          mf_dry_run = ''--dry-run'' \<in> set args\<rparr>)"

text \<open>
  What the binary runs against: the environment, the server, the JetStream administration,
  whether a NATS URL connects, the output of \<open>git worktree list\<close>, and sqlx's migrator.
\<close>

record ('p, 'n) migrate_env =
  me_host :: host
  me_server :: "'p server"
  me_admin :: "'n jetstream_admin"
  me_nats_connects :: "string \<Rightarrow> bool"
  me_porcelain :: string
  me_run_migrations :: "string \<Rightarrow> 'p \<Rightarrow> bool \<times> 'p"

text \<open>Exit code, printed lines, and the states of the server and of JetStream.\<close>

type_synonym ('p, 'n) run = "nat \<times> string list \<times> 'p \<times> 'n"

definition ensure_nats_stream_if_configured :: "('p, 'n) migrate_env \<Rightarrow> 'n \<Rightarrow> 'n" where
  "ensure_nats_stream_if_configured e n =
     (case env_var (me_host e) ''NATS_URL'' of
        None \<Rightarrow> n
      | Some url \<Rightarrow>
          if me_nats_connects e url then snd (ensure_offline_stream (me_admin e) (me_host e) n) else n)"

definition run_migrate :: "('p, 'n) migrate_env \<Rightarrow> 'p \<Rightarrow> 'n \<Rightarrow> ('p, 'n) run" where
  "run_migrate e p n =
     (case effective_database_url (me_host e) of
        Inl _ \<Rightarrow> (1, [], p, n)
      | Inr url \<Rightarrow>
          (case create_db_if_missing (me_server e) url p of
             (Inl _, p1) \<Rightarrow> (1, [], p1, n)
           | (Inr _, p1) \<Rightarrow>
               if \<not> srv_connects (me_server e) url p1 then (1, [], p1, n)
               else (case me_run_migrations e url p1 of
                       (False, p2) \<Rightarrow> (1, [], p2, n)
                     | (True, p2) \<Rightarrow>
                         (0, [''migrations applied to '' @ last (split_on (CHR ''/'') url)], p2,
                          ensure_nats_stream_if_configured e n))))"

definition run_drop :: "('p, 'n) migrate_env \<Rightarrow> string \<Rightarrow> 'p \<Rightarrow> 'n \<Rightarrow> ('p, 'n) run" where
  "run_drop e url p n =
     (case worktree_slug (me_host e) of
        None \<Rightarrow> (1, [], p, n)
      | Some slug \<Rightarrow>
          (case drop_worktree_db (me_server e) (me_host e) url p of
             (Inl _, p1) \<Rightarrow> (1, [], p1, n)
           | (Inr _, p1) \<Rightarrow>
               (0, [''dropped worktree DB and NATS stream for slug: '' @ slug], p1,
                case env_var (me_host e) ''NATS_URL'' of
                  None \<Rightarrow> n
                | Some nats_url \<Rightarrow>
                    if me_nats_connects e nats_url then drop_worktree_stream (me_admin e) (me_host e) n
                    else n)))"

definition orphan_line :: "bool \<Rightarrow> string \<times> string \<Rightarrow> string" where
  "orphan_line dry_run o' =
     (if dry_run then ''  would drop DB: '' else ''  dropped DB: '')
       @ fst o' @ '' (slug: '' @ snd o' @ '')''"

definition stream_line :: "bool \<Rightarrow> string \<Rightarrow> string" where
  "stream_line dry_run name =
     (if dry_run then ''  would drop NATS stream: '' else ''  dropped NATS stream: '') @ name"

definition prune_summary :: "bool \<Rightarrow> nat \<Rightarrow> string" where
  "prune_summary dry_run count =
     (if count = 0 then ''no orphaned worktree databases found''
      else if dry_run
      then ''dry-run complete: '' @ show_nat count @ '' database(s) would be dropped''
      else ''pruned '' @ show_nat count @ '' orphaned worktree database(s)'')"

definition run_prune :: "('p, 'n) migrate_env \<Rightarrow> string \<Rightarrow> bool \<Rightarrow> 'p \<Rightarrow> 'n \<Rightarrow> ('p, 'n) run" where
  "run_prune e url dry_run p n =
     (let heading = (if dry_run
            then [''dry-run: listing orphaned worktree databases (nothing will be dropped)''] else [])
      in case prune_worktree_dbs (me_server e) (me_porcelain e) url dry_run p of
           (Inl _, p1) \<Rightarrow> (1, heading, p1, n)
         | (Inr orphans, p1) \<Rightarrow>
             (let streams =
                    (case env_var (me_host e) ''NATS_URL'' of
                       None \<Rightarrow> []
                     | Some nats_url \<Rightarrow>
                         if me_nats_connects e nats_url
                         then orphaned_worktree_streams (me_admin e)
                                (live_worktree_slugs (me_porcelain e)) n
                         else []);
                  n1 = (if dry_run then n else fold (adm_delete (me_admin e)) streams n)
              in (0, heading @ map (orphan_line dry_run) orphans @ map (stream_line dry_run) streams
                       @ [prune_summary dry_run (length orphans)], p1, n1)))"

definition migrate_main :: "('p, 'n) migrate_env \<Rightarrow> string list \<Rightarrow> 'p \<Rightarrow> 'n \<Rightarrow> ('p, 'n) run" where
  "migrate_main e argv p n =
     (let flags = parse_migrate_flags argv
      in case env_var (me_host e) DATABASE_URL_VAR of
           None \<Rightarrow> (1, [], p, n)
         | Some url \<Rightarrow>
             if mf_drop flags then run_drop e url p n
             else if mf_prune flags then run_prune e url (mf_dry_run flags) p n
             else run_migrate e p n)"

section \<open>A concrete server for the witnesses\<close>

text \<open>
  A server whose state is the list of its databases: it understands the drop statement, cuts the
  name at 63 bytes, and lists the names Postgres could hold.
\<close>

fun undouble :: "string \<Rightarrow> string" where
  "undouble [] = []"
| "undouble [c] = (if c = dquote then [] else [c])"
| "undouble (c # d # s) =
     (if c = dquote then (if d = dquote then dquote # undouble s else [])
      else c # undouble (d # s))"

definition drop_prefix :: string where
  "drop_prefix = ''DROP DATABASE IF EXISTS '' @ [dquote]"

definition sample_server :: "string list server" where
  "sample_server =
     \<lparr>srv_connects = (\<lambda>_ _. True),
      srv_exec = (\<lambda>_ sql dbs.
        (Executed, case strip_prefix drop_prefix sql of
                     None \<Rightarrow> dbs
                   | Some r \<Rightarrow> filter (\<lambda>d. d \<noteq> take 63 (undouble r)) dbs)),
      srv_databases = (\<lambda>dbs. Some (filter (\<lambda>d. length d \<le> 63) dbs))\<rparr>"

lemma undouble_double: "undouble (double_char dquote s @ [dquote]) = s"
proof (induction s)
  case (Cons c s)
  show ?case
  proof (cases "c = dquote")
    case True
    then show ?thesis using Cons by (simp add: double_char_def)
  next
    case False
    obtain x xs where "double_char dquote s @ [dquote] = x # xs"
      by (cases "double_char dquote s @ [dquote]") auto
    with False Cons show ?thesis by (simp add: double_char_def)
  qed
qed (simp add: double_char_def)

lemma drop_sql_prefix:
  "strip_prefix drop_prefix (drop_database_sql name) = Some (double_char dquote name @ [dquote])"
  by (simp add: strip_prefix_Some drop_prefix_def drop_database_sql_def)

lemma terminate_sql_prefix: "strip_prefix drop_prefix (terminate_sql name) = None"
  by (simp add: drop_prefix_def terminate_sql_def)

lemma sample_server_drops: "drops_only_named sample_server set"
  by (simp add: drops_only_named_def sample_server_def drop_sql_prefix undouble_double
      terminate_sql_prefix)

section \<open>Properties of the names\<close>

text \<open>
  A sanitised slug contains nothing but lower-case ASCII letters, digits and underscores, so
  it can be put into a database name, a stream name and a subject token without quoting; and
  sanitising it again changes nothing.
\<close>

theorem sanitize_slug_safe:
  "list_all slug_char (sanitize_slug s) \<and> sanitize_slug (sanitize_slug s) = sanitize_slug s"
  by (simp add: sanitize_slug_chars sanitize_slug_fixed)

text \<open>
  For every slug the process can have, the derived database name is computed without a slice
  panic, extends the base name, and fits Postgres's 63 bytes exactly when the base name leaves
  room for the infix (59 bytes or fewer). For a longer base name the limit is exceeded.
\<close>

theorem derive_db_name_bound:
  assumes "worktree_slug h = Some slug"
  shows "\<exists>name. derive_db_name base_db slug = Some name \<and>
           take (length base_db) name = base_db \<and> name \<noteq> base_db \<and>
           (length name \<le> MAX_PG_IDENTIFIER_LEN) = (length base_db \<le> 59)"
proof (intro exI conjI)
  show "derive_db_name base_db slug = Some (derived_name base_db slug)"
    using worktree_slug_chars [OF assms] by (rule derive_db_name_slug)
  show "(length (derived_name base_db slug) \<le> MAX_PG_IDENTIFIER_LEN) = (length base_db \<le> 59)"
    unfolding length_derived_name MAX_PG_IDENTIFIER_LEN_def by linarith
qed (simp_all add: derived_name_def wt_infix_def)

definition sample_host :: host where
  "sample_host =
     \<lparr>env_var = (\<lambda>v. if v = WORKTREE_SLUG_VAR then Some ''A-1''
                     else if v = DATABASE_URL_VAR then Some ''postgres://u@h/epistl?a=b'' else None),
      git_toplevel = None\<rparr>"

lemma sample_host_slug: "worktree_slug sample_host = Some ''a_1''"
  by code_simp

theorem derive_db_name_bound_witness:
  "\<exists>name. derive_db_name ''epistl'' ''a_1'' = Some name \<and>
     take (length ''epistl'') name = ''epistl'' \<and> name \<noteq> ''epistl'' \<and>
     (length name \<le> MAX_PG_IDENTIFIER_LEN) = (length ''epistl'' \<le> 59)"
  by (rule derive_db_name_bound [OF sample_host_slug])

lemma no_question_mark:
  assumes "CHR ''?'' \<notin> set base_db" and "list_all slug_char slug"
  shows "CHR ''?'' \<notin> set (derived_name base_db slug)"
proof -
  have "\<not> slug_char (CHR ''?'')"
    by (simp add: slug_char_def is_ascii_lowercase_def is_ascii_digit_def byte_def)
  then have "CHR ''?'' \<notin> set slug" using assms(2) by (auto simp: list_all_iff)
  then show ?thesis using assms(1) by (auto simp: derived_name_def wt_infix_def dest: in_set_takeD)
qed

text \<open>
  The effective URL of a worktree differs from \<open>DATABASE_URL\<close> in the database name only: it
  parses into the same server part and query with the derived name between them, and has the
  same maintenance URL.
\<close>

theorem effective_url_renames_only:
  assumes "env_var h DATABASE_URL_VAR = Some url" and "worktree_slug h = Some slug"
    and "extract_db_url_parts url = Some (p, base_db, s)"
  shows "\<exists>url' name. effective_database_url h = Inr url' \<and> derive_db_name base_db slug = Some name \<and>
           extract_db_url_parts url' = Some (p, name, s) \<and> maintenance_url url' = maintenance_url url"
proof -
  have chars: "list_all slug_char slug" using assms(2) by (rule worktree_slug_chars)
  have "CHR ''?'' \<notin> set base_db" using extract_db_url_parts_shape [OF assms(3)] by blast
  then have "CHR ''?'' \<notin> set (derived_name base_db slug)" using chars by (rule no_question_mark)
  then have e: "extract_db_url_parts (p @ derived_name base_db slug @ s) =
      Some (p, derived_name base_db slug, s)"
    using extract_db_url_parts_rebuild [OF assms(3)] by blast
  show ?thesis
    using assms e derive_db_name_slug [OF chars, of base_db]
    by (simp add: effective_database_url_def maintenance_url_def)
qed

theorem effective_url_renames_only_witness:
  "\<exists>url' name. effective_database_url sample_host = Inr url' \<and> derive_db_name ''epistl'' ''a_1'' = Some name \<and>
     extract_db_url_parts url' = Some (''postgres://u@h/'', name, ''?a=b'') \<and>
     maintenance_url url' = maintenance_url ''postgres://u@h/epistl?a=b''"
  by (rule effective_url_renames_only [OF _ sample_host_slug]) code_simp+

text \<open>
  C34: Neither dropping the current worktree's database nor pruning the orphans removes a database
  that is not theirs. Whatever the listing holds, a database survives \<open>prune_worktree_dbs\<close> unless
  it is \<open><base>_wt_<slug>\<close> for a slug that is not live; in particular the base database does.
\<close>

theorem prune_keeps_others:
  assumes "drops_only_named srv dbs" and "extract_db_url_parts url = Some (pre, base_db, suf)"
    and "d \<in> dbs p" and "\<forall>slug. d = base_db @ wt_infix @ slug \<longrightarrow> slug \<in> live_worktree_slugs porcelain"
  shows "d \<in> dbs (snd (prune_worktree_dbs srv porcelain url dry_run p))"
proof (cases "srv_databases srv p")
  case None
  then show ?thesis using assms by (simp add: prune_worktree_dbs_def Let_def)
next
  case (Some l)
  let ?o = "orphaned_worktree_dbs l base_db (live_worktree_slugs porcelain)"
  have "\<forall>n \<in> set l. length n \<le> 63"
    using assms(1) Some unfolding drops_only_named_def by blast
  then have "\<forall>(n, s) \<in> set ?o. length n \<le> 63 \<and> n \<noteq> d"
    using assms(4) by (auto simp: orphaned_worktree_dbs_iff)
  then have "d \<in> dbs (snd (drop_orphans srv (pre @ ''postgres'' @ suf) ?o p))"
    by (rule drop_orphans_keeps [OF assms(1,3)])
  moreover obtain r p' where "drop_orphans srv (pre @ ''postgres'' @ suf) ?o p = (r, p')" by force
  ultimately show ?thesis
    using assms(2,3) Some by (cases r) (simp_all add: prune_worktree_dbs_def Let_def)
qed

theorem prune_keeps_others_witness:
  "''epistl'' \<in> set (snd (prune_worktree_dbs sample_server [] ''postgres://h/epistl'' False
                         [''epistl'', ''epistl_wt_a'']))"
  by (rule prune_keeps_others [OF sample_server_drops, where pre = "''postgres://h/''" and
        base_db = "''epistl''" and suf = "[]"]) (code_simp, simp, simp add: wt_infix_def)

text \<open>
  \<open>drop_worktree_db\<close> removes nothing but the derived database, and nothing at all without a
  slug. The base database survives if its name is shorter than 63 bytes.
\<close>

theorem drop_keeps_base:
  assumes "drops_only_named srv dbs" and "extract_db_url_parts url = Some (pre, base_db, suf)"
    and "length base_db < 63" and "base_db \<in> dbs p"
  shows "base_db \<in> dbs (snd (drop_worktree_db srv h url p)) \<and>
         (worktree_slug h = None \<longrightarrow> drop_worktree_db srv h url p = (Inl NoWorktreeSlug, p))"
proof (cases "worktree_slug h")
  case None
  then show ?thesis using assms(4) by (simp add: drop_worktree_db_def drop_worktree_db_for_slug_def)
next
  case (Some slug)
  have d: "derive_db_name base_db slug = Some (derived_name base_db slug)"
    using worktree_slug_chars [OF Some] by (rule derive_db_name_slug)
  have "length base_db < length (take 63 (derived_name base_db slug))"
    using assms(3) by (simp add: length_derived_name)
  then have n: "take 63 (derived_name base_db slug) \<noteq> base_db" by (metis less_irrefl)
  let ?maint = "pre @ ''postgres'' @ suf"
  obtain a p' where e: "srv_exec srv ?maint (drop_database_sql (derived_name base_db slug)) p = (a, p')"
    by force
  have "base_db \<in> dbs (snd (srv_exec srv ?maint (drop_database_sql (derived_name base_db slug)) p))"
    using assms(1,4) n by (simp add: drops_only_named_def)
  with e have "base_db \<in> dbs p'" by simp
  then show ?thesis
    using Some assms(2,4) d e
    by (cases a) (simp_all add: drop_worktree_db_def drop_worktree_db_for_slug_def Let_def)
qed

theorem drop_keeps_base_witness:
  "''epistl'' \<in> set (snd (drop_worktree_db sample_server sample_host ''postgres://h/epistl'' [''epistl'', ''epistl_wt_a_1'']))"
  by (rule drop_keeps_base [OF sample_server_drops, where pre = "''postgres://h/''" and
        suf = "[]", THEN conjunct1]) (code_simp, simp, simp)

text \<open>
  The guard of the drop compares the untruncated name with the base name, which are never
  equal. With a base name of exactly 63 bytes the name in the \<open>DROP DATABASE\<close> statement, once
  Postgres has cut it to 63 bytes, is the base name itself, for every slug.
\<close>

theorem drop_targets_base_of_63:
  assumes "length base_db = 63" and "worktree_slug h = Some slug"
  shows "\<exists>name. derive_db_name base_db slug = Some name \<and> name \<noteq> base_db \<and>
           take MAX_PG_IDENTIFIER_LEN name = base_db"
  using assms derive_db_name_slug [OF worktree_slug_chars [OF assms(2)], of base_db]
  by (simp add: MAX_PG_IDENTIFIER_LEN_def)
     (simp add: derived_name_def)

theorem drop_targets_base_of_63_witness:
  "\<exists>name. derive_db_name (replicate 63 (CHR ''b'')) ''a_1'' = Some name \<and>
     name \<noteq> replicate 63 (CHR ''b'') \<and> take MAX_PG_IDENTIFIER_LEN name = replicate 63 (CHR ''b'')"
  by (rule drop_targets_base_of_63 [OF _ sample_host_slug]) simp



text \<open>
  The matching of subjects by NATS for filters without \<open>>\<close>: token by token, \<open>*\<close>
  standing for one token.
\<close>

definition nats_wildcard :: "(string \<Rightarrow> string \<Rightarrow> bool) \<Rightarrow> bool" where
  "nats_wildcard matches \<longleftrightarrow>
     (\<forall>f s. ''>'' \<notin> set (split_on (CHR ''.'') f) \<longrightarrow>
        matches f s =
          list_all2 (\<lambda>p t. p = ''*'' \<or> p = t) (split_on (CHR ''.'') f) (split_on (CHR ''.'') s))"

lemma slug_char_not: "list_all slug_char s \<Longrightarrow> \<not> slug_char c \<Longrightarrow> c \<notin> set s"
  by (auto simp: list_all_iff)

lemma slug_tokens:
  assumes "worktree_slug h = Some slug"
  shows "CHR ''.'' \<notin> set slug" and "slug \<noteq> ''*''" and "slug \<noteq> ''>''"
proof -
  have c: "list_all slug_char slug" using assms by (rule worktree_slug_chars)
  have n: "\<not> slug_char (CHR ''.'')" "\<not> slug_char (CHR ''*'')" "\<not> slug_char (CHR ''>'')"
    by (simp_all add: slug_char_def is_ascii_lowercase_def is_ascii_digit_def byte_def)
  show "CHR ''.'' \<notin> set slug" using slug_char_not [OF c n(1)] .
  show "slug \<noteq> ''*''" using slug_char_not [OF c n(2)] by auto
  show "slug \<noteq> ''>''" using slug_char_not [OF c n(3)] by auto
qed

lemma filter_tokens:
  "map (split_on (CHR ''.'')) (effective_stream_subjects h) =
     [''epistl'' # ''offline'' # (case worktree_slug h of None \<Rightarrow> [] | Some slug \<Rightarrow> [slug]) @ [''*'']]"
proof (cases "worktree_slug h")
  case None
  then show ?thesis by (simp add: effective_stream_subjects_def OFFLINE_STREAM_SUBJECTS_def)
next
  case (Some slug)
  have "CHR ''.'' \<notin> set slug" by (rule slug_tokens(1) [OF Some])
  then show ?thesis using Some by (simp add: effective_stream_subjects_def split_on_Cons)
qed

lemma subject_tokens:
  assumes "CHR ''.'' \<notin> set (show_uuid u)"
  shows "split_on (CHR ''.'') (effective_offline_subject show_uuid h u) =
     ''epistl'' # ''offline'' # (case worktree_slug h of None \<Rightarrow> [] | Some slug \<Rightarrow> [slug]) @ [show_uuid u]"
proof (cases "worktree_slug h")
  case None
  then show ?thesis
    using assms by (simp add: effective_offline_subject_def offline_subject_def split_on_free)
next
  case (Some slug)
  have "CHR ''.'' \<notin> set slug" by (rule slug_tokens(1) [OF Some])
  then show ?thesis
    using Some assms by (simp add: effective_offline_subject_def split_on_Cons split_on_free)
qed

text \<open>
  The subject a message is published on is captured by the stream of the same worktree (or of
  the primary checkout) and of no other: for two processes, the stream filter of one matches the
  offline subject of the other exactly when their slugs agree. \<open>matches\<close> is NATS's matching of a
  filter without \<open>>\<close>: token by token, \<open>*\<close> standing for one token.
\<close>

theorem subjects_isolated:
  assumes "nats_wildcard matches" and "CHR ''.'' \<notin> set (show_uuid u)"
  shows "list_ex (\<lambda>f. matches f (effective_offline_subject show_uuid h2 u)) (effective_stream_subjects h1)
           = (worktree_slug h1 = worktree_slug h2)"
proof -
  obtain f where f: "effective_stream_subjects h1 = [f]"
    by (cases "worktree_slug h1") (auto simp: effective_stream_subjects_def)
  then have t: "split_on (CHR ''.'') f =
      ''epistl'' # ''offline'' # (case worktree_slug h1 of None \<Rightarrow> [] | Some slug \<Rightarrow> [slug]) @ [''*'']"
    using filter_tokens [of h1] by simp
  then have "''>'' \<notin> set (split_on (CHR ''.'') f)"
    using slug_tokens(3) [of h1] by (auto split: option.splits)
  then have "matches f (effective_offline_subject show_uuid h2 u) =
      list_all2 (\<lambda>p t. p = ''*'' \<or> p = t) (split_on (CHR ''.'') f)
        (split_on (CHR ''.'') (effective_offline_subject show_uuid h2 u))"
    using assms(1) by (simp add: nats_wildcard_def)
  also have "\<dots> = (worktree_slug h1 = worktree_slug h2)"
    using slug_tokens(2) [of h1] by (auto simp: t subject_tokens [where show_uuid = show_uuid and u = u, OF assms(2)] split: option.splits)
  finally show ?thesis by (simp add: f)
qed

theorem subjects_isolated_witness:
  "list_ex (\<lambda>f. list_all2 (\<lambda>p t. p = ''*'' \<or> p = t) (split_on (CHR ''.'') f)
                  (split_on (CHR ''.'') (effective_offline_subject (\<lambda>_. ''u1'') sample_host (Uuid 1))))
     (effective_stream_subjects sample_host) = (worktree_slug sample_host = worktree_slug sample_host)"
  by (rule subjects_isolated [where show_uuid = "\<lambda>_. ''u1''"]) (simp_all add: nats_wildcard_def)

end
