(* ===== verification/Api_Database.thy ===== *)
theory Api_Database
  imports Epistl_Prelude
begin

text \<open>
  The Postgres database: the tables that \<open>apps/api/migrations\<close> create, as records of rows in
  insertion order, the constraints the migrations declare (with the two invariants the handlers
  add: nobody is their own contact or sends themselves a request), and how a handler's
  statements run: each as a transaction of its own, or several inside one, over a connection that
  may fail, with other sessions committing in between.
\<close>

section \<open>Tables\<close>

record user_row =
  u_id :: uuid
  u_email :: string
  u_email_verified :: bool
  u_name :: "string option"
  u_image :: "string option"
  u_username :: string
  u_display_username :: "string option"
  u_created_at :: timestamp
  u_updated_at :: timestamp

record session_row =
  s_id :: uuid
  s_user_id :: uuid
  s_token :: string
  s_expires_at :: timestamp
  s_ip_address :: "string option"
  s_user_agent :: "string option"
  s_active :: bool
  s_created_at :: timestamp
  s_updated_at :: timestamp

record account_row =
  a_id :: uuid
  a_account_id :: string
  a_provider_id :: string
  a_user_id :: uuid
  a_access_token :: "string option"
  a_refresh_token :: "string option"
  a_id_token :: "string option"
  a_access_token_expires_at :: "timestamp option"
  a_refresh_token_expires_at :: "timestamp option"
  a_scope :: "string option"
  a_password :: "string option"
  a_created_at :: timestamp
  a_updated_at :: timestamp

record contact_row =
  c_id :: uuid
  c_owner :: uuid
  c_contact :: uuid
  c_created_at :: timestamp

record request_row =
  r_id :: uuid
  r_requester :: uuid
  r_recipient :: uuid
  r_status :: string
  r_created_at :: timestamp
  r_responded_at :: "timestamp option"

record key_row =
  k_user :: uuid
  k_x25519 :: string
  k_kyber :: string
  k_dilithium :: string
  k_signature :: string
  k_created_at :: timestamp
  k_updated_at :: timestamp

record push_row =
  p_id :: uuid
  p_user :: uuid
  p_token :: string
  p_created_at :: timestamp

record database =
  users :: "user_row list"
  sessions :: "session_row list"
  accounts :: "account_row list"
  contacts :: "contact_row list"
  requests :: "request_row list"
  user_keys :: "key_row list"
  push_tokens :: "push_row list"

definition pending :: "request_row \<Rightarrow> bool" where
  "pending r \<longleftrightarrow> r_status r = ''pending''"

definition contact_pair :: "contact_row \<Rightarrow> uuid \<times> uuid" where
  "contact_pair c = (c_owner c, c_contact c)"

definition request_pair :: "request_row \<Rightarrow> uuid \<times> uuid" where
  "request_pair r = (r_requester r, r_recipient r)"

definition user_ids :: "database \<Rightarrow> uuid set" where
  "user_ids db = u_id ` set (users db)"

section \<open>Constraints\<close>

definition users_ok :: "user_row list \<Rightarrow> bool" where
  "users_ok us \<longleftrightarrow>
     distinct (map u_id us) \<and> distinct (map u_email us) \<and> distinct (map u_username us)"

definition sessions_ok :: "uuid set \<Rightarrow> session_row list \<Rightarrow> bool" where
  "sessions_ok ids ss \<longleftrightarrow>
     distinct (map s_id ss) \<and> distinct (map s_token ss) \<and> (\<forall>s \<in> set ss. s_user_id s \<in> ids)"

definition accounts_ok :: "uuid set \<Rightarrow> account_row list \<Rightarrow> bool" where
  "accounts_ok ids acs \<longleftrightarrow>
     distinct (map a_id acs) \<and> distinct (map (\<lambda>a. (a_provider_id a, a_account_id a)) acs) \<and>
     (\<forall>a \<in> set acs. a_user_id a \<in> ids)"

definition contacts_ok :: "uuid set \<Rightarrow> contact_row list \<Rightarrow> bool" where
  "contacts_ok ids cs \<longleftrightarrow>
     distinct (map c_id cs) \<and> distinct (map contact_pair cs) \<and>
     (\<forall>c \<in> set cs. c_owner c \<in> ids \<and> c_contact c \<in> ids \<and> c_owner c \<noteq> c_contact c)"

definition requests_ok :: "uuid set \<Rightarrow> request_row list \<Rightarrow> bool" where
  "requests_ok ids rs \<longleftrightarrow>
     distinct (map r_id rs) \<and> distinct (map request_pair (filter pending rs)) \<and>
     (\<forall>r \<in> set rs. r_requester r \<in> ids \<and> r_recipient r \<in> ids \<and> r_requester r \<noteq> r_recipient r \<and>
        (r_status r = ''pending'' \<or> r_status r = ''declined''))"

definition keys_ok :: "uuid set \<Rightarrow> key_row list \<Rightarrow> bool" where
  "keys_ok ids ks \<longleftrightarrow>
     distinct (map k_user ks) \<and>
     (\<forall>k \<in> set ks. k_user k \<in> ids \<and> length (k_x25519 k) = 32 \<and> length (k_kyber k) = 1184 \<and>
        length (k_dilithium k) = 1952 \<and> length (k_signature k) = 3309)"

definition pushes_ok :: "uuid set \<Rightarrow> push_row list \<Rightarrow> bool" where
  "pushes_ok ids ps \<longleftrightarrow>
     distinct (map p_id ps) \<and> distinct (map p_token ps) \<and>
     (\<forall>p \<in> set ps. p_user p \<in> ids \<and> p_token p \<noteq> [])"

definition db_wf :: "database \<Rightarrow> bool" where
  "db_wf db \<longleftrightarrow>
     users_ok (users db) \<and> sessions_ok (user_ids db) (sessions db) \<and>
     accounts_ok (user_ids db) (accounts db) \<and> contacts_ok (user_ids db) (contacts db) \<and>
     requests_ok (user_ids db) (requests db) \<and> keys_ok (user_ids db) (user_keys db) \<and>
     pushes_ok (user_ids db) (push_tokens db)"

lemma db_wfD:
  "db_wf db \<Longrightarrow> users_ok (users db)"
  "db_wf db \<Longrightarrow> contacts_ok (user_ids db) (contacts db)"
  "db_wf db \<Longrightarrow> requests_ok (user_ids db) (requests db)"
  "db_wf db \<Longrightarrow> keys_ok (user_ids db) (user_keys db)"
  "db_wf db \<Longrightarrow> pushes_ok (user_ids db) (push_tokens db)"
  by (simp_all add: db_wf_def)

lemma user_ids_frame [simp]:
  "user_ids (db\<lparr>sessions := a\<rparr>) = user_ids db"
  "user_ids (db\<lparr>accounts := b\<rparr>) = user_ids db"
  "user_ids (db\<lparr>contacts := c\<rparr>) = user_ids db"
  "user_ids (db\<lparr>requests := d\<rparr>) = user_ids db"
  "user_ids (db\<lparr>user_keys := e\<rparr>) = user_ids db"
  "user_ids (db\<lparr>push_tokens := f\<rparr>) = user_ids db"
  by (simp_all add: user_ids_def)

text \<open>Removing rows keeps every table's constraints.\<close>

lemma contacts_ok_filter: "contacts_ok ids cs \<Longrightarrow> contacts_ok ids (filter P cs)"
  by (auto simp: contacts_ok_def distinct_map_filter)

lemma requests_ok_filter: "requests_ok ids rs \<Longrightarrow> requests_ok ids (filter P rs)"
proof -
  assume a: "requests_ok ids rs"
  have "filter pending (filter P rs) = filter P (filter pending rs)"
    by (simp add: conj_commute)
  then show ?thesis using a by (auto simp: requests_ok_def distinct_map_filter simp del: filter_filter)
qed

lemma wf_filter_contacts [wf_intros]: "db_wf db \<Longrightarrow> db_wf (db\<lparr>contacts := filter P (contacts db)\<rparr>)"
  by (simp add: db_wf_def contacts_ok_filter)

lemma wf_filter_requests [wf_intros]: "db_wf db \<Longrightarrow> db_wf (db\<lparr>requests := filter P (requests db)\<rparr>)"
  by (simp add: db_wf_def requests_ok_filter)

section \<open>Deleting a user\<close>

text \<open>
  \<open>DELETE FROM users WHERE id = $1\<close>: every other table references \<open>users(id)\<close> with
  \<open>ON DELETE CASCADE\<close>, contacts and requests with both of their user columns.
\<close>

definition delete_user :: "uuid \<Rightarrow> database \<Rightarrow> database" where
  "delete_user uid db =
     \<lparr>users = filter (\<lambda>u. u_id u \<noteq> uid) (users db),
      sessions = filter (\<lambda>s. s_user_id s \<noteq> uid) (sessions db),
      accounts = filter (\<lambda>a. a_user_id a \<noteq> uid) (accounts db),
      contacts = filter (\<lambda>c. c_owner c \<noteq> uid \<and> c_contact c \<noteq> uid) (contacts db),
      requests = filter (\<lambda>r. r_requester r \<noteq> uid \<and> r_recipient r \<noteq> uid) (requests db),
      user_keys = filter (\<lambda>k. k_user k \<noteq> uid) (user_keys db),
      push_tokens = filter (\<lambda>p. p_user p \<noteq> uid) (push_tokens db)\<rparr>"

lemma user_ids_delete_user: "user_ids (delete_user uid db) = user_ids db - {uid}"
  by (auto simp: user_ids_def delete_user_def)

lemma wf_delete_user [wf_intros]:
  assumes "db_wf db"
  shows "db_wf (delete_user uid db)"
proof -
  have "users_ok (users (delete_user uid db))"
    using assms by (simp add: db_wf_def users_ok_def delete_user_def distinct_map_filter)
  moreover have "sessions_ok (user_ids db - {uid}) (sessions (delete_user uid db))"
    and "accounts_ok (user_ids db - {uid}) (accounts (delete_user uid db))"
    and "contacts_ok (user_ids db - {uid}) (contacts (delete_user uid db))"
    and "keys_ok (user_ids db - {uid}) (user_keys (delete_user uid db))"
    and "pushes_ok (user_ids db - {uid}) (push_tokens (delete_user uid db))"
    using assms
    by (auto simp: db_wf_def sessions_ok_def accounts_ok_def contacts_ok_def keys_ok_def pushes_ok_def
        delete_user_def distinct_map_filter)
  moreover have "requests_ok (user_ids db - {uid}) (requests (delete_user uid db))"
    using requests_ok_filter [OF db_wfD(3) [OF assms],
        of "\<lambda>r. r_requester r \<noteq> uid \<and> r_recipient r \<noteq> uid"]
    by (auto simp: requests_ok_def delete_user_def)
  ultimately show ?thesis by (simp add: db_wf_def user_ids_delete_user)
qed

section \<open>Row writes\<close>

text \<open>
  What a statement writes, row by row. An \<open>Ins\<close> appends a row, a \<open>Put\<close> replaces the row with the
  same primary key, a \<open>Del\<close> removes by primary key; \<open>DelUser\<close> cascades.
\<close>

datatype row_write =
    InsContact contact_row
  | DelContact uuid
  | InsRequest request_row
  | PutRequest request_row
  | DelRequest uuid
  | PutUser user_row
  | DelUser uuid
  | InsKeys key_row
  | PutKeys key_row
  | InsPush push_row
  | PutPush push_row

fun apply_write :: "row_write \<Rightarrow> database \<Rightarrow> database" where
  "apply_write (InsContact c) db = db\<lparr>contacts := contacts db @ [c]\<rparr>"
| "apply_write (DelContact i) db = db\<lparr>contacts := filter (\<lambda>c. c_id c \<noteq> i) (contacts db)\<rparr>"
| "apply_write (InsRequest r) db = db\<lparr>requests := requests db @ [r]\<rparr>"
| "apply_write (PutRequest r) db =
     db\<lparr>requests := map (\<lambda>x. if r_id x = r_id r then r else x) (requests db)\<rparr>"
| "apply_write (DelRequest i) db = db\<lparr>requests := filter (\<lambda>r. r_id r \<noteq> i) (requests db)\<rparr>"
| "apply_write (PutUser u) db = db\<lparr>users := map (\<lambda>x. if u_id x = u_id u then u else x) (users db)\<rparr>"
| "apply_write (DelUser i) db = delete_user i db"
| "apply_write (InsKeys k) db = db\<lparr>user_keys := user_keys db @ [k]\<rparr>"
| "apply_write (PutKeys k) db =
     db\<lparr>user_keys := map (\<lambda>x. if k_user x = k_user k then k else x) (user_keys db)\<rparr>"
| "apply_write (InsPush p) db = db\<lparr>push_tokens := push_tokens db @ [p]\<rparr>"
| "apply_write (PutPush p) db =
     db\<lparr>push_tokens := map (\<lambda>x. if p_id x = p_id p then p else x) (push_tokens db)\<rparr>"

definition apply_writes :: "row_write list \<Rightarrow> database \<Rightarrow> database" where
  "apply_writes ws db = foldl (\<lambda>d w. apply_write w d) db ws"

lemma apply_writes_simps [simp]:
  "apply_writes [] db = db"
  "apply_writes (w # ws) db = apply_writes ws (apply_write w db)"
  "apply_writes (ws @ vs) db = apply_writes vs (apply_writes ws db)"
  by (simp_all add: apply_writes_def)

lemma apply_del_contacts:
  "apply_writes (map DelContact is) db = db\<lparr>contacts := filter (\<lambda>c. c_id c \<notin> set is) (contacts db)\<rparr>"
proof (induction "is" arbitrary: db)
  case (Cons i "is")
  then show ?case by (simp add: Cons.IH)
qed simp

lemma apply_del_requests:
  "apply_writes (map DelRequest is) db = db\<lparr>requests := filter (\<lambda>r. r_id r \<notin> set is) (requests db)\<rparr>"
proof (induction "is" arbitrary: db)
  case (Cons i "is")
  then show ?case by (simp add: Cons.IH)
qed simp

text \<open>Replacing the one row with an identifier by a changed copy changes that row in place.\<close>

lemma put_modified_user:
  assumes "distinct (map u_id us)" and "u \<in> set us" and "u_id u = uid"
  shows "map (\<lambda>x. if u_id x = uid then f u else x) us = map (\<lambda>x. if u_id x = uid then f x else x) us"
proof (intro map_cong refl)
  fix x assume "x \<in> set us"
  then show "(if u_id x = uid then f u else x) = (if u_id x = uid then f x else x)"
    using distinct_map_inj [OF assms(1) _ assms(2), of x] assms(3) by auto
qed

section \<open>Running statements\<close>

text \<open>
  A round trip to the server succeeds, is lost before the server acts, or is lost after it acted.
  Between the statements of a request other sessions may commit: \<open>peers i ws\<close> is what they did to
  the committed database since the last statement, before the request's \<open>i\<close>-th, while the request
  held the row locks of its uncommitted writes \<open>ws\<close>. \<open>gen_id\<close> is \<open>gen_random_uuid()\<close> and \<open>clock i\<close>
  the value of \<open>now()\<close> in the \<open>i\<close>-th statement (of a transaction: in its first one).
\<close>

datatype link = Up | LostBefore | LostAfter

datatype sql_error = Unavailable | UniqueViolation string | ForeignKeyViolation

record dbenv =
  net :: "nat \<Rightarrow> link"
  peers :: "nat \<Rightarrow> row_write list \<Rightarrow> database \<Rightarrow> database"
  gen_id :: "database \<Rightarrow> uuid"
  clock :: "nat \<Rightarrow> timestamp"

text \<open>A statement answers an error or a value, with the rows it writes.\<close>

type_synonym 'a statement = "database \<Rightarrow> (sql_error + 'a) \<times> row_write list"

definition row_ids :: "database \<Rightarrow> uuid set" where
  "row_ids db = c_id ` set (contacts db) \<union> r_id ` set (requests db) \<union> p_id ` set (push_tokens db)"

text \<open>A random UUID is one that no row has.\<close>

definition fresh_ids :: "dbenv \<Rightarrow> bool" where
  "fresh_ids e \<longleftrightarrow> (\<forall>db. gen_id e db \<notin> row_ids db)"

text \<open>
  What Postgres guarantees of the others: their commits keep the constraints, also together with
  the rows a transaction has written and not committed (a session that would violate them waits
  for the lock).
\<close>

definition peers_ok :: "dbenv \<Rightarrow> bool" where
  "peers_ok e \<longleftrightarrow>
     (\<forall>i ws db. db_wf db \<and> db_wf (apply_writes ws db) \<longrightarrow>
        db_wf (peers e i ws db) \<and> db_wf (apply_writes ws (peers e i ws db)))"

text \<open>Nobody else is there; and, in addition, nothing goes wrong.\<close>

definition alone :: "dbenv \<Rightarrow> bool" where
  "alone e \<longleftrightarrow> (\<forall>i ws db. peers e i ws db = db)"

definition calm :: "dbenv \<Rightarrow> bool" where
  "calm e \<longleftrightarrow> alone e \<and> (\<forall>i. net e i = Up)"

text \<open>A statement outside a transaction commits on its own.\<close>

definition autocommit :: "dbenv \<Rightarrow> nat \<Rightarrow> 'a statement \<Rightarrow> database \<Rightarrow> (sql_error + 'a) \<times> database" where
  "autocommit e i st db =
     (let db1 = peers e i [] db
      in case net e i of
           Up \<Rightarrow> (fst (st db1), apply_writes (snd (st db1)) db1)
         | LostBefore \<Rightarrow> (Inl Unavailable, db1)
         | LostAfter \<Rightarrow> (Inl Unavailable, apply_writes (snd (st db1)) db1))"

text \<open>
  Inside a transaction (isolation \<open>READ COMMITTED\<close>, Postgres's default) a statement sees what is
  committed at that moment with the transaction's own writes on top. The state is the committed
  database and the writes so far; a lost connection rolls back.
\<close>

type_synonym tx = "database \<times> row_write list"

definition begin_tx :: "dbenv \<Rightarrow> nat \<Rightarrow> database \<Rightarrow> (sql_error + unit) \<times> tx" where
  "begin_tx e i db =
     (let db1 = peers e i [] db
      in (if net e i = Up then Inr () else Inl Unavailable, db1, []))"

definition in_tx :: "dbenv \<Rightarrow> nat \<Rightarrow> 'a statement \<Rightarrow> tx \<Rightarrow> (sql_error + 'a) \<times> tx" where
  "in_tx e i st t =
     (let ws = snd t; db1 = peers e i ws (fst t); (r, vs) = st (apply_writes ws db1)
      in if net e i = Up then (r, db1, ws @ vs) else (Inl Unavailable, db1, ws))"

text \<open>\<open>LostAfter\<close>: the commit took effect, the client only saw an error.\<close>

definition commit_tx :: "dbenv \<Rightarrow> nat \<Rightarrow> tx \<Rightarrow> (sql_error + unit) \<times> database" where
  "commit_tx e i t =
     (let ws = snd t; db1 = peers e i ws (fst t)
      in case net e i of
           Up \<Rightarrow> (Inr (), apply_writes ws db1)
         | LostBefore \<Rightarrow> (Inl Unavailable, db1)
         | LostAfter \<Rightarrow> (Inl Unavailable, apply_writes ws db1))"

text \<open>A read writes nothing.\<close>

definition query :: "(database \<Rightarrow> 'a) \<Rightarrow> 'a statement" where
  "query f db = (Inr (f db), [])"

lemma query_simps [simp]: "fst (query f db) = Inr (f db)" "snd (query f db) = []"
  by (simp_all add: query_def)

lemma calm_alone: "calm e \<Longrightarrow> alone e"
  by (simp add: calm_def)

lemma calm_simps:
  assumes "calm e"
  shows "autocommit e i st db = (fst (st db), apply_writes (snd (st db)) db)"
    "begin_tx e i db = (Inr (), db, [])"
    "in_tx e i st (d, ws) = (fst (st (apply_writes ws d)), d, ws @ snd (st (apply_writes ws d)))"
    "commit_tx e i (d, ws) = (Inr (), apply_writes ws d)"
  using assms
  by (simp_all add: calm_def alone_def autocommit_def begin_tx_def in_tx_def commit_tx_def Let_def
      split: prod.splits)

text \<open>A statement that keeps the database well formed does so however the round trip ends.\<close>

definition wf_statement :: "'a statement \<Rightarrow> bool" where
  "wf_statement st \<longleftrightarrow> (\<forall>db. db_wf db \<longrightarrow> db_wf (apply_writes (snd (st db)) db))"

lemma wf_statementD: "wf_statement st \<Longrightarrow> db_wf db \<Longrightarrow> db_wf (apply_writes (snd (st db)) db)"
  by (simp add: wf_statement_def)

lemma wf_query [wf_intros]: "wf_statement (query f)"
  by (simp add: wf_statement_def)

lemma peers_okD:
  "peers_ok e \<Longrightarrow> db_wf db \<Longrightarrow> db_wf (apply_writes ws db) \<Longrightarrow> db_wf (peers e i ws db)"
  "peers_ok e \<Longrightarrow> db_wf db \<Longrightarrow> db_wf (apply_writes ws db) \<Longrightarrow> db_wf (apply_writes ws (peers e i ws db))"
  by (simp_all add: peers_ok_def)

lemma peers_ok_none: "peers_ok e \<Longrightarrow> db_wf db \<Longrightarrow> db_wf (peers e i [] db)"
  using peers_okD(1) [of e db "[]" i] by simp

lemma wf_autocommit:
  "wf_statement st \<Longrightarrow> peers_ok e \<Longrightarrow> db_wf db \<Longrightarrow> db_wf (snd (autocommit e i st db))"
  by (simp add: autocommit_def Let_def wf_statementD peers_ok_none split: link.splits)

definition wf_tx :: "tx \<Rightarrow> bool" where
  "wf_tx t \<longleftrightarrow> db_wf (fst t) \<and> db_wf (apply_writes (snd t) (fst t))"

lemma wf_begin_tx: "peers_ok e \<Longrightarrow> db_wf db \<Longrightarrow> wf_tx (snd (begin_tx e i db))"
  by (simp add: begin_tx_def wf_tx_def Let_def peers_ok_none)

lemma wf_in_tx: "wf_statement st \<Longrightarrow> peers_ok e \<Longrightarrow> wf_tx t \<Longrightarrow> wf_tx (snd (in_tx e i st t))"
proof -
  assume st: "wf_statement st" and p: "peers_ok e" and t: "wf_tx t"
  have "db_wf (peers e i (snd t) (fst t))" "db_wf (apply_writes (snd t) (peers e i (snd t) (fst t)))"
    using t p by (auto simp: wf_tx_def intro: peers_okD)
  then show ?thesis
    using wf_statementD [OF st] by (auto simp: in_tx_def wf_tx_def Let_def split: prod.splits) (metis snd_conv)
qed

lemma wf_commit_tx: "peers_ok e \<Longrightarrow> wf_tx t \<Longrightarrow> db_wf (snd (commit_tx e i t))"
  by (auto simp: commit_tx_def wf_tx_def Let_def peers_okD split: link.splits)

section \<open>Ordering\<close>

text \<open>
  \<open>ORDER BY created_at ASC\<close>: a stable insertion sort, so that rows with equal keys keep the order
  in which they were inserted (Postgres leaves that order open).
\<close>

fun insert_by :: "('a \<Rightarrow> 'k::linorder) \<Rightarrow> 'a \<Rightarrow> 'a list \<Rightarrow> 'a list" where
  "insert_by f x [] = [x]"
| "insert_by f x (y # ys) = (if f x < f y then x # y # ys else y # insert_by f x ys)"

definition order_by :: "('a \<Rightarrow> 'k::linorder) \<Rightarrow> 'a list \<Rightarrow> 'a list" where
  "order_by f xs = foldl (\<lambda>acc x. insert_by f x acc) [] xs"

lemma set_insert_by [simp]: "set (insert_by f x ys) = insert x (set ys)"
  by (induction ys) auto

lemma length_insert_by [simp]: "length (insert_by f x ys) = Suc (length ys)"
  by (induction ys) auto

lemma sorted_insert_by: "sorted (map f ys) \<Longrightarrow> sorted (map f (insert_by f x ys))"
  by (induction ys) auto

lemma order_by_snoc: "order_by f (xs @ [x]) = insert_by f x (order_by f xs)"
  by (simp add: order_by_def)

lemma set_order_by [simp]: "set (order_by f xs) = set xs"
  by (induction xs rule: rev_induct) (simp_all add: order_by_snoc, simp add: order_by_def)

lemma length_order_by [simp]: "length (order_by f xs) = length xs"
  by (induction xs rule: rev_induct) (simp_all add: order_by_snoc, simp add: order_by_def)

lemma sorted_order_by: "sorted (map f (order_by f xs))"
  by (induction xs rule: rev_induct) (simp_all add: order_by_snoc sorted_insert_by, simp add: order_by_def)

end
