(* ===== verification/Api_Library.thy ===== *)
theory Api_Library
  imports Epistl_Prelude
begin

text \<open>
  The crates the API calls, as one record of functions that every handler takes: the JSON text of
  \<open>serde_json\<close>, the textual forms of \<open>uuid\<close> and \<open>chrono\<close>, the \<open>base64\<close> engine, the username rules
  of \<open>better_auth_core\<close>, Unicode lower-casing and Postgres's \<open>lower\<close>. Nothing is assumed of them
  here; a property that rests on one of their documented laws names it. \<open>sample_lib\<close> is a concrete
  instance for the witnesses.
\<close>

record lib =
  show_json :: "json \<Rightarrow> string"
  parse_json :: "string \<Rightarrow> json option"
  show_uuid :: "uuid \<Rightarrow> string"
  parse_uuid :: "string \<Rightarrow> uuid option"
  base64_encode :: "string \<Rightarrow> string"
  base64_decode :: "string \<Rightarrow> string option"
  show_time :: "timestamp \<Rightarrow> string"
  show_rfc3339 :: "timestamp \<Rightarrow> string"
  to_lowercase :: "string \<Rightarrow> string"
  sql_lower :: "string \<Rightarrow> string"
  validate_username :: "string \<Rightarrow> bool"
  normalize_username :: "string \<Rightarrow> string"

abbreviation json_uuid :: "lib \<Rightarrow> uuid \<Rightarrow> json" where
  "json_uuid L u \<equiv> JStr (show_uuid L u)"

abbreviation json_time :: "lib \<Rightarrow> timestamp \<Rightarrow> json" where
  "json_time L t \<equiv> JStr (show_time L t)"

section \<open>A concrete instance\<close>

text \<open>
  A readable stand-in for JSON text: an object is the sequence of its fields, a string has a dot
  before each character and ends with an exclamation mark.
\<close>

fun enc_str :: "string \<Rightarrow> string" where
  "enc_str [] = ''!''"
| "enc_str (c # s) = CHR ''.'' # c # enc_str s"

fun dec_str :: "string \<Rightarrow> (string \<times> string) option" where
  "dec_str [] = None"
| "dec_str [a] = (if a = CHR ''!'' then Some ([], []) else None)"
| "dec_str (a # b # r) =
     (if a = CHR ''!'' then Some ([], b # r)
      else map_option (\<lambda>(s, t). (b # s, t)) (dec_str r))"

fun enc_field :: "string \<times> json \<Rightarrow> string" where
  "enc_field (k, JStr s) = enc_str k @ ''s'' @ enc_str s"
| "enc_field (k, _) = enc_str k @ ''n''"

fun dec_fields :: "nat \<Rightarrow> string \<Rightarrow> (string \<times> json) list option" where
  "dec_fields n [] = Some []"
| "dec_fields 0 s = None"
| "dec_fields (Suc n) s =
     (case dec_str s of
        None \<Rightarrow> None
      | Some (k, []) \<Rightarrow> None
      | Some (k, t # r) \<Rightarrow>
          if t = CHR ''s''
          then (case dec_str r of
                  None \<Rightarrow> None
                | Some (v, r') \<Rightarrow> map_option ((#) (k, JStr v)) (dec_fields n r'))
          else map_option ((#) (k, JNull)) (dec_fields n r))"

fun flat_field :: "string \<times> json \<Rightarrow> bool" where
  "flat_field (_, JStr _) = True"
| "flat_field (_, JNull) = True"
| "flat_field _ = False"

lemma dec_enc_str: "dec_str (enc_str s @ r) = Some (s, r)"
  by (induction s) (cases r, auto)

lemma enc_str_not_Nil [simp]: "enc_str s \<noteq> []"
  by (cases s) auto

lemma enc_field_not_Nil [simp]: "enc_field f \<noteq> []"
  by (cases f rule: enc_field.cases) auto

lemma dec_enc_fields:
  "list_all flat_field fs \<Longrightarrow> length fs \<le> n \<Longrightarrow> dec_fields n (concat (map enc_field fs)) = Some fs"
proof (induction fs arbitrary: n)
  case Nil
  then show ?case by (cases n) auto
next
  case (Cons f fs)
  from Cons.prems obtain m where n: "n = Suc m" and m: "length fs \<le> m" by (cases n) auto
  have ih: "dec_fields m (concat (map enc_field fs)) = Some fs"
    using Cons m by simp
  obtain k v where f: "f = (k, v)" by force
  with Cons.prems have "v = JNull \<or> (\<exists>s. v = JStr s)" by (cases v) auto
  moreover obtain c cs where "enc_str k = c # cs" by (cases "enc_str k") auto
  ultimately show ?case
    using ih f n dec_enc_str [of k] by (auto simp: dec_enc_str)
qed

definition sample_show :: "json \<Rightarrow> string" where
  "sample_show v = (case v of JObj fs \<Rightarrow> concat (map enc_field fs) | _ \<Rightarrow> ''?'')"

definition sample_parse :: "string \<Rightarrow> json option" where
  "sample_parse s = map_option JObj (dec_fields (length s) s)"

lemma length_concat_ge: "(\<forall>x \<in> set xs. f x \<noteq> []) \<Longrightarrow> length xs \<le> length (concat (map f xs))"
proof (induction xs)
  case (Cons x xs)
  then have "f x \<noteq> []" and "length xs \<le> length (concat (map f xs))" by auto
  then show ?case by (cases "f x") auto
qed simp

lemma sample_parse_show: "list_all flat_field fs \<Longrightarrow> sample_parse (sample_show (JObj fs)) = Some (JObj fs)"
  by (simp add: sample_parse_def sample_show_def dec_enc_fields length_concat_ge)

definition username_char :: "char \<Rightarrow> bool" where
  "username_char c \<longleftrightarrow> is_ascii_alphanumeric c \<or> c = CHR ''_'' \<or> c = CHR ''.''"

definition sample_lib :: lib where
  "sample_lib =
     \<lparr>show_json = sample_show,
      parse_json = sample_parse,
      show_uuid = (\<lambda>u. case u of Uuid n \<Rightarrow> replicate n (CHR ''1'')),
      parse_uuid = (\<lambda>s. if list_all (\<lambda>c. c = CHR ''1'') s then Some (Uuid (length s)) else None),
      base64_encode = (\<lambda>s. s),
      base64_decode = (\<lambda>s. if CHR ''?'' \<in> set s then None else Some s),
      show_time = (\<lambda>_. ''t''),
      show_rfc3339 = (\<lambda>_. ''r''),
      to_lowercase = to_ascii_lowercase,
      sql_lower = to_ascii_lowercase,
      validate_username = (\<lambda>s. 3 \<le> length s \<and> length s \<le> 30 \<and> list_all username_char s),
      normalize_username = to_ascii_lowercase\<rparr>"

end
