(* ===== verification/Api_Registry.thy ===== *)
theory Api_Registry
  imports Api_Library
begin

text \<open>
  The registry of live connections (\<open>apps/api/src/registry.rs\<close>) and the unbounded channels its
  senders belong to. A channel is identified by a number; \<open>same_channel\<close> compares identities.
\<close>

section \<open>Frames, channels and the registry\<close>

datatype frame =
    Text string
  | Close nat string

text \<open>A \<open>Sender\<close> is the identity of its channel.\<close>

type_synonym sender = nat

text \<open>
  The registry's map, the frames waiting in each channel, and whether a channel's receiver still
  exists: a send to a channel whose receiver was dropped fails.
\<close>

record live =
  registry :: "uuid \<Rightarrow> sender option"
  inbox :: "sender \<Rightarrow> frame list"
  receiving :: "sender \<Rightarrow> bool"

definition send_frame :: "sender \<Rightarrow> frame \<Rightarrow> live \<Rightarrow> bool \<times> live" where
  "send_frame tx f l =
     (if receiving l tx then (True, l\<lparr>inbox := (inbox l)(tx := inbox l tx @ [f])\<rparr>) else (False, l))"

definition registry_insert :: "uuid \<Rightarrow> sender \<Rightarrow> live \<Rightarrow> sender option \<times> live" where
  "registry_insert user_id tx l = (registry l user_id, l\<lparr>registry := (registry l)(user_id \<mapsto> tx)\<rparr>)"

definition registry_get :: "uuid \<Rightarrow> live \<Rightarrow> sender option" where
  "registry_get user_id l = registry l user_id"

definition registry_remove_if_current :: "uuid \<Rightarrow> sender \<Rightarrow> live \<Rightarrow> live" where
  "registry_remove_if_current user_id tx l =
     (case registry l user_id of
        Some existing \<Rightarrow> if existing = tx then l\<lparr>registry := (registry l)(user_id := None)\<rparr> else l
      | None \<Rightarrow> l)"

section \<open>What a registry promises\<close>

text \<open>
  The contract between the registry and its clients: \<open>insert\<close> answers the sender it replaces, a
  lookup finds what was inserted last, and a connection's cleanup removes an entry only while it
  is the connection's own.
\<close>

locale connection_registry =
  fixes insert_conn :: "'u \<Rightarrow> 's \<Rightarrow> 'r \<Rightarrow> 's option \<times> 'r"
    and lookup :: "'u \<Rightarrow> 'r \<Rightarrow> 's option"
    and cleanup :: "'u \<Rightarrow> 's \<Rightarrow> 'r \<Rightarrow> 'r"
  assumes insert_answers: "fst (insert_conn u s r) = lookup u r"
    and lookup_insert: "lookup v (snd (insert_conn u s r)) = (if v = u then Some s else lookup v r)"
    and lookup_cleanup: "lookup v (cleanup u s r) =
      (if v = u \<and> lookup u r = Some s then None else lookup v r)"
begin

text \<open>A connection that was replaced cleans up after itself only.\<close>

lemma stale_cleanup: "s \<noteq> s' \<Longrightarrow> lookup v (cleanup u s (snd (insert_conn u s' r))) = lookup v (snd (insert_conn u s' r))"
  by (simp add: lookup_cleanup lookup_insert)

lemma own_cleanup: "lookup u (cleanup u s (snd (insert_conn u s r))) = None"
  by (simp add: lookup_cleanup lookup_insert)

lemma cleanup_gone: "lookup u (cleanup u s r) \<noteq> Some s"
  by (simp add: lookup_cleanup)

lemma cleanup_other: "v \<noteq> u \<Longrightarrow> lookup v (cleanup u s r) = lookup v r"
  by (simp add: lookup_cleanup)

lemma cleanup_idem: "lookup v (cleanup u s (cleanup u s r)) = lookup v (cleanup u s r)"
  by (simp add: lookup_cleanup)

text \<open>Connect, be replaced, and only then shut down: the newer connection stays reachable.\<close>

lemma replaced_keeps_newer:
  assumes "s \<noteq> s'"
  shows "fst (insert_conn u s' (snd (insert_conn u s r))) = Some s"
    and "lookup u (cleanup u s (snd (insert_conn u s' (snd (insert_conn u s r))))) = Some s'"
  using assms by (simp_all add: insert_answers lookup_insert lookup_cleanup)

end

interpretation reg: connection_registry registry_insert registry_get registry_remove_if_current
  by unfold_locales
     (auto simp: registry_insert_def registry_get_def registry_remove_if_current_def split: option.splits)

section \<open>Sending\<close>

lemma send_frame_registry [simp]: "registry (snd (send_frame tx f l)) = registry l"
  by (simp add: send_frame_def)

lemma send_frame_receiving [simp]: "receiving (snd (send_frame tx f l)) = receiving l"
  by (simp add: send_frame_def)

lemma send_frame_ok [simp]: "fst (send_frame tx f l) = receiving l tx"
  by (simp add: send_frame_def)

lemma send_frame_inbox:
  "inbox (snd (send_frame tx f l)) c =
     (if c = tx \<and> receiving l tx then inbox l c @ [f] else inbox l c)"
  by (simp add: send_frame_def)

lemma registry_insert_frame [simp]:
  "inbox (snd (registry_insert u tx l)) = inbox l"
  "receiving (snd (registry_insert u tx l)) = receiving l"
  by (simp_all add: registry_insert_def)

lemma registry_cleanup_frame [simp]:
  "inbox (registry_remove_if_current u tx l) = inbox l"
  "receiving (registry_remove_if_current u tx l) = receiving l"
  by (simp_all add: registry_remove_if_current_def split: option.splits)

lemma registry_get_send [simp]: "registry_get u (snd (send_frame tx f l)) = registry_get u l"
  by (simp add: registry_get_def)

text \<open>
  \<open>push_frame\<close> of \<open>apps/api/src/contacts.rs\<close>: a best-effort JSON frame to whoever is connected.
\<close>

definition push_frame :: "lib \<Rightarrow> uuid \<Rightarrow> json \<Rightarrow> live \<Rightarrow> live" where
  "push_frame L user_id v l =
     (case registry_get user_id l of
        Some tx \<Rightarrow> snd (send_frame tx (Text (show_json L v)) l)
      | None \<Rightarrow> l)"

lemma push_frame_registry [simp]: "registry (push_frame L u v l) = registry l"
  by (simp add: push_frame_def split: option.splits)

text \<open>Only the channel registered for the addressee can receive the frame.\<close>

lemma push_frame_inbox:
  "inbox (push_frame L u v l) c =
     (if registry_get u l = Some c \<and> receiving l c then inbox l c @ [Text (show_json L v)] else inbox l c)"
  by (auto simp: push_frame_def send_frame_inbox split: option.splits)

end
