(* ===== verification/Api_Contacts.thy ===== *)
theory Api_Contacts
  imports Api_Database Api_Registry
begin

text \<open>
  Contacts and contact requests (\<open>apps/api/src/contacts.rs\<close>): the SQL statements of the module
  as functions on the tables, the eight handlers composed of them, and for every handler what it
  does to the database whatever the connection and the other sessions do.
\<close>

definition internal_error :: response where
  "internal_error = fail_with 500 ''internal_error''"

section \<open>Statements\<close>

definition user_by_email :: "string \<Rightarrow> database \<Rightarrow> (uuid \<times> string) option" where
  "user_by_email email db =
     map_option (\<lambda>u. (u_id u, u_email u)) (find (\<lambda>u. u_email u = email) (users db))"

definition user_by_username :: "string \<Rightarrow> database \<Rightarrow> (uuid \<times> string) option" where
  "user_by_username username db =
     map_option (\<lambda>u. (u_id u, u_email u)) (find (\<lambda>u. u_username u = username) (users db))"

definition has_contact :: "uuid \<Rightarrow> uuid \<Rightarrow> database \<Rightarrow> bool" where
  "has_contact owner contact db \<longleftrightarrow> list_ex (\<lambda>c. contact_pair c = (owner, contact)) (contacts db)"

definition pending_request :: "uuid \<Rightarrow> uuid \<Rightarrow> database \<Rightarrow> request_row option" where
  "pending_request requester recipient db =
     find (\<lambda>r. pending r \<and> request_pair r = (requester, recipient)) (requests db)"

definition request_by_id :: "uuid \<Rightarrow> database \<Rightarrow> request_row option" where
  "request_by_id rid db = find (\<lambda>r. r_id r = rid) (requests db)"

text \<open>\<open>INSERT INTO contacts ... ON CONFLICT DO NOTHING RETURNING created_at\<close>.\<close>

definition insert_contact ::
  "(database \<Rightarrow> uuid) \<Rightarrow> timestamp \<Rightarrow> uuid \<Rightarrow> uuid \<Rightarrow> timestamp option statement" where
  "insert_contact gen now owner contact db =
     (if has_contact owner contact db then (Inr None, [])
      else if owner \<notin> user_ids db \<or> contact \<notin> user_ids db then (Inl ForeignKeyViolation, [])
      else (Inr (Some now),
            [InsContact \<lparr>c_id = gen db, c_owner = owner, c_contact = contact, c_created_at = now\<rparr>]))"

text \<open>The two-row insert of an acceptance is one statement: both rows or none.\<close>

definition insert_contact_pair ::
  "(database \<Rightarrow> uuid) \<Rightarrow> timestamp \<Rightarrow> uuid \<Rightarrow> uuid \<Rightarrow> unit statement" where
  "insert_contact_pair gen now a b db =
     (case insert_contact gen now a b db of
        (Inl err, _) \<Rightarrow> (Inl err, [])
      | (Inr _, ws) \<Rightarrow>
          (case insert_contact gen now b a (apply_writes ws db) of
             (Inl err, _) \<Rightarrow> (Inl err, [])
           | (Inr _, vs) \<Rightarrow> (Inr (), ws @ vs)))"

definition delete_contact :: "uuid \<Rightarrow> uuid \<Rightarrow> nat statement" where
  "delete_contact owner contact db =
     (let rows = filter (\<lambda>c. contact_pair c = (owner, contact)) (contacts db)
      in (Inr (length rows), map DelContact (map c_id rows)))"

text \<open>
  \<open>INSERT INTO contact_requests ... ON CONFLICT ... WHERE status = 'pending' DO NOTHING\<close>, with the
  column defaults of the migration.
\<close>

definition insert_request ::
  "(database \<Rightarrow> uuid) \<Rightarrow> timestamp \<Rightarrow> uuid \<Rightarrow> uuid \<Rightarrow> request_row option statement" where
  "insert_request gen now requester recipient db =
     (if pending_request requester recipient db \<noteq> None then (Inr None, [])
      else if requester \<notin> user_ids db \<or> recipient \<notin> user_ids db then (Inl ForeignKeyViolation, [])
      else
        (let row = \<lparr>r_id = gen db, r_requester = requester, r_recipient = recipient,
                    r_status = ''pending'', r_created_at = now, r_responded_at = None\<rparr>
         in (Inr (Some row), [InsRequest row])))"

text \<open>The rows of \<open>WHERE id = $1 AND status = 'pending'\<close>.\<close>

definition pending_by_id :: "uuid \<Rightarrow> database \<Rightarrow> request_row list" where
  "pending_by_id rid db = filter (\<lambda>r. r_id r = rid \<and> pending r) (requests db)"

definition delete_pending_request :: "uuid \<Rightarrow> nat statement" where
  "delete_pending_request rid db =
     (let rows = pending_by_id rid db in (Inr (length rows), map DelRequest (map r_id rows)))"

definition decline_row :: "timestamp \<Rightarrow> request_row \<Rightarrow> request_row" where
  "decline_row now r = r\<lparr>r_status := ''declined'', r_responded_at := Some now\<rparr>"

definition decline_pending_request :: "uuid \<Rightarrow> timestamp \<Rightarrow> nat statement" where
  "decline_pending_request rid now db =
     (let rows = pending_by_id rid db
      in (Inr (length rows), map (\<lambda>r. PutRequest (decline_row now r)) rows))"

section \<open>Listing\<close>

record contact_view =
  cv_user_id :: uuid
  cv_email :: string
  cv_username :: string
  cv_added_at :: timestamp
  cv_keys :: "key_row option"

text \<open>\<open>contacts JOIN users LEFT JOIN user_keys\<close>, ordered by the time the contact was added.\<close>

definition contact_rows :: "uuid \<Rightarrow> database \<Rightarrow> contact_view list" where
  "contact_rows owner db =
     order_by cv_added_at
       (List.map_filter
          (\<lambda>c. map_option
                 (\<lambda>u. \<lparr>cv_user_id = c_contact c, cv_email = u_email u, cv_username = u_username u,
                       cv_added_at = c_created_at c,
                       cv_keys = find (\<lambda>k. k_user k = c_contact c) (user_keys db)\<rparr>)
                 (find (\<lambda>u. u_id u = c_contact c) (users db)))
          (filter (\<lambda>c. c_owner c = owner) (contacts db)))"

definition contact_view_json :: "lib \<Rightarrow> contact_view \<Rightarrow> json" where
  "contact_view_json L v =
     (let key = (\<lambda>f. json_opt (map_option (\<lambda>k. JStr (base64_encode L (f k))) (cv_keys v)))
      in JObj [(''user_id'', json_uuid L (cv_user_id v)),
               (''email'', JStr (cv_email v)),
               (''username'', JStr (cv_username v)),
               (''added_at'', json_time L (cv_added_at v)),
               (''x25519_public_key_b64'', key k_x25519),
               (''kyber_public_key_b64'', key k_kyber),
               (''dilithium_public_key_b64'', key k_dilithium),
               (''prekey_signature_b64'', key k_signature)])"

definition list_contacts :: "dbenv \<Rightarrow> lib \<Rightarrow> user_row \<Rightarrow> database \<Rightarrow> response \<times> database" where
  "list_contacts e L user db =
     (case autocommit e 0 (query (contact_rows (u_id user))) db of
        (Inr rows, db1) \<Rightarrow>
          (Reply 200 (JObj [(''contacts'', JArr (map (contact_view_json L) rows))]), db1)
      | (Inl _, db1) \<Rightarrow> (internal_error, db1))"

record party_view =
  pv_id :: uuid
  pv_user_id :: uuid
  pv_email :: string
  pv_username :: string
  pv_created_at :: timestamp

definition party_rows ::
  "(request_row \<Rightarrow> uuid) \<Rightarrow> (request_row \<Rightarrow> uuid) \<Rightarrow> uuid \<Rightarrow> database \<Rightarrow> party_view list" where
  "party_rows mine other me db =
     order_by pv_created_at
       (List.map_filter
          (\<lambda>r. map_option
                 (\<lambda>u. \<lparr>pv_id = r_id r, pv_user_id = u_id u, pv_email = u_email u,
                       pv_username = u_username u, pv_created_at = r_created_at r\<rparr>)
                 (find (\<lambda>u. u_id u = other r) (users db)))
          (filter (\<lambda>r. mine r = me \<and> pending r) (requests db)))"

definition party_view_json :: "lib \<Rightarrow> party_view \<Rightarrow> json" where
  "party_view_json L v =
     JObj [(''id'', json_uuid L (pv_id v)), (''user_id'', json_uuid L (pv_user_id v)),
           (''email'', JStr (pv_email v)), (''username'', JStr (pv_username v)),
           (''created_at'', json_time L (pv_created_at v))]"

definition list_contact_requests :: "dbenv \<Rightarrow> lib \<Rightarrow> user_row \<Rightarrow> database \<Rightarrow> response \<times> database" where
  "list_contact_requests e L user db =
     (case autocommit e 0 (query (party_rows r_recipient r_requester (u_id user))) db of
        (Inl _, db1) \<Rightarrow> (internal_error, db1)
      | (Inr incoming, db1) \<Rightarrow>
          (case autocommit e 1 (query (party_rows r_requester r_recipient (u_id user))) db1 of
             (Inl _, db2) \<Rightarrow> (internal_error, db2)
           | (Inr outgoing, db2) \<Rightarrow>
               (Reply 200 (JObj [(''incoming'', JArr (map (party_view_json L) incoming)),
                                 (''outgoing'', JArr (map (party_view_json L) outgoing))]), db2)))"

section \<open>Adding and removing\<close>

definition add_contact ::
  "dbenv \<Rightarrow> lib \<Rightarrow> user_row \<Rightarrow> string option \<Rightarrow> database \<Rightarrow> response \<times> database" where
  "add_contact e L user payload_email db =
     (let email = (case payload_email of None \<Rightarrow> [] | Some s \<Rightarrow> s)
      in case autocommit e 0 (query (user_by_email email)) db of
           (Inl _, db1) \<Rightarrow> (internal_error, db1)
         | (Inr None, db1) \<Rightarrow> (fail_with 404 ''user_not_found'', db1)
         | (Inr (Some (target_id, target_email)), db1) \<Rightarrow>
             if target_id = u_id user then (fail_with 400 ''cannot_add_self'', db1)
             else (case autocommit e 1 (insert_contact (gen_id e) (clock e 1) (u_id user) target_id) db1 of
                     (Inr (Some added_at), db2) \<Rightarrow>
                       (Reply 201 (JObj [(''user_id'', json_uuid L target_id),
                                         (''email'', JStr target_email),
                                         (''added_at'', json_time L added_at)]), db2)
                   | (Inr None, db2) \<Rightarrow> (fail_with 409 ''already_added'', db2)
                   | (Inl _, db2) \<Rightarrow> (internal_error, db2)))"

definition contact_removed_frame :: "lib \<Rightarrow> user_row \<Rightarrow> json" where
  "contact_removed_frame L user =
     JObj [(''type'', JStr ''contact_removed''), (''user_id'', json_uuid L (u_id user)),
           (''email'', JStr (u_email user))]"

text \<open>A return inside an open transaction drops it, which rolls back.\<close>

definition remove_contact ::
  "dbenv \<Rightarrow> lib \<Rightarrow> user_row \<Rightarrow> uuid \<Rightarrow> live \<Rightarrow> database \<Rightarrow> response \<times> live \<times> database" where
  "remove_contact e L user contact_user_id l db =
     (case begin_tx e 0 db of
        (Inl _, t0) \<Rightarrow> (internal_error, l, fst t0)
      | (Inr _, t0) \<Rightarrow>
          (case in_tx e 1 (delete_contact (u_id user) contact_user_id) t0 of
             (Inl _, t1) \<Rightarrow> (internal_error, l, fst t1)
           | (Inr rows_affected, t1) \<Rightarrow>
               if rows_affected = 0 then (fail_with 404 ''not_found'', l, fst t1)
               else (case in_tx e 2 (delete_contact contact_user_id (u_id user)) t1 of
                       (Inl _, t2) \<Rightarrow> (internal_error, l, fst t2)
                     | (Inr _, t2) \<Rightarrow>
                         (case commit_tx e 3 t2 of
                            (Inr _, db') \<Rightarrow>
                              (Bare 204, push_frame L contact_user_id (contact_removed_frame L user) l, db')
                          | (Inl _, db') \<Rightarrow> (internal_error, l, db')))))"

section \<open>Requests\<close>

definition request_json :: "lib \<Rightarrow> request_row \<Rightarrow> json" where
  "request_json L r =
     JObj [(''id'', json_uuid L (r_id r)), (''requester_user_id'', json_uuid L (r_requester r)),
           (''recipient_user_id'', json_uuid L (r_recipient r)), (''status'', JStr (r_status r)),
           (''created_at'', json_time L (r_created_at r))]"

definition contact_request_frame :: "lib \<Rightarrow> user_row \<Rightarrow> uuid \<Rightarrow> json" where
  "contact_request_frame L user rid =
     JObj [(''type'', JStr ''contact_request''), (''request_id'', json_uuid L rid),
           (''requester_user_id'', json_uuid L (u_id user)), (''requester_email'', JStr (u_email user))]"

record create_request_payload =
  crp_email :: "string option"
  crp_username :: "string option"

text \<open>Exactly one of the two fields names the target; neither counts as an empty email.\<close>

definition find_target ::
  "dbenv \<Rightarrow> lib \<Rightarrow> create_request_payload \<Rightarrow> database \<Rightarrow> (response + (sql_error + (uuid \<times> string) option)) \<times> database" where
  "find_target e L payload db =
     (case (crp_email payload, crp_username payload) of
        (Some _, Some _) \<Rightarrow> (Inl (fail_with 400 ''invalid_request''), db)
      | (None, Some username) \<Rightarrow>
          (let (r, db1) = autocommit e 0 (query (user_by_username (sql_lower L username))) db
           in (Inr r, db1))
      | (email, None) \<Rightarrow>
          (let (r, db1) = autocommit e 0
             (query (user_by_email (case email of None \<Rightarrow> [] | Some s \<Rightarrow> s))) db
           in (Inr r, db1)))"

text \<open>The three checks before the insert, each a statement of its own.\<close>

definition already_contact :: "uuid \<Rightarrow> uuid \<Rightarrow> database \<Rightarrow> bool" where
  "already_contact a b db \<longleftrightarrow> has_contact a b db \<or> has_contact b a db"

definition insert_and_notify ::
  "dbenv \<Rightarrow> lib \<Rightarrow> user_row \<Rightarrow> uuid \<Rightarrow> live \<Rightarrow> database \<Rightarrow> response \<times> live \<times> database" where
  "insert_and_notify e L user target_id l db =
     (case autocommit e 3 (insert_request (gen_id e) (clock e 3) (u_id user) target_id) db of
        (Inr (Some row), db1) \<Rightarrow>
          (Reply 201 (request_json L row),
           push_frame L target_id (contact_request_frame L user (r_id row)) l, db1)
      | (Inr None, db1) \<Rightarrow> (fail_with 409 ''already_pending'', l, db1)
      | (Inl _, db1) \<Rightarrow> (internal_error, l, db1))"

definition create_contact_request ::
  "dbenv \<Rightarrow> lib \<Rightarrow> user_row \<Rightarrow> create_request_payload \<Rightarrow> live \<Rightarrow> database
     \<Rightarrow> response \<times> live \<times> database" where
  "create_contact_request e L user payload l db =
     (case find_target e L payload db of
        (Inl resp, db1) \<Rightarrow> (resp, l, db1)
      | (Inr (Inl _), db1) \<Rightarrow> (internal_error, l, db1)
      | (Inr (Inr None), db1) \<Rightarrow> (fail_with 404 ''user_not_found'', l, db1)
      | (Inr (Inr (Some (target_id, _))), db1) \<Rightarrow>
          if target_id = u_id user then (fail_with 400 ''cannot_add_self'', l, db1)
          else
            (case autocommit e 1 (query (already_contact (u_id user) target_id)) db1 of
               (Inl _, db2) \<Rightarrow> (internal_error, l, db2)
             | (Inr True, db2) \<Rightarrow> (fail_with 409 ''already_contact'', l, db2)
             | (Inr False, db2) \<Rightarrow>
                 (case autocommit e 2 (query (pending_request target_id (u_id user))) db2 of
                    (Inl _, db3) \<Rightarrow> (internal_error, l, db3)
                  | (Inr (Some r), db3) \<Rightarrow>
                      (Reply 409 (JObj [(''error'', JStr ''incoming_request_exists''),
                                        (''request_id'', json_uuid L (r_id r))]), l, db3)
                  | (Inr None, db3) \<Rightarrow> insert_and_notify e L user target_id l db3)))"

datatype load_error = NotFound | Forbidden string | Internal

fun load_error_response :: "load_error \<Rightarrow> response" where
  "load_error_response NotFound = fail_with 404 ''request_not_found''"
| "load_error_response (Forbidden code) = fail_with 403 code"
| "load_error_response Internal = internal_error"

definition load_pending_request_as_recipient ::
  "dbenv \<Rightarrow> nat \<Rightarrow> uuid \<Rightarrow> uuid \<Rightarrow> tx \<Rightarrow> (load_error + uuid \<times> uuid) \<times> tx" where
  "load_pending_request_as_recipient e i rid caller t =
     (case in_tx e i (query (request_by_id rid)) t of
        (Inl _, t1) \<Rightarrow> (Inl Internal, t1)
      | (Inr None, t1) \<Rightarrow> (Inl NotFound, t1)
      | (Inr (Some r), t1) \<Rightarrow>
          if r_recipient r \<noteq> caller then (Inl (Forbidden ''not_recipient''), t1)
          else if r_status r \<noteq> ''pending'' then (Inl NotFound, t1)
          else (Inr (r_requester r, r_recipient r), t1))"

definition load_pending_request_as_requester ::
  "dbenv \<Rightarrow> nat \<Rightarrow> uuid \<Rightarrow> uuid \<Rightarrow> tx \<Rightarrow> (load_error + unit) \<times> tx" where
  "load_pending_request_as_requester e i rid caller t =
     (case in_tx e i (query (request_by_id rid)) t of
        (Inl _, t1) \<Rightarrow> (Inl Internal, t1)
      | (Inr None, t1) \<Rightarrow> (Inl NotFound, t1)
      | (Inr (Some r), t1) \<Rightarrow>
          if r_requester r \<noteq> caller then (Inl (Forbidden ''not_requester''), t1)
          else if r_status r \<noteq> ''pending'' then (Inl NotFound, t1)
          else (Inr (), t1))"

definition contact_accepted_frame :: "lib \<Rightarrow> user_row \<Rightarrow> uuid \<Rightarrow> json" where
  "contact_accepted_frame L user rid =
     JObj [(''type'', JStr ''contact_accepted''), (''request_id'', json_uuid L rid),
           (''acceptor_user_id'', json_uuid L (u_id user)), (''acceptor_email'', JStr (u_email user))]"

definition accept_contact_request ::
  "dbenv \<Rightarrow> lib \<Rightarrow> user_row \<Rightarrow> uuid \<Rightarrow> live \<Rightarrow> database \<Rightarrow> response \<times> live \<times> database" where
  "accept_contact_request e L user rid l db =
     (case begin_tx e 0 db of
        (Inl _, t0) \<Rightarrow> (internal_error, l, fst t0)
      | (Inr _, t0) \<Rightarrow>
          (case load_pending_request_as_recipient e 1 rid (u_id user) t0 of
             (Inl err, t1) \<Rightarrow> (load_error_response err, l, fst t1)
           | (Inr (requester_id, recipient_id), t1) \<Rightarrow>
               (case in_tx e 2 (insert_contact_pair (gen_id e) (clock e 0) requester_id recipient_id) t1 of
                  (Inl _, t2) \<Rightarrow> (internal_error, l, fst t2)
                | (Inr _, t2) \<Rightarrow>
                    (case in_tx e 3 (delete_pending_request rid) t2 of
                       (Inl _, t3) \<Rightarrow> (internal_error, l, fst t3)
                     | (Inr rows_affected, t3) \<Rightarrow>
                         if rows_affected = 0 then (fail_with 404 ''request_not_found'', l, fst t3)
                         else (case commit_tx e 4 t3 of
                                 (Inr _, db') \<Rightarrow>
                                   (Bare 204, push_frame L requester_id (contact_accepted_frame L user rid) l, db')
                               | (Inl _, db') \<Rightarrow> (internal_error, l, db'))))))"

definition cancel_contact_request ::
  "dbenv \<Rightarrow> user_row \<Rightarrow> uuid \<Rightarrow> database \<Rightarrow> response \<times> database" where
  "cancel_contact_request e user rid db =
     (case begin_tx e 0 db of
        (Inl _, t0) \<Rightarrow> (internal_error, fst t0)
      | (Inr _, t0) \<Rightarrow>
          (case load_pending_request_as_requester e 1 rid (u_id user) t0 of
             (Inl err, t1) \<Rightarrow> (load_error_response err, fst t1)
           | (Inr _, t1) \<Rightarrow>
               (case in_tx e 2 (delete_pending_request rid) t1 of
                  (Inl _, t2) \<Rightarrow> (internal_error, fst t2)
                | (Inr rows_affected, t2) \<Rightarrow>
                    if rows_affected = 0 then (fail_with 404 ''request_not_found'', fst t2)
                    else (case commit_tx e 3 t2 of
                            (Inr _, db') \<Rightarrow> (Bare 204, db')
                          | (Inl _, db') \<Rightarrow> (internal_error, db')))))"

definition decline_contact_request ::
  "dbenv \<Rightarrow> user_row \<Rightarrow> uuid \<Rightarrow> database \<Rightarrow> response \<times> database" where
  "decline_contact_request e user rid db =
     (case begin_tx e 0 db of
        (Inl _, t0) \<Rightarrow> (internal_error, fst t0)
      | (Inr _, t0) \<Rightarrow>
          (case load_pending_request_as_recipient e 1 rid (u_id user) t0 of
             (Inl err, t1) \<Rightarrow> (load_error_response err, fst t1)
           | (Inr _, t1) \<Rightarrow>
               (case in_tx e 2 (decline_pending_request rid (clock e 0)) t1 of
                  (Inl _, t2) \<Rightarrow> (internal_error, fst t2)
                | (Inr rows_affected, t2) \<Rightarrow>
                    if rows_affected = 0 then (fail_with 404 ''request_not_found'', fst t2)
                    else (case commit_tx e 3 t2 of
                            (Inr _, db') \<Rightarrow> (Bare 204, db')
                          | (Inl _, db') \<Rightarrow> (internal_error, db')))))"

end
