(* ===== verification/Api_Push.thy ===== *)
theory Api_Push
  imports Api_Library
begin

text \<open>
  Push notifications (\<open>apps/api/src/push.rs\<close>): the request to Expo, the classification of its
  answer, and the notifier seam the relay depends on. The HTTP client, the text of a status and
  serde's typed parser are parameters.
\<close>

section \<open>Outcomes\<close>

datatype push_error =
    Rejected "string option" string
  | RequestFailed string

definition show_push_error :: "push_error \<Rightarrow> string" where
  "show_push_error err =
     (case err of
        Rejected (Some code) message \<Rightarrow> ''Expo rejected the push token ('' @ code @ ''): '' @ message
      | Rejected None message \<Rightarrow> ''Expo rejected the push: '' @ message
      | RequestFailed reason \<Rightarrow> ''push request to Expo failed: '' @ reason)"

record expo_details =
  ed_error :: "string option"

datatype expo_ticket =
    TicketOk
  | TicketError string "expo_details option"

record expo_response =
  er_data :: "expo_ticket option"

text \<open>
  \<open>client.post(endpoint).json(&payload).send()\<close> answers a transport error or a status with a body
  that may fail to arrive; the client's state \<open>'h\<close> is whatever the network remembers.
\<close>

record 'h http_client =
  hc_post :: "string \<Rightarrow> json \<Rightarrow> 'h \<Rightarrow> (string + nat \<times> (string + string)) \<times> 'h"
  hc_show_status :: "nat \<Rightarrow> string"
  hc_parse_response :: "string \<Rightarrow> string + expo_response"

definition EXPO_PUSH_API_URL :: string where
  "EXPO_PUSH_API_URL = ''https://exp.host/--/api/v2/push/send''"

definition push_payload :: "string \<Rightarrow> string \<Rightarrow> string \<Rightarrow> json \<Rightarrow> json" where
  "push_payload token title body data =
     JObj [(''to'', JStr token), (''title'', JStr title), (''body'', JStr body), (''data'', data)]"

definition is_server_error :: "nat \<Rightarrow> bool" where
  "is_server_error status \<longleftrightarrow> 500 \<le> status \<and> status < 600"

text \<open>What an answer of Expo means, in the order the code looks at it.\<close>

definition classify_answer :: "'h http_client \<Rightarrow> nat \<Rightarrow> string \<Rightarrow> push_error + unit" where
  "classify_answer hc status body_text =
     (if is_server_error status
      then Inl (RequestFailed (''Expo returned '' @ hc_show_status hc status @ '': '' @ body_text))
      else
        (case hc_parse_response hc body_text of
           Inl err \<Rightarrow> Inl (RequestFailed (''failed to parse Expo response ('' @ hc_show_status hc status @
                        ''): '' @ err @ '' (body: '' @ body_text @ '')''))
         | Inr parsed \<Rightarrow>
             (case er_data parsed of
                Some TicketOk \<Rightarrow> Inr ()
              | Some (TicketError message details) \<Rightarrow>
                  Inl (Rejected (Option.bind details ed_error) message)
              | None \<Rightarrow> Inl (RequestFailed (''Expo response ('' @ hc_show_status hc status @
                          '') missing `data`: '' @ body_text)))))"

definition send_push_notification_to ::
  "'h http_client \<Rightarrow> string \<Rightarrow> string \<Rightarrow> string \<Rightarrow> string \<Rightarrow> json \<Rightarrow> 'h \<Rightarrow> (push_error + unit) \<times> 'h" where
  "send_push_notification_to hc endpoint token title body data h =
     (case hc_post hc endpoint (push_payload token title body data) h of
        (Inl err, h') \<Rightarrow> (Inl (RequestFailed err), h')
      | (Inr (_, Inl err), h') \<Rightarrow> (Inl (RequestFailed (''failed to read response body: '' @ err)), h')
      | (Inr (status, Inr body_text), h') \<Rightarrow> (classify_answer hc status body_text, h'))"

definition send_push_notification ::
  "'h http_client \<Rightarrow> string \<Rightarrow> string \<Rightarrow> string \<Rightarrow> json \<Rightarrow> 'h \<Rightarrow> (push_error + unit) \<times> 'h" where
  "send_push_notification hc token title body data h =
     send_push_notification_to hc EXPO_PUSH_API_URL token title body data h"

text \<open>The \<open>PushNotifier\<close> trait object, and the one used at runtime.\<close>

record 'h notifier =
  send_push :: "string \<Rightarrow> string \<Rightarrow> string \<Rightarrow> json \<Rightarrow> 'h \<Rightarrow> (push_error + unit) \<times> 'h"

definition expo_push_notifier :: "'h http_client \<Rightarrow> 'h notifier" where
  "expo_push_notifier hc = \<lparr>send_push = send_push_notification hc\<rparr>"

section \<open>Properties\<close>

text \<open>
  A push counts as sent exactly when the request went through, the whole answer was read, its
  status is no server error and it carries an \<open>ok\<close> ticket; a rejection of the token is reported
  as such exactly for an \<open>error\<close> ticket, with Expo's code when it gave one, so the caller can tell
  a dead token from a failed request.
\<close>

theorem push_outcome:
  "(fst (send_push_notification hc token title body data h) = Inr () \<longleftrightarrow>
      (\<exists>status text r h'. hc_post hc EXPO_PUSH_API_URL (push_payload token title body data) h = (Inr (status, Inr text), h') \<and>
         \<not> is_server_error status \<and> hc_parse_response hc text = Inr r \<and> er_data r = Some TicketOk)) \<and>
   (fst (send_push_notification hc token title body data h) = Inl (Rejected code message) \<longleftrightarrow>
      (\<exists>status text r details h'. hc_post hc EXPO_PUSH_API_URL (push_payload token title body data) h = (Inr (status, Inr text), h') \<and>
         \<not> is_server_error status \<and> hc_parse_response hc text = Inr r \<and>
         er_data r = Some (TicketError message details) \<and> code = Option.bind details ed_error))"
proof -
  obtain a h' where p: "hc_post hc EXPO_PUSH_API_URL (push_payload token title body data) h = (a, h')"
    by (rule prod.exhaust)
  show ?thesis
    unfolding send_push_notification_def send_push_notification_to_def p classify_answer_def
    by (auto split: sum.splits option.splits expo_ticket.splits)
qed

end
