(* ===== verification/Api_Relay.thy ===== *)
theory Api_Relay
  imports Api_Contacts Api_Worktrees Api_Push
begin

text \<open>
  The message relay (\<open>apps/api/src/relay.rs\<close>) and the peek at the offline queue
  (\<open>apps/api/src/messages.rs\<close>). JetStream is a parameter: a record of the calls the two modules
  make on a queue of type \<open>'q\<close>, each of which may fail. A task that \<open>tokio::spawn\<close> starts is put
  on the node's list and run by a step of its own.
\<close>

section \<open>JetStream\<close>

datatype raw_answer =
    RawMessage nat string
  | NoMessageFound
  | RawError

text \<open>
  A message of the stream is its sequence number and payload. A fetch answers the messages that
  arrive before the stream runs dry or fails.
\<close>

record 'q jetstream =
  js_create_consumer :: "string \<Rightarrow> string \<Rightarrow> 'q \<Rightarrow> bool \<times> 'q"
  js_fetch :: "string \<Rightarrow> string \<Rightarrow> nat \<Rightarrow> nat \<Rightarrow> 'q \<Rightarrow> (nat \<times> string) list option \<times> 'q"
  js_ack :: "string \<Rightarrow> nat \<Rightarrow> 'q \<Rightarrow> 'q"
  js_publish :: "string \<Rightarrow> string \<Rightarrow> 'q \<Rightarrow> nat option \<times> 'q"
  js_get_stream :: "string \<Rightarrow> 'q \<Rightarrow> bool"
  js_delete_message :: "string \<Rightarrow> nat \<Rightarrow> 'q \<Rightarrow> 'q"
  js_first_raw :: "string \<Rightarrow> string \<Rightarrow> nat \<Rightarrow> 'q \<Rightarrow> raw_answer"

section \<open>The application state\<close>

text \<open>The spawned tasks, with what their closures capture.\<close>

datatype task =
    Redeliver uuid nat json
  | Notify uuid uuid

record ('q, 'h) app =
  app_lib :: lib
  app_host :: host
  app_js :: "'q jetstream"
  app_push :: "'h notifier"

record ('q, 'h) node =
  nd_db :: database
  nd_live :: live
  nd_queue :: 'q
  nd_push :: 'h
  nd_tasks :: "task list"

abbreviation subject_of :: "('q, 'h) app \<Rightarrow> uuid \<Rightarrow> string" where
  "subject_of A u \<equiv> effective_offline_subject (show_uuid (app_lib A)) (app_host A) u"

abbreviation stream_of :: "('q, 'h) app \<Rightarrow> string" where
  "stream_of A \<equiv> effective_stream_name (app_host A)"

text \<open>\<open>tx.send(Frame::Text(...)).map_err(|_| ())\<close>.\<close>

definition send_text :: "('q, 'h) app \<Rightarrow> sender \<Rightarrow> json \<Rightarrow> ('q, 'h) node \<Rightarrow> bool \<times> ('q, 'h) node" where
  "send_text A tx v n =
     (let (ok, l) = send_frame tx (Text (show_json (app_lib A) v)) (nd_live n) in (ok, n\<lparr>nd_live := l\<rparr>))"

definition error_json :: "string \<Rightarrow> string \<Rightarrow> json" where
  "error_json code message =
     JObj [(''type'', JStr ''error''), (''code'', JStr code), (''message'', JStr message)]"

definition send_error ::
  "('q, 'h) app \<Rightarrow> sender \<Rightarrow> string \<Rightarrow> string \<Rightarrow> ('q, 'h) node \<Rightarrow> bool \<times> ('q, 'h) node" where
  "send_error A tx code message n = send_text A tx (error_json code message) n"

definition ack_json :: "('q, 'h) app \<Rightarrow> uuid \<Rightarrow> json" where
  "ack_json A to = JObj [(''type'', JStr ''ack''), (''to'', json_uuid (app_lib A) to)]"

definition message_json :: "json \<Rightarrow> json \<Rightarrow> json \<Rightarrow> json" where
  "message_json from body_b64 sent_at =
     JObj [(''type'', JStr ''message''), (''from'', from), (''body_b64'', body_b64), (''sent_at'', sent_at)]"

definition payload_json :: "json \<Rightarrow> json \<Rightarrow> json \<Rightarrow> json" where
  "payload_json from body_b64 sent_at =
     JObj [(''from'', from), (''body_b64'', body_b64), (''sent_at'', sent_at)]"

section \<open>Catching up on connect\<close>

definition MAX_QUEUED_MESSAGES_PER_FETCH :: nat where
  "MAX_QUEUED_MESSAGES_PER_FETCH = 256"

definition QUEUED_MESSAGES_FETCH_TIMEOUT :: nat where
  "QUEUED_MESSAGES_FETCH_TIMEOUT = 300"

text \<open>\<open>payload.get(k)\<close> inside \<open>json!\<close>: null when the field is absent.\<close>

definition relay_of_payload :: "json \<Rightarrow> json" where
  "relay_of_payload payload =
     message_json (json_opt (json_get payload ''from'')) (json_opt (json_get payload ''body_b64''))
       (json_opt (json_get payload ''sent_at''))"

text \<open>A payload that is no JSON is skipped and not acknowledged; a dead channel ends the loop.\<close>

fun deliver_messages :: "('q, 'h) app \<Rightarrow> sender \<Rightarrow> (nat \<times> string) list \<Rightarrow> ('q, 'h) node \<Rightarrow> ('q, 'h) node" where
  "deliver_messages A tx [] n = n"
| "deliver_messages A tx ((s, payload) # rest) n =
     (case parse_json (app_lib A) payload of
        None \<Rightarrow> deliver_messages A tx rest n
      | Some v \<Rightarrow>
          (let (ok, n') = send_text A tx (relay_of_payload v) n
           in if ok
              then deliver_messages A tx rest
                     (n'\<lparr>nd_queue := js_ack (app_js A) (stream_of A) s (nd_queue n')\<rparr>)
              else n'))"

definition deliver_queued_messages ::
  "('q, 'h) app \<Rightarrow> uuid \<Rightarrow> sender \<Rightarrow> ('q, 'h) node \<Rightarrow> ('q, 'h) node" where
  "deliver_queued_messages A user_id tx n =
     (let (created, q1) = js_create_consumer (app_js A) (stream_of A) (subject_of A user_id) (nd_queue n);
          n1 = n\<lparr>nd_queue := q1\<rparr>
      in if \<not> created then n1
         else (case js_fetch (app_js A) (stream_of A) (subject_of A user_id)
                      MAX_QUEUED_MESSAGES_PER_FETCH QUEUED_MESSAGES_FETCH_TIMEOUT q1 of
                 (None, q2) \<Rightarrow> n\<lparr>nd_queue := q2\<rparr>
               | (Some messages, q2) \<Rightarrow> deliver_messages A tx messages (n\<lparr>nd_queue := q2\<rparr>)))"

section \<open>Relaying a frame\<close>

text \<open>\<open>now i\<close> is the \<open>i\<close>-th reading of the clock.\<close>

definition queue_for_offline_delivery ::
  "('q, 'h) app \<Rightarrow> timestamp \<Rightarrow> uuid \<Rightarrow> uuid \<Rightarrow> string \<Rightarrow> sender \<Rightarrow> ('q, 'h) node \<Rightarrow> bool \<times> ('q, 'h) node" where
  "queue_for_offline_delivery A now sender_id to body_b64 tx n =
     (let L = app_lib A;
          sent_at = show_rfc3339 L now;
          payload = payload_json (json_uuid L sender_id) (JStr body_b64) (JStr sent_at)
      in case js_publish (app_js A) (subject_of A to) (show_json L payload) (nd_queue n) of
           (Some sequence, q) \<Rightarrow>
             (let relay = message_json (json_uuid L sender_id) (JStr body_b64) (JStr sent_at)
              in send_text A tx (ack_json A to)
                   (n\<lparr>nd_queue := q, nd_tasks := nd_tasks n @ [Redeliver to sequence relay, Notify to sender_id]\<rparr>))
         | (None, q) \<Rightarrow>
             send_error A tx ''queue_unavailable'' ''message could not be queued for offline delivery''
               (n\<lparr>nd_queue := q\<rparr>))"

definition valid_body :: "lib \<Rightarrow> json \<Rightarrow> string option" where
  "valid_body L frame =
     (case str_field frame ''body_b64'' of
        Some body \<Rightarrow> if base64_decode L body \<noteq> None then Some body else None
      | None \<Rightarrow> None)"

definition handle_send ::
  "('q, 'h) app \<Rightarrow> dbenv \<Rightarrow> (nat \<Rightarrow> timestamp) \<Rightarrow> uuid \<Rightarrow> sender \<Rightarrow> json \<Rightarrow> ('q, 'h) node \<Rightarrow> bool \<times> ('q, 'h) node" where
  "handle_send A e now sender_id tx frame n =
     (let L = app_lib A
      in case Option.bind (str_field frame ''to'') (parse_uuid L) of
           None \<Rightarrow> send_error A tx ''invalid_payload'' ''\"to\" must be a UUID string'' n
         | Some to \<Rightarrow>
             (case valid_body L frame of
                None \<Rightarrow> send_error A tx ''invalid_payload'' ''\"body_b64\" must be valid base64'' n
              | Some body_b64 \<Rightarrow>
                  (case autocommit e 0 (query (has_contact sender_id to)) (nd_db n) of
                     (r, db1) \<Rightarrow>
                       (let n1 = n\<lparr>nd_db := db1\<rparr>
                        in if r \<noteq> Inr True
                           then send_error A tx ''not_a_contact'' ''recipient is not in your contacts'' n1
                           else (case registry_get to (nd_live n1) of
                                   None \<Rightarrow> queue_for_offline_delivery A (now 0) sender_id to body_b64 tx n1
                                 | Some recipient_tx \<Rightarrow>
                                     (case send_text A recipient_tx
                                             (message_json (json_uuid L sender_id) (JStr body_b64)
                                                (JStr (show_rfc3339 L (now 0)))) n1 of
                                        (ok, n2) \<Rightarrow>
                                          if \<not> ok
                                          then queue_for_offline_delivery A (now 1) sender_id to body_b64 tx n2
                                          else send_text A tx (ack_json A to) n2))))))"

definition handle_client_frame ::
  "('q, 'h) app \<Rightarrow> dbenv \<Rightarrow> (nat \<Rightarrow> timestamp) \<Rightarrow> uuid \<Rightarrow> sender \<Rightarrow> string \<Rightarrow> ('q, 'h) node \<Rightarrow> bool \<times> ('q, 'h) node" where
  "handle_client_frame A e now sender_id tx text n =
     (case parse_json (app_lib A) text of
        None \<Rightarrow> send_error A tx ''invalid_payload'' ''malformed JSON frame'' n
      | Some parsed \<Rightarrow>
          if str_field parsed ''type'' = Some ''send'' then handle_send A e now sender_id tx parsed n
          else send_error A tx ''invalid_payload'' ''unknown or missing frame type'' n)"

section \<open>The spawned tasks\<close>

definition redeliver_if_now_connected ::
  "('q, 'h) app \<Rightarrow> uuid \<Rightarrow> nat \<Rightarrow> json \<Rightarrow> ('q, 'h) node \<Rightarrow> ('q, 'h) node" where
  "redeliver_if_now_connected A to sequence relay n =
     (case registry_get to (nd_live n) of
        None \<Rightarrow> n
      | Some recipient_tx \<Rightarrow>
          (case send_text A recipient_tx relay n of
             (ok, n1) \<Rightarrow>
               if \<not> ok then n1
               else if \<not> js_get_stream (app_js A) (stream_of A) (nd_queue n1) then n1
               else n1\<lparr>nd_queue := js_delete_message (app_js A) (stream_of A) sequence (nd_queue n1)\<rparr>))"

definition tokens_of :: "uuid \<Rightarrow> database \<Rightarrow> string list" where
  "tokens_of user db = map p_token (filter (\<lambda>p. p_user p = user) (push_tokens db))"

fun push_to_tokens :: "'h notifier \<Rightarrow> json \<Rightarrow> string list \<Rightarrow> 'h \<Rightarrow> 'h" where
  "push_to_tokens P data [] h = h"
| "push_to_tokens P data (token # rest) h =
     push_to_tokens P data rest (snd (send_push P token ''New message'' ''You have a new message'' data h))"

definition notify_push_tokens_for_offline_message ::
  "('q, 'h) app \<Rightarrow> dbenv \<Rightarrow> uuid \<Rightarrow> uuid \<Rightarrow> ('q, 'h) node \<Rightarrow> ('q, 'h) node" where
  "notify_push_tokens_for_offline_message A e to from n =
     (case autocommit e 0 (query (tokens_of to)) (nd_db n) of
        (r, db1) \<Rightarrow>
          (let tokens = (case r of Inr ts \<Rightarrow> ts | Inl _ \<Rightarrow> []);
               data = JObj [(''type'', JStr ''message''), (''fromUserId'', json_uuid (app_lib A) from)]
           in n\<lparr>nd_db := db1, nd_push := push_to_tokens (app_push A) data tokens (nd_push n)\<rparr>))"

definition run_task :: "('q, 'h) app \<Rightarrow> dbenv \<Rightarrow> task \<Rightarrow> ('q, 'h) node \<Rightarrow> ('q, 'h) node" where
  "run_task A e t n =
     (case t of
        Redeliver to sequence relay \<Rightarrow> redeliver_if_now_connected A to sequence relay n
      | Notify to from \<Rightarrow> notify_push_tokens_for_offline_message A e to from n)"

section \<open>Peeking at the queue\<close>

text \<open>
  \<open>get_queued\<close> of \<open>messages.rs\<close>. \<open>n\<close> is what is left of the \<open>for\<close> loop; the sequence number is a
  \<open>u64\<close> that a stream never exhausts.
\<close>

fun peek_loop :: "('q, 'h) app \<Rightarrow> string \<Rightarrow> string \<Rightarrow> nat \<Rightarrow> nat \<Rightarrow> 'q \<Rightarrow> response" where
  "peek_loop A subject from 0 next_seq q = fail_with 404 ''not_found''"
| "peek_loop A subject from (Suc n) next_seq q =
     (case js_first_raw (app_js A) (stream_of A) subject next_seq q of
        NoMessageFound \<Rightarrow> fail_with 404 ''not_found''
      | RawError \<Rightarrow> internal_error
      | RawMessage s payload \<Rightarrow>
          (case parse_json (app_lib A) payload of
             None \<Rightarrow> peek_loop A subject from n (s + 1) q
           | Some v \<Rightarrow>
               if str_field v ''from'' = Some from
               then Reply 200 (payload_json (json_opt (json_get v ''from''))
                      (json_opt (json_get v ''body_b64'')) (json_opt (json_get v ''sent_at'')))
               else peek_loop A subject from n (s + 1) q))"

definition get_queued :: "('q, 'h) app \<Rightarrow> uuid \<Rightarrow> uuid \<Rightarrow> 'q \<Rightarrow> response" where
  "get_queued A user_id from_user_id q =
     (if \<not> js_get_stream (app_js A) (stream_of A) q then internal_error
      else peek_loop A (subject_of A user_id) (show_uuid (app_lib A) from_user_id)
             MAX_QUEUED_MESSAGES_PER_FETCH 0 q)"

end
