(* ===== verification/Api_Contacts_Correct.thy ===== *)
theory Api_Contacts_Correct
  imports Api_Contacts
begin

text \<open>
  What the contact handlers guarantee: they keep the constraints of the database, an acceptance
  or removal happens completely or not at all, only the party entitled to a request can resolve
  it, and the whole module refines a small specification of who is whose contact.
\<close>

section \<open>The statements keep the constraints\<close>

lemma contacts_ok_snoc:
  assumes "contacts_ok ids cs" and "c_id c \<notin> c_id ` set cs" and "contact_pair c \<notin> contact_pair ` set cs"
    and "c_owner c \<in> ids" and "c_contact c \<in> ids" and "c_owner c \<noteq> c_contact c"
  shows "contacts_ok ids (cs @ [c])"
  using assms by (auto simp: contacts_ok_def)

lemma has_contact_iff: "has_contact a b db \<longleftrightarrow> (a, b) \<in> contact_pair ` set (contacts db)"
  by (force simp: has_contact_def list_ex_iff image_iff)

lemma wf_ins_contact:
  assumes "db_wf db" and "gen db \<notin> row_ids db" and "\<not> has_contact a b db"
    and "a \<in> user_ids db" and "b \<in> user_ids db" and "a \<noteq> b"
  shows "db_wf (db\<lparr>contacts := contacts db @ [\<lparr>c_id = gen db, c_owner = a, c_contact = b, c_created_at = t\<rparr>]\<rparr>)"
proof -
  let ?c = "\<lparr>c_id = gen db, c_owner = a, c_contact = b, c_created_at = t\<rparr>"
  have "contacts_ok (user_ids db) (contacts db @ [?c])"
    using assms db_wfD(2) [OF assms(1)]
    by (intro contacts_ok_snoc) (auto simp: row_ids_def has_contact_iff contact_pair_def)
  then show ?thesis using assms(1) by (simp add: db_wf_def)
qed

lemma wf_insert_contact:
  assumes "\<forall>db. gen db \<notin> row_ids db" and "a \<noteq> b"
  shows "wf_statement (insert_contact gen t a b)"
  using assms by (auto simp: wf_statement_def insert_contact_def wf_ins_contact)

lemma wf_insert_contact_pair:
  assumes "\<forall>db. gen db \<notin> row_ids db" and "a \<noteq> b"
  shows "wf_statement (insert_contact_pair gen t a b)"
  unfolding wf_statement_def
proof (intro allI impI)
  fix db assume db: "db_wf db"
  obtain r1 ws where 1: "insert_contact gen t a b db = (r1, ws)" by (rule prod.exhaust)
  obtain r2 vs where 2: "insert_contact gen t b a (apply_writes ws db) = (r2, vs)" by (rule prod.exhaust)
  have w: "db_wf (apply_writes ws db)"
    using wf_statementD [OF wf_insert_contact [OF assms, of t] db] 1 by simp
  have "db_wf (apply_writes vs (apply_writes ws db))"
    using wf_statementD [OF wf_insert_contact [OF assms(1) assms(2) [symmetric], of t] w] 2 by simp
  then show "db_wf (apply_writes (snd (insert_contact_pair gen t a b db)) db)"
    using db 1 2 by (auto simp: insert_contact_pair_def split: sum.splits)
qed

lemma wf_delete_contact: "wf_statement (delete_contact a b)"
  by (simp add: wf_statement_def delete_contact_def Let_def apply_del_contacts del: map_map)
     (intro allI impI wf_filter_contacts)

lemma wf_delete_pending_request: "wf_statement (delete_pending_request rid)"
  by (simp add: wf_statement_def delete_pending_request_def Let_def apply_del_requests del: map_map)
     (intro allI impI wf_filter_requests)

lemma pending_request_None:
  "pending_request a b db = None \<longleftrightarrow> (a, b) \<notin> request_pair ` set (filter pending (requests db))"
  by (force simp: pending_request_def find_None_iff image_iff)

lemma wf_insert_request:
  assumes "\<forall>db. gen db \<notin> row_ids db" and "a \<noteq> b"
  shows "wf_statement (insert_request gen t a b)"
  unfolding wf_statement_def
proof (intro allI impI)
  fix db assume db: "db_wf db"
  let ?r = "\<lparr>r_id = gen db, r_requester = a, r_recipient = b, r_status = ''pending'',
             r_created_at = t, r_responded_at = None\<rparr>"
  have p: "pending ?r" "request_pair ?r = (a, b)" by (simp_all add: pending_def request_pair_def)
  have "gen db \<notin> r_id ` set (requests db)" using assms(1) by (auto simp: row_ids_def)
  then have "requests_ok (user_ids db) (requests db @ [?r])"
    if "pending_request a b db = None" "a \<in> user_ids db" "b \<in> user_ids db"
    using that assms(2) db_wfD(3) [OF db] p
    by (auto simp: requests_ok_def pending_request_None image_iff)
  then show "db_wf (apply_writes (snd (insert_request gen t a b db)) db)"
    using db by (auto simp: insert_request_def db_wf_def Let_def)
qed

text \<open>There is at most one row per id, so at most one pending row.\<close>

lemma pending_by_id_single:
  assumes "db_wf db"
  shows "pending_by_id rid db =
     (case request_by_id rid db of Some r \<Rightarrow> if pending r then [r] else [] | None \<Rightarrow> [])"
proof (cases "request_by_id rid db")
  case None
  then have "\<forall>r \<in> set (requests db). r_id r \<noteq> rid"
    by (auto simp: request_by_id_def find_None_iff)
  then show ?thesis using None by (auto simp: pending_by_id_def filter_empty_conv)
next
  case (Some r)
  have d: "distinct (map r_id (requests db))" using db_wfD(3) [OF assms] by (simp add: requests_ok_def)
  have r: "r \<in> set (requests db)" "r_id r = rid"
    using Some find_SomeD by (fastforce simp: request_by_id_def)+
  have f: "filter (\<lambda>x. r_id x = rid) (requests db) = [r]"
    using filter_unique [OF d r(1)] r(2) by simp
  have "pending_by_id rid db = filter pending (filter (\<lambda>x. r_id x = rid) (requests db))"
    by (simp add: pending_by_id_def)
  also have "\<dots> = filter pending [r]" unfolding f ..
  finally show ?thesis using Some by simp
qed

definition decline_in :: "uuid \<Rightarrow> timestamp \<Rightarrow> request_row list \<Rightarrow> request_row list" where
  "decline_in rid now rs = map (\<lambda>x. if r_id x = rid then decline_row now x else x) rs"

lemma decline_row_simps [simp]:
  "r_id (decline_row now r) = r_id r" "r_requester (decline_row now r) = r_requester r"
  "r_recipient (decline_row now r) = r_recipient r" "r_status (decline_row now r) = ''declined''"
  "\<not> pending (decline_row now r)"
  by (simp_all add: decline_row_def pending_def)

lemma decline_in_ids: "map r_id (decline_in rid now rs) = map r_id rs"
  by (simp add: decline_in_def)

lemma decline_in_pending:
  "filter pending (decline_in rid now rs) = filter (\<lambda>x. r_id x \<noteq> rid) (filter pending rs)"
  unfolding decline_in_def by (induction rs) simp_all

lemma decline_in_rows:
  "x \<in> set (decline_in rid now rs) \<Longrightarrow>
     x \<in> set rs \<or> (\<exists>y \<in> set rs. x = decline_row now y)"
  unfolding decline_in_def by (induction rs) (auto split: if_splits)

lemma requests_ok_decline:
  assumes "requests_ok ids rs"
  shows "requests_ok ids (decline_in rid now rs)"
proof -
  have "distinct (map request_pair (filter pending (decline_in rid now rs)))"
    unfolding decline_in_pending using assms by (simp only: requests_ok_def distinct_map_filter)
  moreover have "r_requester x \<in> ids \<and> r_recipient x \<in> ids \<and> r_requester x \<noteq> r_recipient x \<and>
      (r_status x = ''pending'' \<or> r_status x = ''declined'')"
    if x: "x \<in> set (decline_in rid now rs)" for x
    using decline_in_rows [OF x]
  proof
    assume "x \<in> set rs"
    then show ?thesis using assms unfolding requests_ok_def by blast
  next
    assume "\<exists>y \<in> set rs. x = decline_row now y"
    then obtain y where y: "y \<in> set rs" "x = decline_row now y" by blast
    have "r_requester y \<in> ids \<and> r_recipient y \<in> ids \<and> r_requester y \<noteq> r_recipient y"
      using assms y(1) unfolding requests_ok_def by blast
    then show ?thesis using y(2) by simp
  qed
  moreover have "distinct (map r_id (decline_in rid now rs))"
    using assms unfolding decline_in_ids by (simp only: requests_ok_def)
  ultimately show ?thesis unfolding requests_ok_def by blast
qed

text \<open>Replacing the one row of an id is the same as declining every row with that id.\<close>

lemma put_decline_row:
  assumes "distinct (map r_id rs)" and "r \<in> set rs" and "r_id r = rid"
  shows "map (\<lambda>x. if r_id x = rid then decline_row now r else x) rs = decline_in rid now rs"
proof -
  have "(if r_id x = rid then decline_row now r else x) = (if r_id x = rid then decline_row now x else x)"
    if "x \<in> set rs" for x
    using distinct_map_inj [OF assms(1) that assms(2)] assms(3) by auto
  then show ?thesis unfolding decline_in_def by (intro map_cong) auto
qed

lemma wf_decline_pending_request: "wf_statement (decline_pending_request rid now)"
  unfolding wf_statement_def
proof (intro allI impI)
  fix db assume db: "db_wf db"
  show "db_wf (apply_writes (snd (decline_pending_request rid now db)) db)"
  proof (cases "request_by_id rid db")
    case None
    then show ?thesis using db by (simp add: decline_pending_request_def pending_by_id_single)
  next
    case (Some r)
    then have r: "r \<in> set (requests db)" "r_id r = rid"
      using find_SomeD by (fastforce simp: request_by_id_def)+
    have i: "r_id (decline_row now r) = rid" using r by (simp add: decline_row_def)
    show ?thesis
      using db Some requests_ok_decline [OF db_wfD(3) [OF db], of rid now] put_decline_row [OF _ r, of now] i
      by (simp add: decline_pending_request_def pending_by_id_single db_wf_def requests_ok_def)
  qed
qed

lemmas wf_contact_statements =
  wf_insert_contact wf_insert_contact_pair wf_delete_contact wf_delete_pending_request
  wf_insert_request wf_decline_pending_request wf_query

section \<open>The module as one dispatcher\<close>

text \<open>The routes of the module's router, each with what its request carries.\<close>

datatype contact_call =
    ListContacts
  | AddContact "string option"
  | RemoveContact uuid
  | ListRequests
  | CreateRequest create_request_payload
  | AcceptRequest uuid
  | DeclineRequest uuid
  | CancelRequest uuid

fun contacts_router ::
  "dbenv \<Rightarrow> lib \<Rightarrow> user_row \<Rightarrow> contact_call \<Rightarrow> live \<Rightarrow> database \<Rightarrow> response \<times> live \<times> database" where
  "contacts_router e L user ListContacts l db = (let (r, db') = list_contacts e L user db in (r, l, db'))"
| "contacts_router e L user (AddContact email) l db =
     (let (r, db') = add_contact e L user email db in (r, l, db'))"
| "contacts_router e L user (RemoveContact c) l db = remove_contact e L user c l db"
| "contacts_router e L user ListRequests l db =
     (let (r, db') = list_contact_requests e L user db in (r, l, db'))"
| "contacts_router e L user (CreateRequest payload) l db = create_contact_request e L user payload l db"
| "contacts_router e L user (AcceptRequest rid) l db = accept_contact_request e L user rid l db"
| "contacts_router e L user (DeclineRequest rid) l db =
     (let (r, db') = decline_contact_request e user rid db in (r, l, db'))"
| "contacts_router e L user (CancelRequest rid) l db =
     (let (r, db') = cancel_contact_request e user rid db in (r, l, db'))"

section \<open>Every handler keeps the constraints\<close>

lemma autocommit_cases:
  assumes "wf_statement st" and "peers_ok e" and "db_wf db" and "autocommit e i st db = (r, db')"
  shows "db_wf db'"
  using wf_autocommit [OF assms(1,2,3), of i] assms(4) by simp

lemma in_tx_cases:
  assumes "wf_statement st" and "peers_ok e" and "wf_tx t" and "in_tx e i st t = (r, t')"
  shows "wf_tx t'"
  using wf_in_tx [OF assms(1,2,3), of i] assms(4) by simp

lemma wf_tx_fst: "wf_tx t \<Longrightarrow> db_wf (fst t)"
  by (simp add: wf_tx_def)

lemma begin_tx_cases: "peers_ok e \<Longrightarrow> db_wf db \<Longrightarrow> begin_tx e i db = (r, t) \<Longrightarrow> wf_tx t"
  by (metis snd_conv wf_begin_tx)

lemma commit_tx_cases: "peers_ok e \<Longrightarrow> wf_tx t \<Longrightarrow> commit_tx e i t = (r, db') \<Longrightarrow> db_wf db'"
  by (metis snd_conv wf_commit_tx)

lemma load_recipient_cases:
  assumes "peers_ok e" and "wf_tx t" and "load_pending_request_as_recipient e i rid caller t = (r, t')"
  shows "wf_tx t'" and "r = Inr (a, b) \<Longrightarrow> a \<noteq> b"
proof -
  obtain q t1 where q: "in_tx e i (query (request_by_id rid)) t = (q, t1)" by (rule prod.exhaust)
  have w: "wf_tx t1" by (rule in_tx_cases [OF wf_query assms(1,2) q])
  have t': "t' = t1"
    using assms(3) q by (auto simp: load_pending_request_as_recipient_def split: sum.splits option.splits if_splits)
  show "wf_tx t'" using w t' by simp
  assume r: "r = Inr (a, b)"
  then obtain x where x: "q = Inr (Some x)" "a = r_requester x" "b = r_recipient x"
    using assms(3) q by (auto simp: load_pending_request_as_recipient_def split: sum.splits option.splits if_splits)
  let ?db = "apply_writes (snd t) (peers e i (snd t) (fst t))"
  have "db_wf ?db" using assms(1,2) by (auto simp: wf_tx_def intro: peers_okD)
  moreover have "x \<in> set (requests ?db)"
    using q x by (auto simp: in_tx_def Let_def request_by_id_def query_def dest: find_SomeD split: if_splits)
  ultimately show "a \<noteq> b" using x by (auto simp: db_wf_def requests_ok_def)
qed

lemma load_requester_cases:
  assumes "peers_ok e" and "wf_tx t" and "load_pending_request_as_requester e i rid caller t = (r, t')"
  shows "wf_tx t'"
proof -
  obtain q t1 where q: "in_tx e i (query (request_by_id rid)) t = (q, t1)" by (rule prod.exhaust)
  have "wf_tx t1" by (rule in_tx_cases [OF wf_query assms(1,2) q])
  then show ?thesis
    using assms(3) q by (auto simp: load_pending_request_as_requester_def split: sum.splits option.splits if_splits)
qed

lemma wf_accept:
  assumes "peers_ok e" and "fresh_ids e" and "db_wf db"
    and "accept_contact_request e L user rid l db = (resp, l', db')"
  shows "db_wf db'"
proof -
  obtain r0 t0 where 0: "begin_tx e 0 db = (r0, t0)" by (rule prod.exhaust)
  obtain r1 t1 where 1: "load_pending_request_as_recipient e 1 rid (u_id user) t0 = (r1, t1)" by (rule prod.exhaust)
  have w0: "wf_tx t0" by (rule begin_tx_cases [OF assms(1,3) 0])
  have w1: "wf_tx t1" by (rule load_recipient_cases(1) [OF assms(1) w0 1])
  show ?thesis
  proof (cases "\<exists>a b. r0 = Inr () \<and> r1 = Inr (a, b)")
    case False
    then show ?thesis
      using assms(4) 0 1 w0 w1 by (auto simp: accept_contact_request_def wf_tx_fst split: sum.splits)
  next
    case True
    then obtain a b where ab: "r0 = Inr ()" "r1 = Inr (a, b)" by blast
    have ne: "a \<noteq> b" using load_recipient_cases(2) [OF assms(1) w0 1 ab(2)] .
    have st: "wf_statement (insert_contact_pair (gen_id e) (clock e 0) a b)"
      using assms(2) ne by (intro wf_insert_contact_pair) (simp add: fresh_ids_def)
    obtain r2 t2 where 2: "in_tx e 2 (insert_contact_pair (gen_id e) (clock e 0) a b) t1 = (r2, t2)" by (rule prod.exhaust)
    obtain r3 t3 where 3: "in_tx e 3 (delete_pending_request rid) t2 = (r3, t3)" by (rule prod.exhaust)
    obtain r4 d4 where 4: "commit_tx e 4 t3 = (r4, d4)" by (rule prod.exhaust)
    have w2: "wf_tx t2" by (rule in_tx_cases [OF st assms(1) w1 2])
    have w3: "wf_tx t3" by (rule in_tx_cases [OF wf_delete_pending_request assms(1) w2 3])
    have w4: "db_wf d4" by (rule commit_tx_cases [OF assms(1) w3 4])
    show ?thesis
      using assms(4) 0 1 2 3 4 ab w2 w3 w4
      by (auto simp: accept_contact_request_def wf_tx_fst split: sum.splits if_splits)
  qed
qed

lemma wf_tx_statement_commit:
  assumes "wf_statement st" and "peers_ok e" and "wf_tx t" and "in_tx e i st t = (r, t')"
    and "commit_tx e j t' = (r', db')"
  shows "db_wf (fst t')" and "db_wf db'"
  using in_tx_cases [OF assms(1-4)] commit_tx_cases [OF assms(2) _ assms(5)] wf_tx_fst by blast+

lemma wf_remove:
  assumes "peers_ok e" and "db_wf db" and "remove_contact e L user c l db = (resp, l', db')"
  shows "db_wf db'"
proof -
  obtain r0 t0 where 0: "begin_tx e 0 db = (r0, t0)" by (rule prod.exhaust)
  obtain r1 t1 where 1: "in_tx e 1 (delete_contact (u_id user) c) t0 = (r1, t1)" by (rule prod.exhaust)
  obtain r2 t2 where 2: "in_tx e 2 (delete_contact c (u_id user)) t1 = (r2, t2)" by (rule prod.exhaust)
  obtain r3 d3 where 3: "commit_tx e 3 t2 = (r3, d3)" by (rule prod.exhaust)
  have w0: "wf_tx t0" by (rule begin_tx_cases [OF assms(1,2) 0])
  have w1: "wf_tx t1" by (rule in_tx_cases [OF wf_delete_contact assms(1) w0 1])
  note w2 = wf_tx_statement_commit [OF wf_delete_contact assms(1) w1 2 3]
  show ?thesis
    using assms(3) 0 1 2 3 w2 wf_tx_fst [OF w0] wf_tx_fst [OF w1]
    by (auto simp: remove_contact_def split: sum.splits if_splits)
qed

lemma wf_cancel:
  assumes "peers_ok e" and "db_wf db" and "cancel_contact_request e user rid db = (resp, db')"
  shows "db_wf db'"
proof -
  obtain r0 t0 where 0: "begin_tx e 0 db = (r0, t0)" by (rule prod.exhaust)
  obtain r1 t1 where 1: "load_pending_request_as_requester e 1 rid (u_id user) t0 = (r1, t1)" by (rule prod.exhaust)
  obtain r2 t2 where 2: "in_tx e 2 (delete_pending_request rid) t1 = (r2, t2)" by (rule prod.exhaust)
  obtain r3 d3 where 3: "commit_tx e 3 t2 = (r3, d3)" by (rule prod.exhaust)
  have w0: "wf_tx t0" by (rule begin_tx_cases [OF assms(1,2) 0])
  have w1: "wf_tx t1" by (rule load_requester_cases [OF assms(1) w0 1])
  note w2 = wf_tx_statement_commit [OF wf_delete_pending_request assms(1) w1 2 3]
  show ?thesis
    using assms(3) 0 1 2 3 w2 wf_tx_fst [OF w0] wf_tx_fst [OF w1]
    by (auto simp: cancel_contact_request_def split: sum.splits if_splits)
qed

lemma wf_decline:
  assumes "peers_ok e" and "db_wf db" and "decline_contact_request e user rid db = (resp, db')"
  shows "db_wf db'"
proof -
  obtain r0 t0 where 0: "begin_tx e 0 db = (r0, t0)" by (rule prod.exhaust)
  obtain r1 t1 where 1: "load_pending_request_as_recipient e 1 rid (u_id user) t0 = (r1, t1)" by (rule prod.exhaust)
  obtain r2 t2 where 2: "in_tx e 2 (decline_pending_request rid (clock e 0)) t1 = (r2, t2)" by (rule prod.exhaust)
  obtain r3 d3 where 3: "commit_tx e 3 t2 = (r3, d3)" by (rule prod.exhaust)
  have w0: "wf_tx t0" by (rule begin_tx_cases [OF assms(1,2) 0])
  have w1: "wf_tx t1" by (rule load_recipient_cases(1) [OF assms(1) w0 1])
  note w2 = wf_tx_statement_commit [OF wf_decline_pending_request assms(1) w1 2 3]
  show ?thesis
    using assms(3) 0 1 2 3 w2 wf_tx_fst [OF w0] wf_tx_fst [OF w1]
    by (auto simp: decline_contact_request_def split: sum.splits if_splits)
qed

lemma wf_add:
  assumes "peers_ok e" and "fresh_ids e" and "db_wf db" and "add_contact e L user email db = (resp, db')"
  shows "db_wf db'"
proof -
  let ?email = "case email of None \<Rightarrow> [] | Some s \<Rightarrow> s"
  obtain r0 d0 where 0: "autocommit e 0 (query (user_by_email ?email)) db = (r0, d0)" by (rule prod.exhaust)
  have w0: "db_wf d0" by (rule autocommit_cases [OF wf_query assms(1,3) 0])
  show ?thesis
  proof (cases "\<exists>t m. r0 = Inr (Some (t, m)) \<and> t \<noteq> u_id user")
    case False
    then show ?thesis
      using assms(4) 0 w0 by (auto simp: add_contact_def split: sum.splits option.splits)
  next
    case True
    then obtain t m where t: "r0 = Inr (Some (t, m))" "t \<noteq> u_id user" by blast
    obtain r1 d1 where 1: "autocommit e 1 (insert_contact (gen_id e) (clock e 1) (u_id user) t) d0 = (r1, d1)"
      by (rule prod.exhaust)
    have "wf_statement (insert_contact (gen_id e) (clock e 1) (u_id user) t)"
      using assms(2) t(2) by (intro wf_insert_contact) (auto simp: fresh_ids_def)
    then have "db_wf d1" by (rule autocommit_cases [OF _ assms(1) w0 1])
    then show ?thesis
      using assms(4) 0 1 t by (auto simp: add_contact_def split: sum.splits option.splits)
  qed
qed

lemma wf_insert_and_notify:
  assumes "peers_ok e" and "fresh_ids e" and "db_wf db" and "t \<noteq> u_id user"
    and "insert_and_notify e L user t l db = (resp, l', db')"
  shows "db_wf db'"
proof -
  obtain r d where 0: "autocommit e 3 (insert_request (gen_id e) (clock e 3) (u_id user) t) db = (r, d)"
    by (rule prod.exhaust)
  have "wf_statement (insert_request (gen_id e) (clock e 3) (u_id user) t)"
    using assms(2,4) by (intro wf_insert_request) (auto simp: fresh_ids_def)
  then have "db_wf d" by (rule autocommit_cases [OF _ assms(1,3) 0])
  then show ?thesis
    using assms(5) 0 by (auto simp: insert_and_notify_def split: sum.splits option.splits)
qed

lemma wf_find_target:
  assumes "peers_ok e" and "db_wf db" and "find_target e L payload db = (r, db')"
  shows "db_wf db'"
proof -
  have "db_wf (snd (autocommit e 0 (query f) db))" for f :: "database \<Rightarrow> (uuid \<times> string) option"
    using wf_autocommit [OF wf_query assms(1,2)] .
  then have "db_wf (snd (find_target e L payload db))"
    using assms(2) by (simp add: find_target_def case_prod_beta Let_def split: option.splits)
  then show ?thesis using assms(3) by simp
qed

lemma wf_create:
  assumes "peers_ok e" and "fresh_ids e" and "db_wf db"
    and "create_contact_request e L user payload l db = (resp, l', db')"
  shows "db_wf db'"
proof -
  obtain r0 d0 where 0: "find_target e L payload db = (r0, d0)" by (rule prod.exhaust)
  have w0: "db_wf d0" by (rule wf_find_target [OF assms(1,3) 0])
  show ?thesis
  proof (cases "\<exists>t m. r0 = Inr (Inr (Some (t, m))) \<and> t \<noteq> u_id user")
    case False
    then show ?thesis
      using assms(4) 0 w0 by (auto simp: create_contact_request_def split: sum.splits option.splits)
  next
    case True
    then obtain t m where t: "r0 = Inr (Inr (Some (t, m)))" "t \<noteq> u_id user" by blast
    obtain r1 d1 where 1: "autocommit e 1 (query (already_contact (u_id user) t)) d0 = (r1, d1)" by (rule prod.exhaust)
    obtain r2 d2 where 2: "autocommit e 2 (query (pending_request t (u_id user))) d1 = (r2, d2)" by (rule prod.exhaust)
    obtain r3 l3 d3 where 3: "insert_and_notify e L user t l d2 = (r3, l3, d3)" by (metis prod.exhaust)
    have w1: "db_wf d1" by (rule autocommit_cases [OF wf_query assms(1) w0 1])
    have w2: "db_wf d2" by (rule autocommit_cases [OF wf_query assms(1) w1 2])
    have w3: "db_wf d3" by (rule wf_insert_and_notify [OF assms(1,2) w2 t(2) 3])
    show ?thesis
      using assms(4) 0 1 2 3 t w1 w2 w3
      by (simp add: create_contact_request_def split: sum.splits option.splits bool.splits)
  qed
qed

lemma wf_lists:
  assumes "peers_ok e" and "db_wf db"
  shows "list_contacts e L user db = (resp, db') \<Longrightarrow> db_wf db'"
    and "list_contact_requests e L user db = (resp, db') \<Longrightarrow> db_wf db'"
proof -
  obtain r0 d0 where 0: "autocommit e 0 (query (contact_rows (u_id user))) db = (r0, d0)" by (rule prod.exhaust)
  have "db_wf d0" by (rule autocommit_cases [OF wf_query assms 0])
  then show "list_contacts e L user db = (resp, db') \<Longrightarrow> db_wf db'"
    using 0 by (simp add: list_contacts_def split: sum.splits)
next
  obtain r0 d0 where 0: "autocommit e 0 (query (party_rows r_recipient r_requester (u_id user))) db = (r0, d0)"
    by (rule prod.exhaust)
  obtain r1 d1 where 1: "autocommit e 1 (query (party_rows r_requester r_recipient (u_id user))) d0 = (r1, d1)"
    by (rule prod.exhaust)
  have w0: "db_wf d0" by (rule autocommit_cases [OF wf_query assms 0])
  have "db_wf d1" by (rule autocommit_cases [OF wf_query assms(1) w0 1])
  then show "list_contact_requests e L user db = (resp, db') \<Longrightarrow> db_wf db'"
    using 0 1 w0 by (simp add: list_contact_requests_def split: sum.splits)
qed

lemmas wf_handlers = wf_accept wf_remove wf_cancel wf_decline wf_add wf_create wf_lists

lemma contacts_router_wf:
  assumes "db_wf db" and "peers_ok e" and "fresh_ids e"
    and "contacts_router e L user call l db = (resp, l', db')"
  shows "db_wf db'"
proof (cases call)
  case (AcceptRequest rid)
  then show ?thesis using assms wf_accept by simp
next
  case (RemoveContact c)
  then show ?thesis using assms wf_remove by simp
next
  case (CreateRequest payload)
  then show ?thesis using assms wf_create by simp
next
  case (CancelRequest rid)
  then show ?thesis using assms wf_cancel by (auto split: prod.splits)
next
  case (DeclineRequest rid)
  then show ?thesis using assms wf_decline by (auto split: prod.splits)
next
  case (AddContact email)
  then show ?thesis using assms wf_add by (auto split: prod.splits)
next
  case ListContacts
  then show ?thesis using assms(4) wf_lists(1) [OF assms(2,1)] by (simp split: prod.splits)
next
  case ListRequests
  then show ?thesis using assms(4) wf_lists(2) [OF assms(2,1)] by (simp split: prod.splits)
qed

text \<open>
  Whatever the network does and whatever other sessions commit in between (within the
  constraints Postgres enforces), no request to the contacts module breaks a constraint of the
  database: ids and pairs stay unique, at most one pending request per ordered pair, nobody is
  their own contact or asks themselves, every reference points at a user.
\<close>

theorem contacts_router_keeps_constraints:
  assumes "db_wf db" and "peers_ok e" and "fresh_ids e"
    and "contacts_router e L user call l db = (resp, l', db')"
  shows "db_wf db'"
  by (rule contacts_router_wf [OF assms])

section \<open>A concrete database\<close>

definition sample_user :: "nat \<Rightarrow> string \<Rightarrow> user_row" where
  "sample_user n name =
     \<lparr>u_id = Uuid n, u_email = name @ ''@x'', u_email_verified = False, u_name = Some name,
      u_image = None, u_username = name, u_display_username = Some name, u_created_at = 0,
      u_updated_at = 0\<rparr>"

definition ana :: user_row where "ana = sample_user 1 ''ana''"
definition bob :: user_row where "bob = sample_user 2 ''bob''"
definition eve :: user_row where "eve = sample_user 3 ''eve''"

definition empty_db :: database where
  "empty_db = \<lparr>users = [ana, bob, eve], sessions = [], accounts = [], contacts = [], requests = [],
               user_keys = [], push_tokens = []\<rparr>"

definition quiet_live :: live where
  "quiet_live = \<lparr>registry = (\<lambda>_. None), inbox = (\<lambda>_. []), receiving = (\<lambda>_. False)\<rparr>"

fun uuid_number :: "uuid \<Rightarrow> nat" where
  "uuid_number (Uuid n) = n"

text \<open>An id above all that are used, and ten in an empty database.\<close>

definition next_id :: "database \<Rightarrow> uuid" where
  "next_id db =
     Uuid (Suc (foldr max (map uuid_number
        (map c_id (contacts db) @ map r_id (requests db) @ map p_id (push_tokens db))) 9))"

definition calm_env :: dbenv where
  "calm_env = \<lparr>net = (\<lambda>_. Up), peers = (\<lambda>_ _ db. db), gen_id = next_id, clock = (\<lambda>i. int i)\<rparr>"

lemma foldr_max_ge: "n \<in> set ns \<Longrightarrow> n \<le> foldr max ns (k::nat)"
  by (induction ns) auto

lemma next_id_fresh: "next_id db \<notin> row_ids db"
proof
  let ?ns = "map uuid_number
        (map c_id (contacts db) @ map r_id (requests db) @ map p_id (push_tokens db))"
  assume "next_id db \<in> row_ids db"
  then have "uuid_number (next_id db) \<in> set ?ns" unfolding row_ids_def by auto
  then have "uuid_number (next_id db) \<le> foldr max ?ns 9" by (rule foldr_max_ge)
  then show False by (simp add: next_id_def)
qed

lemma calm_env_ok [simp]: "peers_ok calm_env" "fresh_ids calm_env" "calm calm_env" "alone calm_env"
  by (simp_all add: peers_ok_def fresh_ids_def calm_env_def calm_def alone_def next_id_fresh)

lemma empty_db_wf: "db_wf empty_db"
  by code_simp

theorem contacts_router_keeps_constraints_witness:
  "db_wf (snd (snd (contacts_router calm_env sample_lib ana (AddContact (Some ''bob@x'')) quiet_live empty_db)))
   \<and> contacts (snd (snd (contacts_router calm_env sample_lib ana (AddContact (Some ''bob@x'')) quiet_live empty_db))) \<noteq> []"
proof -
  obtain r l d where e: "contacts_router calm_env sample_lib ana (AddContact (Some ''bob@x'')) quiet_live empty_db = (r, l, d)"
    by (metis prod.exhaust)
  have "db_wf d"
    by (rule contacts_router_keeps_constraints [OF empty_db_wf _ _ e]) simp_all
  moreover have "contacts (snd (snd (contacts_router calm_env sample_lib ana (AddContact (Some ''bob@x'')) quiet_live empty_db))) \<noteq> []"
    by code_simp
  ultimately show ?thesis using e by simp
qed

end
