(* ===== verification/Api_Contacts_Spec.thy ===== *)
theory Api_Contacts_Spec
  imports Api_Contacts_Correct
begin

text \<open>
  The abstract contract of the contacts module: who lists whom as a contact and which requests
  are open, with one rule per thing a caller can achieve. The handlers, run against a database
  that nobody else changes and over a connection that may break at any round trip, take one such
  step completely or change nothing, and a success answer means the step was taken.
\<close>

section \<open>The abstract state\<close>

text \<open>A request is open or was declined; an accepted or cancelled one is gone.\<close>

record social =
  edges :: "(uuid \<times> uuid) set"
  reqs :: "uuid \<Rightarrow> (uuid \<times> uuid \<times> bool) option"

definition social_of :: "database \<Rightarrow> social" where
  "social_of db =
     \<lparr>edges = contact_pair ` set (contacts db),
      reqs = (\<lambda>i. map_option (\<lambda>r. (r_requester r, r_recipient r, pending r)) (request_by_id i db))\<rparr>"

text \<open>What \<open>me\<close> can do to the state.\<close>

inductive social_step :: "uuid \<Rightarrow> contact_call \<Rightarrow> social \<Rightarrow> social \<Rightarrow> bool" where
  look: "c = ListContacts \<or> c = ListRequests \<Longrightarrow> social_step me c s s"
| add: "other \<noteq> me \<Longrightarrow> (me, other) \<notin> edges s \<Longrightarrow>
     social_step me (AddContact email) s (s\<lparr>edges := insert (me, other) (edges s)\<rparr>)"
| remove: "(me, other) \<in> edges s \<Longrightarrow>
     social_step me (RemoveContact other) s (s\<lparr>edges := edges s - {(me, other), (other, me)}\<rparr>)"
| request: "other \<noteq> me \<Longrightarrow> (me, other) \<notin> edges s \<Longrightarrow> (other, me) \<notin> edges s \<Longrightarrow>
     (\<forall>i. reqs s i \<noteq> Some (me, other, True) \<and> reqs s i \<noteq> Some (other, me, True)) \<Longrightarrow>
     reqs s rid = None \<Longrightarrow>
     social_step me (CreateRequest p) s (s\<lparr>reqs := (reqs s)(rid \<mapsto> (me, other, True))\<rparr>)"
| accept: "reqs s rid = Some (other, me, True) \<Longrightarrow>
     social_step me (AcceptRequest rid) s
       (s\<lparr>edges := edges s \<union> {(me, other), (other, me)}, reqs := (reqs s)(rid := None)\<rparr>)"
| decline: "reqs s rid = Some (other, me, True) \<Longrightarrow>
     social_step me (DeclineRequest rid) s (s\<lparr>reqs := (reqs s)(rid \<mapsto> (other, me, False))\<rparr>)"
| cancel: "reqs s rid = Some (me, other, True) \<Longrightarrow>
     social_step me (CancelRequest rid) s (s\<lparr>reqs := (reqs s)(rid := None)\<rparr>)"

inductive_simps social_step_accept_iff: "social_step me (AcceptRequest rid) s s'"
inductive_cases social_stepE: "social_step me c s s'"

section \<open>Statements without other sessions\<close>

lemma alone_autocommit:
  assumes "alone e"
  shows "autocommit e i st db =
     (case net e i of
        Up \<Rightarrow> (fst (st db), apply_writes (snd (st db)) db)
      | LostBefore \<Rightarrow> (Inl Unavailable, db)
      | LostAfter \<Rightarrow> (Inl Unavailable, apply_writes (snd (st db)) db))"
  using assms by (simp add: alone_def autocommit_def Let_def)

lemma alone_query:
  "alone e \<Longrightarrow> autocommit e i (query f) db = (if net e i = Up then Inr (f db) else Inl Unavailable, db)"
  by (cases "net e i") (simp_all add: alone_autocommit)

lemma alone_begin: "alone e \<Longrightarrow> begin_tx e i db = (if net e i = Up then Inr () else Inl Unavailable, db, [])"
  by (simp add: alone_def begin_tx_def Let_def)

lemma alone_in_tx:
  "alone e \<Longrightarrow> in_tx e i st (d, ws) =
     (if net e i = Up then (fst (st (apply_writes ws d)), d, ws @ snd (st (apply_writes ws d)))
      else (Inl Unavailable, d, ws))"
  by (simp add: alone_def in_tx_def Let_def split: prod.splits)

lemma alone_commit:
  "alone e \<Longrightarrow> commit_tx e i (d, ws) =
     (case net e i of
        Up \<Rightarrow> (Inr (), apply_writes ws d)
      | LostBefore \<Rightarrow> (Inl Unavailable, d)
      | LostAfter \<Rightarrow> (Inl Unavailable, apply_writes ws d))"
  by (simp add: alone_def commit_tx_def Let_def)

lemmas alone_simps = alone_query alone_begin alone_in_tx alone_commit

section \<open>The statements on the abstract state\<close>

lemma request_by_id_contacts [simp]: "request_by_id i (db\<lparr>contacts := cs\<rparr>) = request_by_id i db"
  by (simp add: request_by_id_def)

lemma social_of_contacts:
  "social_of (db\<lparr>contacts := cs\<rparr>) = (social_of db)\<lparr>edges := contact_pair ` set cs\<rparr>"
  by (simp add: social_of_def request_by_id_def)

lemma insert_contact_social:
  assumes "insert_contact gen t a b db = (r, ws)"
  shows "r = Inl ForeignKeyViolation \<and> ws = [] \<or>
     r = Inr None \<and> ws = [] \<and> (a, b) \<in> edges (social_of db) \<or>
     r = Inr (Some t) \<and> (a, b) \<notin> edges (social_of db) \<and>
       social_of (apply_writes ws db) = (social_of db)\<lparr>edges := insert (a, b) (edges (social_of db))\<rparr>"
  using assms
  by (auto simp: insert_contact_def social_of_contacts has_contact_iff contact_pair_def social_of_def
      split: if_splits)

lemma insert_contact_pair_social:
  assumes "insert_contact_pair gen t a b db = (r, ws)"
  shows "r = Inl ForeignKeyViolation \<and> ws = [] \<or>
     r = Inr () \<and>
       social_of (apply_writes ws db) = (social_of db)\<lparr>edges := edges (social_of db) \<union> {(a, b), (b, a)}\<rparr>"
proof -
  obtain r1 ws1 where 1: "insert_contact gen t a b db = (r1, ws1)" by (rule prod.exhaust)
  obtain r2 ws2 where 2: "insert_contact gen t b a (apply_writes ws1 db) = (r2, ws2)" by (rule prod.exhaust)
  show ?thesis
    using assms 1 2 insert_contact_social [OF 1] insert_contact_social [OF 2]
    by (auto simp: insert_contact_pair_def insert_commute insert_absorb split: sum.splits)
qed

lemma delete_contact_social:
  assumes "delete_contact a b db = (r, ws)"
  shows "\<exists>n. r = Inr n \<and> (n = 0 \<longleftrightarrow> (a, b) \<notin> edges (social_of db))"
    and "db_wf db \<Longrightarrow> social_of (apply_writes ws db) = (social_of db)\<lparr>edges := edges (social_of db) - {(a, b)}\<rparr>"
proof -
  have "(a, b) \<in> edges (social_of db) \<longleftrightarrow> (\<exists>c \<in> set (contacts db). contact_pair c = (a, b))"
    by (auto simp: social_of_def image_iff) (metis)+
  then show "\<exists>n. r = Inr n \<and> (n = 0 \<longleftrightarrow> (a, b) \<notin> edges (social_of db))"
    using assms by (auto simp: delete_contact_def filter_empty_conv Let_def)
next
  assume wf: "db_wf db"
  have d: "distinct (map c_id (contacts db))" using db_wfD(2) [OF wf] by (simp add: contacts_ok_def)
  have ws: "ws = map DelContact (map c_id (filter (\<lambda>c. contact_pair c = (a, b)) (contacts db)))"
    using assms by (simp add: delete_contact_def Let_def)
  have "{c \<in> set (contacts db). c_id c \<notin> c_id ` {c \<in> set (contacts db). contact_pair c = (a, b)}} =
        {c \<in> set (contacts db). contact_pair c \<noteq> (a, b)}"
    using distinct_map_inj [OF d] by blast
  then have "contact_pair ` set (filter (\<lambda>c. c_id c \<notin> set (map c_id (filter (\<lambda>c. contact_pair c = (a, b)) (contacts db)))) (contacts db))
       = contact_pair ` set (contacts db) - {(a, b)}"
    by auto
  then show "social_of (apply_writes ws db) = (social_of db)\<lparr>edges := edges (social_of db) - {(a, b)}\<rparr>"
    unfolding ws apply_del_contacts social_of_contacts by (simp add: social_of_def)
qed

lemma reqs_social: "reqs (social_of db) i = map_option (\<lambda>r. (r_requester r, r_recipient r, pending r)) (request_by_id i db)"
  by (simp add: social_of_def)

lemma find_filter_neq: "find P (filter Q xs) = find (\<lambda>x. P x \<and> Q x) xs"
  by (induction xs) auto

lemma delete_pending_social:
  assumes "db_wf db" and "delete_pending_request rid db = (r, ws)"
    and "reqs (social_of db) rid = Some (a, b, True)"
  shows "r = Inr 1" and "social_of (apply_writes ws db) = (social_of db)\<lparr>reqs := (reqs (social_of db))(rid := None)\<rparr>"
proof -
  obtain x where x: "request_by_id rid db = Some x" "pending x"
    using assms(3) by (auto simp: reqs_social)
  have i: "r_id x = rid" using x(1) find_SomeD by (fastforce simp: request_by_id_def)
  have p: "pending_by_id rid db = [x]" using x by (simp add: pending_by_id_single [OF assms(1)])
  show "r = Inr 1" using assms(2) p by (simp add: delete_pending_request_def)
  have ws: "ws = [DelRequest rid]" using assms(2) p i by (simp add: delete_pending_request_def)
  have "request_by_id j (db\<lparr>requests := filter (\<lambda>r. r_id r \<noteq> rid) (requests db)\<rparr>) =
      (if j = rid then None else request_by_id j db)" for j
    by (auto simp: request_by_id_def find_filter_neq find_None_iff intro: find_cong)
  then show "social_of (apply_writes ws db) = (social_of db)\<lparr>reqs := (reqs (social_of db))(rid := None)\<rparr>"
    by (auto simp: ws social_of_def)
qed

lemma decline_pending_social:
  assumes "db_wf db" and "decline_pending_request rid now db = (r, ws)"
    and "reqs (social_of db) rid = Some (a, b, True)"
  shows "r = Inr 1" and "social_of (apply_writes ws db) = (social_of db)\<lparr>reqs := (reqs (social_of db))(rid \<mapsto> (a, b, False))\<rparr>"
proof -
  obtain x where x: "request_by_id rid db = Some x" "pending x" "r_requester x = a" "r_recipient x = b"
    using assms(3) by (auto simp: reqs_social)
  have p: "pending_by_id rid db = [x]" using x by (simp add: pending_by_id_single [OF assms(1)])
  have m: "x \<in> set (requests db)" "r_id x = rid"
    using x(1) find_SomeD by (fastforce simp: request_by_id_def)+
  have d: "distinct (map r_id (requests db))" using db_wfD(3) [OF assms(1)] by (simp add: requests_ok_def)
  show "r = Inr 1" using assms(2) p by (simp add: decline_pending_request_def)
  have "ws = [PutRequest (decline_row now x)]"
    using assms(2) p by (simp add: decline_pending_request_def)
  then have ws: "apply_writes ws db = db\<lparr>requests := decline_in rid now (requests db)\<rparr>"
    by (simp add: m(2) put_decline_row [OF d m])
  have "find (\<lambda>r. r_id r = j) (decline_in rid now rs) =
      (if j = rid then map_option (decline_row now) (find (\<lambda>r. r_id r = j) rs)
       else find (\<lambda>r. r_id r = j) rs)" for j rs
    unfolding decline_in_def by (induction rs) auto
  then show "social_of (apply_writes ws db) = (social_of db)\<lparr>reqs := (reqs (social_of db))(rid \<mapsto> (a, b, False))\<rparr>"
    using x by (auto simp: ws social_of_def request_by_id_def)
qed

lemma pending_request_social:
  assumes "db_wf db"
  shows "pending_request a b db = None \<longleftrightarrow> (\<forall>i. reqs (social_of db) i \<noteq> Some (a, b, True))"
proof
  assume n: "pending_request a b db = None"
  show "\<forall>i. reqs (social_of db) i \<noteq> Some (a, b, True)"
  proof (intro allI notI)
    fix i assume "reqs (social_of db) i = Some (a, b, True)"
    then obtain x where "request_by_id i db = Some x" "pending x" "request_pair x = (a, b)"
      by (auto simp: reqs_social request_pair_def)
    then show False using n find_SomeD by (fastforce simp: pending_request_None request_by_id_def image_iff)
  qed
next
  assume a: "\<forall>i. reqs (social_of db) i \<noteq> Some (a, b, True)"
  have d: "distinct (map r_id (requests db))" using db_wfD(3) [OF assms] by (simp add: requests_ok_def)
  have False if "x \<in> set (requests db)" "pending x" "request_pair x = (a, b)" for x
    using a [rule_format, of "r_id x"] find_unique [OF d that(1)] that
    by (simp add: reqs_social request_by_id_def request_pair_def)
  then show "pending_request a b db = None" by (force simp: pending_request_None)
qed

lemma find_snoc:
  "find P (xs @ [y]) = (case find P xs of Some x \<Rightarrow> Some x | None \<Rightarrow> if P y then Some y else None)"
  by (induction xs) auto

lemma social_of_snoc:
  assumes "request_by_id (r_id row) db = None"
  shows "social_of (db\<lparr>requests := requests db @ [row]\<rparr>) =
     (social_of db)\<lparr>reqs := (reqs (social_of db))(r_id row \<mapsto> (r_requester row, r_recipient row, pending row))\<rparr>"
  using assms
  by (auto simp: social_of_def request_by_id_def find_snoc fun_eq_iff split: option.splits)

lemma insert_request_social:
  assumes "db_wf db" and "gen db \<notin> row_ids db" and "insert_request gen t a b db = (r, ws)"
  shows "r = Inl ForeignKeyViolation \<and> ws = [] \<or>
     r = Inr None \<and> ws = [] \<or>
     (\<exists>row. r = Inr (Some row) \<and> r_id row = gen db \<and> reqs (social_of db) (gen db) = None \<and>
       (\<forall>i. reqs (social_of db) i \<noteq> Some (a, b, True)) \<and>
       social_of (apply_writes ws db) = (social_of db)\<lparr>reqs := (reqs (social_of db))(gen db \<mapsto> (a, b, True))\<rparr>)"
proof -
  have n: "request_by_id (gen db) db = None"
    using assms(2) by (force simp: request_by_id_def find_None_iff row_ids_def)
  show ?thesis
    using assms(3) n pending_request_social [OF assms(1), of a b]
    by (auto simp: insert_request_def Let_def social_of_snoc reqs_social pending_def split: if_splits)
qed

section \<open>The handlers take abstract steps\<close>

definition all_or_nothing :: "uuid \<Rightarrow> contact_call \<Rightarrow> database \<Rightarrow> response \<Rightarrow> database \<Rightarrow> bool" where
  "all_or_nothing me call db resp db' \<longleftrightarrow>
     social_step me call (social_of db) (social_of db') \<or> db' = db \<and> 400 \<le> status_of resp"

lemma failedI: "db' = db \<Longrightarrow> 400 \<le> status_of resp \<Longrightarrow> all_or_nothing me call db resp db'"
  by (simp add: all_or_nothing_def)

lemma achievedI: "social_step me call (social_of db) (social_of db') \<Longrightarrow> all_or_nothing me call db resp db'"
  by (simp add: all_or_nothing_def)

lemma status_internal [simp]: "status_of internal_error = 500"
  by (simp add: internal_error_def)

lemma status_load_error [simp]: "400 \<le> status_of (load_error_response err)"
  by (cases err) simp_all

text \<open>What a loaded request says about the abstract state.\<close>

lemma load_recipient_alone:
  assumes "alone e" and "load_pending_request_as_recipient e i rid me (db, []) = (r, t)"
  shows "t = (db, [])" and "r = Inr (a, b) \<Longrightarrow> b = me \<and> reqs (social_of db) rid = Some (a, me, True)"
  using assms
  by (auto simp: load_pending_request_as_recipient_def alone_simps reqs_social pending_def
      split: option.splits if_splits)

lemma load_requester_alone:
  assumes "alone e" and "load_pending_request_as_requester e i rid me (db, []) = (r, t)"
  shows "t = (db, [])" and "r = Inr u \<Longrightarrow> \<exists>b. reqs (social_of db) rid = Some (me, b, True)"
  using assms
  by (auto simp: load_pending_request_as_requester_def alone_simps reqs_social pending_def
      split: option.splits if_splits)

lemma delete_pending_same_contacts:
  "delete_pending_request rid db = (r, ws) \<Longrightarrow> contacts (apply_writes ws db) = contacts db"
  by (auto simp: delete_pending_request_def Let_def apply_del_requests simp del: map_map)

lemma accept_refines:
  assumes "alone e" and "fresh_ids e" and "db_wf db"
    and "accept_contact_request e L user rid l db = (resp, l', db')"
  shows "all_or_nothing (u_id user) (AcceptRequest rid) db resp db'"
proof -
  obtain r1 t1 where 1: "load_pending_request_as_recipient e 1 rid (u_id user) (db, []) = (r1, t1)" by (rule prod.exhaust)
  have t1: "t1 = (db, [])" by (rule load_recipient_alone(1) [OF assms(1) 1])
  show ?thesis
  proof (cases "net e 0 = Up \<and> (\<exists>a b. r1 = Inr (a, b))")
    case False
    then show ?thesis
      using assms(4) 1 t1
      by (intro failedI) (auto simp: accept_contact_request_def alone_begin [OF assms(1)] split: sum.splits if_splits)
  next
    case True
    then obtain a b where ab: "net e 0 = Up" "r1 = Inr (a, b)" by blast
    have s: "b = u_id user" "reqs (social_of db) rid = Some (a, b, True)"
      using load_recipient_alone(2) [OF assms(1) 1 ab(2)] by simp_all
    obtain r2 ws where 2: "insert_contact_pair (gen_id e) (clock e 0) a b db = (r2, ws)" by (rule prod.exhaust)
    let ?d = "apply_writes ws db"
    obtain r3 vs where 3: "delete_pending_request rid ?d = (r3, vs)" by (rule prod.exhaust)
    have "a \<noteq> b" using db_wfD(3) [OF assms(3)] s(2) find_SomeD
      by (fastforce simp: reqs_social requests_ok_def request_by_id_def)
    then have wf: "db_wf ?d"
      using wf_statementD [OF wf_insert_contact_pair assms(3), of "gen_id e" a b "clock e 0"] assms(2) 2
      by (simp add: fresh_ids_def)
    from insert_contact_pair_social [OF 2] show ?thesis
    proof
      assume "r2 = Inl ForeignKeyViolation \<and> ws = []"
      then show ?thesis
        using assms(4) 1 2 ab t1
        by (intro failedI)
           (auto simp: accept_contact_request_def alone_simps [OF assms(1)] split: if_splits)
    next
      assume "r2 = Inr () \<and> social_of ?d = (social_of db)\<lparr>edges := edges (social_of db) \<union> {(a, b), (b, a)}\<rparr>"
      then have r2: "r2 = Inr ()" and d: "social_of ?d = (social_of db)\<lparr>edges := edges (social_of db) \<union> {(a, b), (b, a)}\<rparr>" by simp_all
      have p: "reqs (social_of ?d) rid = Some (a, b, True)" using s(2) d by simp
      have r3: "r3 = Inr 1" and d3: "social_of (apply_writes vs ?d) = (social_of ?d)\<lparr>reqs := (reqs (social_of ?d))(rid := None)\<rparr>"
        using delete_pending_social [OF wf 3 p] by simp_all
      have step: "social_step (u_id user) (AcceptRequest rid) (social_of db) (social_of (apply_writes vs ?d))"
        unfolding d3 d using s by (auto simp: social_step_accept_iff insert_commute)
      have "db' = db \<and> 400 \<le> status_of resp \<or> db' = apply_writes vs ?d"
        using assms(4) 1 2 3 ab t1 r2 r3
        by (auto simp: accept_contact_request_def alone_simps [OF assms(1)] split: if_splits link.splits)
      then show ?thesis using step by (auto simp: all_or_nothing_def)
    qed
  qed
qed

lemma cancel_refines:
  assumes "alone e" and "db_wf db" and "cancel_contact_request e user rid db = (resp, db')"
  shows "all_or_nothing (u_id user) (CancelRequest rid) db resp db'"
proof -
  obtain r1 t1 where 1: "load_pending_request_as_requester e 1 rid (u_id user) (db, []) = (r1, t1)" by (rule prod.exhaust)
  have t1: "t1 = (db, [])" by (rule load_requester_alone(1) [OF assms(1) 1])
  show ?thesis
  proof (cases "net e 0 = Up \<and> r1 = Inr ()")
    case False
    then show ?thesis
      using assms(3) 1 t1
      by (intro failedI) (auto simp: cancel_contact_request_def alone_begin [OF assms(1)] split: sum.splits if_splits)
  next
    case True
    then obtain b where s: "reqs (social_of db) rid = Some (u_id user, b, True)"
      using load_requester_alone(2) [OF assms(1) 1] by blast
    obtain r2 ws where 2: "delete_pending_request rid db = (r2, ws)" by (rule prod.exhaust)
    note d = delete_pending_social [OF assms(2) 2 s]
    have "social_step (u_id user) (CancelRequest rid) (social_of db) (social_of (apply_writes ws db))"
      unfolding d(2) by (rule social_step.cancel [OF s])
    moreover have "db' = db \<and> 400 \<le> status_of resp \<or> db' = apply_writes ws db"
      using assms(3) 1 2 True t1 d(1)
      by (auto simp: cancel_contact_request_def alone_simps [OF assms(1)] split: if_splits link.splits)
    ultimately show ?thesis by (auto simp: all_or_nothing_def)
  qed
qed

lemma decline_refines:
  assumes "alone e" and "db_wf db" and "decline_contact_request e user rid db = (resp, db')"
  shows "all_or_nothing (u_id user) (DeclineRequest rid) db resp db'"
proof -
  obtain r1 t1 where 1: "load_pending_request_as_recipient e 1 rid (u_id user) (db, []) = (r1, t1)" by (rule prod.exhaust)
  have t1: "t1 = (db, [])" by (rule load_recipient_alone(1) [OF assms(1) 1])
  show ?thesis
  proof (cases "net e 0 = Up \<and> (\<exists>a b. r1 = Inr (a, b))")
    case False
    then show ?thesis
      using assms(3) 1 t1
      by (intro failedI) (auto simp: decline_contact_request_def alone_begin [OF assms(1)] split: sum.splits if_splits)
  next
    case True
    then obtain a b where ab: "net e 0 = Up" "r1 = Inr (a, b)" by blast
    have s: "reqs (social_of db) rid = Some (a, u_id user, True)"
      using load_recipient_alone(2) [OF assms(1) 1 ab(2)] by simp
    obtain r2 ws where 2: "decline_pending_request rid (clock e 0) db = (r2, ws)" by (rule prod.exhaust)
    note d = decline_pending_social [OF assms(2) 2 s]
    have "social_step (u_id user) (DeclineRequest rid) (social_of db) (social_of (apply_writes ws db))"
      unfolding d(2) by (rule social_step.decline [OF s])
    moreover have "db' = db \<and> 400 \<le> status_of resp \<or> db' = apply_writes ws db"
      using assms(3) 1 2 ab t1 d(1)
      by (auto simp: decline_contact_request_def alone_simps [OF assms(1)] split: if_splits link.splits)
    ultimately show ?thesis by (auto simp: all_or_nothing_def)
  qed
qed

lemma remove_refines:
  assumes "alone e" and "db_wf db" and "remove_contact e L user c l db = (resp, l', db')"
  shows "all_or_nothing (u_id user) (RemoveContact c) db resp db'"
proof -
  let ?me = "u_id user"
  obtain r1 ws where 1: "delete_contact ?me c db = (r1, ws)" by (rule prod.exhaust)
  let ?d = "apply_writes ws db"
  obtain r2 vs where 2: "delete_contact c ?me ?d = (r2, vs)" by (rule prod.exhaust)
  obtain n where n: "r1 = Inr n" "n = 0 \<longleftrightarrow> (?me, c) \<notin> edges (social_of db)"
    using delete_contact_social(1) [OF 1] by blast
  obtain m where m: "r2 = Inr m" using delete_contact_social(1) [OF 2] by blast
  have wf: "db_wf ?d" using wf_statementD [OF wf_delete_contact assms(2), of ?me c] 1 by simp
  note d1 = delete_contact_social(2) [OF 1 assms(2)]
  note d2 = delete_contact_social(2) [OF 2 wf]
  show ?thesis
  proof (cases "(?me, c) \<in> edges (social_of db)")
    case False
    then show ?thesis
      using assms(3) 1 n
      by (intro failedI) (auto simp: remove_contact_def alone_simps [OF assms(1)] split: if_splits)
  next
    case True
    have e: "edges (social_of db) - {(?me, c)} - {(c, ?me)} = edges (social_of db) - {(?me, c), (c, ?me)}" by auto
    have "social_step ?me (RemoveContact c) (social_of db) (social_of (apply_writes vs ?d))"
      unfolding d2 d1 using social_step.remove [OF True] by (simp add: e)
    moreover have "db' = db \<and> 400 \<le> status_of resp \<or> db' = apply_writes vs ?d"
      using assms(3) 1 2 n m True
      by (auto simp: remove_contact_def alone_simps [OF assms(1)] split: if_splits link.splits)
    ultimately show ?thesis by (auto simp: all_or_nothing_def)
  qed
qed

lemma add_refines:
  assumes "alone e" and "add_contact e L user email db = (resp, db')"
  shows "all_or_nothing (u_id user) (AddContact email) db resp db'"
proof -
  let ?email = "case email of None \<Rightarrow> [] | Some s \<Rightarrow> s"
  show ?thesis
  proof (cases "net e 0 = Up \<and> (\<exists>t m. user_by_email ?email db = Some (t, m) \<and> t \<noteq> u_id user)")
    case False
    then show ?thesis
      using assms(2)
      by (intro failedI) (auto simp: add_contact_def alone_query [OF assms(1)] split: option.splits if_splits)
  next
    case True
    then obtain t m where t: "net e 0 = Up" "user_by_email ?email db = Some (t, m)" "t \<noteq> u_id user" by blast
    obtain r ws where 1: "insert_contact (gen_id e) (clock e 1) (u_id user) t db = (r, ws)" by (rule prod.exhaust)
    from assms(2) t 1 have o: "db' = db \<and> 400 \<le> status_of resp \<or> db' = apply_writes ws db \<and> (ws = [] \<longrightarrow> \<not> (\<exists>v. r = Inr (Some v)) \<longrightarrow> 400 \<le> status_of resp)"
      by (auto simp: add_contact_def alone_query [OF assms(1)] alone_autocommit [OF assms(1)]
          split: link.splits option.splits sum.splits)
    show ?thesis
      using insert_contact_social [OF 1] o social_step.add [OF t(3), of "social_of db" email]
      by (auto simp: all_or_nothing_def)
  qed
qed

lemma find_target_alone:
  "alone e \<Longrightarrow> snd (find_target e L payload db) = db"
  by (simp add: find_target_def alone_query case_prod_beta Let_def split: option.splits)

lemma find_target_status:
  "find_target e L payload db = (Inl resp, db') \<Longrightarrow> status_of resp = 400"
  by (auto simp: find_target_def case_prod_beta Let_def split: option.splits)

lemma already_contact_social:
  "already_contact a b db \<longleftrightarrow> (a, b) \<in> edges (social_of db) \<or> (b, a) \<in> edges (social_of db)"
  by (simp add: already_contact_def has_contact_iff social_of_def)

lemma create_refines:
  assumes "alone e" and "fresh_ids e" and "db_wf db"
    and "create_contact_request e L user payload l db = (resp, l', db')"
  shows "all_or_nothing (u_id user) (CreateRequest payload) db resp db'"
proof -
  let ?me = "u_id user"
  obtain r0 d0 where 0: "find_target e L payload db = (r0, d0)" by (rule prod.exhaust)
  have d0: "d0 = db" using find_target_alone [OF assms(1), of L payload db] 0 by simp
  show ?thesis
  proof (cases "\<exists>t m. r0 = Inr (Inr (Some (t, m))) \<and> t \<noteq> ?me")
    case False
    then show ?thesis
      using assms(4) 0 d0 find_target_status [of e L payload db _ d0]
      by (intro failedI) (auto simp: create_contact_request_def split: sum.splits option.splits)
  next
    case True
    then obtain t m where t: "r0 = Inr (Inr (Some (t, m)))" "t \<noteq> ?me" by blast
    show ?thesis
    proof (cases "net e 1 = Up \<and> net e 2 = Up \<and> \<not> already_contact ?me t db \<and> pending_request t ?me db = None")
      case False
      then show ?thesis
        using assms(4) 0 d0 t
        by (intro failedI)
           (auto simp: create_contact_request_def alone_query [OF assms(1)] split: if_splits option.splits bool.splits)
    next
      case ok: True
      obtain r ws where 3: "insert_request (gen_id e) (clock e 3) ?me t db = (r, ws)" by (rule prod.exhaust)
      have fresh: "gen_id e db \<notin> row_ids db" using assms(2) by (simp add: fresh_ids_def)
      have none: "\<forall>i. reqs (social_of db) i \<noteq> Some (t, ?me, True)"
        using ok pending_request_social [OF assms(3), of t ?me] by simp
      have o: "db' = db \<and> 400 \<le> status_of resp \<or> db' = apply_writes ws db \<and> ((\<exists>v. r = Inr (Some v)) \<or> 400 \<le> status_of resp)"
        using assms(4) 0 d0 t ok 3
        by (auto simp: create_contact_request_def insert_and_notify_def alone_query [OF assms(1)]
            alone_autocommit [OF assms(1)] split: link.splits option.splits sum.splits)
      from insert_request_social [where gen = "gen_id e", OF assms(3) fresh 3]
      consider "ws = []" "\<not> (\<exists>v. r = Inr (Some v))"
        | "reqs (social_of db) (gen_id e db) = None" "\<forall>i. reqs (social_of db) i \<noteq> Some (?me, t, True)"
          "social_of (apply_writes ws db) = (social_of db)\<lparr>reqs := (reqs (social_of db))(gen_id e db \<mapsto> (?me, t, True))\<rparr>"
        by auto
      then show ?thesis
      proof cases
        case 1
        then show ?thesis using o by (auto intro: failedI)
      next
        case 2
        have "social_step ?me (CreateRequest payload) (social_of db) (social_of (apply_writes ws db))"
          unfolding 2(3) using t(2) ok none 2(1,2)
          by (intro social_step.request) (auto simp: already_contact_social)
        then show ?thesis using o by (auto simp: all_or_nothing_def)
      qed
    qed
  qed
qed

lemma lists_refine:
  assumes "alone e"
  shows "list_contacts e L user db = (resp, db') \<Longrightarrow> db' = db"
    and "list_contact_requests e L user db = (resp, db') \<Longrightarrow> db' = db"
  using assms
  by (auto simp: list_contacts_def list_contact_requests_def alone_query split: if_splits)

lemma lists_step: "db' = db \<Longrightarrow> c = ListContacts \<or> c = ListRequests \<Longrightarrow> all_or_nothing me c db resp db'"
  by (auto simp: all_or_nothing_def intro: social_step.look)

lemma contacts_router_refines:
  assumes "db_wf db" and "alone e" and "fresh_ids e"
    and "contacts_router e L user call l db = (resp, l', db')"
  shows "all_or_nothing (u_id user) call db resp db'"
proof (cases call)
  case (AcceptRequest rid)
  then show ?thesis using assms accept_refines by simp
next
  case (RemoveContact c)
  then show ?thesis using assms remove_refines by simp
next
  case (CreateRequest payload)
  then show ?thesis using assms create_refines by simp
next
  case (CancelRequest rid)
  then show ?thesis using assms cancel_refines by (simp split: prod.splits)
next
  case (DeclineRequest rid)
  then show ?thesis using assms decline_refines by (simp split: prod.splits)
next
  case (AddContact email)
  then show ?thesis using assms add_refines by (simp split: prod.splits)
next
  case ListContacts
  then show ?thesis using assms lists_refine(1) by (auto intro!: lists_step split: prod.splits)
next
  case ListRequests
  then show ?thesis using assms lists_refine(2) by (auto intro!: lists_step split: prod.splits)
qed


text \<open>Bob's request to Ana is open; she accepts, and the commit's answer is lost.\<close>

definition asked_db :: database where
  "asked_db = empty_db\<lparr>requests :=
     [\<lparr>r_id = Uuid 7, r_requester = Uuid 2, r_recipient = Uuid 1, r_status = ''pending'',
       r_created_at = 0, r_responded_at = None\<rparr>]\<rparr>"

definition lossy_env :: dbenv where
  "lossy_env = calm_env\<lparr>net := (\<lambda>i. if i = 4 then LostAfter else Up)\<rparr>"

lemma lossy_env_ok [simp]: "alone lossy_env" "fresh_ids lossy_env" "peers_ok lossy_env"
  by (simp_all add: lossy_env_def calm_env_def alone_def fresh_ids_def peers_ok_def next_id_fresh)

lemma asked_db_wf: "db_wf asked_db"
  by code_simp


section \<open>Consequences on the abstract state\<close>

text \<open>A run of the module: one request after another, each over a connection of its own.\<close>

type_synonym session_call = "dbenv \<times> user_row \<times> contact_call"

fun run_calls :: "lib \<Rightarrow> session_call list \<Rightarrow> live \<Rightarrow> database \<Rightarrow> live \<times> database" where
  "run_calls L [] l db = (l, db)"
| "run_calls L ((e, user, call) # rest) l db =
     (let (_, l', db') = contacts_router e L user call l db in run_calls L rest l' db')"

definition mutual :: "database \<Rightarrow> bool" where
  "mutual db \<longleftrightarrow> sym (contact_pair ` set (contacts db))"

text \<open>The routes that need the other party's consent, or end it for both.\<close>

fun by_consent :: "contact_call \<Rightarrow> bool" where
  "by_consent (AddContact _) = False"
| "by_consent _ = True"

lemma step_keeps_sym:
  "social_step me c s s' \<Longrightarrow> by_consent c \<Longrightarrow> sym (edges s) \<Longrightarrow> sym (edges s')"
  by (induction rule: social_step.induct) (auto simp: sym_def)

lemma mutual_iff: "mutual db \<longleftrightarrow> sym (edges (social_of db))"
  by (simp add: mutual_def social_of_def)

lemma alone_peers_ok: "alone e \<Longrightarrow> peers_ok e"
  by (simp add: alone_def peers_ok_def)

text \<open>
  C15: along any run of requests in which nobody uses the direct add route, over connections that
  may fail at every round trip, contacts stay mutual: if each listed the other before, so it is
  after, and the constraints of the database hold.
\<close>

theorem contacts_stay_mutual:
  assumes "db_wf db" and "mutual db"
    and "\<forall>(e, user, call) \<in> set calls. alone e \<and> fresh_ids e \<and> by_consent call"
    and "run_calls L calls l db = (l', db')"
  shows "db_wf db' \<and> mutual db'"
  using assms
proof (induction L calls l db rule: run_calls.induct)
  case (2 L e user call rest l db)
  obtain resp l1 d1 where r: "contacts_router e L user call l db = (resp, l1, d1)" by (metis prod.exhaust)
  have e: "alone e" "fresh_ids e" "by_consent call" using "2.prems"(3) by auto
  have w: "db_wf d1"
    by (rule contacts_router_wf [OF "2.prems"(1) alone_peers_ok [OF e(1)] e(2) r])
  have "mutual d1"
    using contacts_router_refines [OF "2.prems"(1) e(1,2) r] step_keeps_sym [OF _ e(3)] "2.prems"(2)
    unfolding mutual_iff all_or_nothing_def by blast
  with w show ?case
    using "2.IH" [OF r [symmetric] refl] "2.prems" r by auto
qed simp

theorem contacts_stay_mutual_witness:
  "mutual (snd (run_calls sample_lib [(lossy_env, ana, AcceptRequest (Uuid 7))] quiet_live asked_db))
   \<and> contacts (snd (run_calls sample_lib [(lossy_env, ana, AcceptRequest (Uuid 7))] quiet_live asked_db)) \<noteq> []"
proof -
  let ?run = "run_calls sample_lib [(lossy_env, ana, AcceptRequest (Uuid 7))] quiet_live asked_db"
  have "mutual asked_db" by (simp add: mutual_def asked_db_def empty_db_def sym_def)
  then have "mutual (snd ?run)"
    using contacts_stay_mutual [OF asked_db_wf, of "[(lossy_env, ana, AcceptRequest (Uuid 7))]" sample_lib
        quiet_live "fst ?run" "snd ?run"]
    by simp
  moreover have "contacts (snd ?run) \<noteq> []" by code_simp
  ultimately show ?thesis by simp
qed

end
