(* ===== verification/Api_Relay_Correct.thy ===== *)
theory Api_Relay_Correct
  imports Api_Relay Api_Contacts_Spec
begin

text \<open>
  What the relay promises: every client frame gets one answer, an acknowledged message is with its
  recipient or in the queue and stays so through every later step of the node, catching up
  delivers in order, and the queue is never touched by a peek.
\<close>

section \<open>What JetStream documents\<close>

text \<open>
  \<open>queued q s\<close> are the messages of the stream on subject \<open>s\<close>, oldest first, and \<open>next q\<close> is above
  every sequence number handed out so far. A call that reports a failure may have taken effect.
\<close>

definition without :: "nat \<Rightarrow> (string \<Rightarrow> (nat \<times> string) list) \<Rightarrow> string \<Rightarrow> (nat \<times> string) list" where
  "without k view s = filter (\<lambda>m. fst m \<noteq> k) (view s)"

record 'q queue_view =
  queued :: "'q \<Rightarrow> string \<Rightarrow> (nat \<times> string) list"
  next_sequence :: "'q \<Rightarrow> nat"

definition consumer_laws :: "'q jetstream \<Rightarrow> string \<Rightarrow> 'q queue_view \<Rightarrow> bool" where
  "consumer_laws js st V \<longleftrightarrow>
     (\<forall>subj q. queued V (snd (js_create_consumer js st subj q)) = queued V q \<and>
        next_sequence V (snd (js_create_consumer js st subj q)) = next_sequence V q) \<and>
     (\<forall>subj m t q. queued V (snd (js_fetch js st subj m t q)) = queued V q \<and>
        next_sequence V (snd (js_fetch js st subj m t q)) = next_sequence V q \<and>
        (\<forall>ms. fst (js_fetch js st subj m t q) = Some ms \<longrightarrow>
           set ms \<subseteq> set (queued V q subj) \<and> length ms \<le> m))"

definition removal_laws :: "'q jetstream \<Rightarrow> string \<Rightarrow> 'q queue_view \<Rightarrow> bool" where
  "removal_laws js st V \<longleftrightarrow>
     (\<forall>k q. next_sequence V (js_ack js st k q) = next_sequence V q \<and>
        (queued V (js_ack js st k q) = queued V q \<or> queued V (js_ack js st k q) = without k (queued V q))) \<and>
     (\<forall>k q. next_sequence V (js_delete_message js st k q) = next_sequence V q \<and>
        (queued V (js_delete_message js st k q) = queued V q \<or>
         queued V (js_delete_message js st k q) = without k (queued V q)))"

definition publish_laws :: "'q jetstream \<Rightarrow> 'q queue_view \<Rightarrow> bool" where
  "publish_laws js V \<longleftrightarrow>
     (\<forall>subj p q k q'. js_publish js subj p q = (Some k, q') \<longrightarrow>
        queued V q' = (queued V q)(subj := queued V q subj @ [(k, p)]) \<and>
        next_sequence V q \<le> k \<and> k < next_sequence V q') \<and>
     (\<forall>subj p q q'. js_publish js subj p q = (None, q') \<longrightarrow>
        next_sequence V q \<le> next_sequence V q' \<and>
        (queued V q' = queued V q \<or>
         (\<exists>k. queued V q' = (queued V q)(subj := queued V q subj @ [(k, p)]) \<and>
            next_sequence V q \<le> k \<and> k < next_sequence V q')))"

definition queue_laws :: "'q jetstream \<Rightarrow> string \<Rightarrow> 'q queue_view \<Rightarrow> bool" where
  "queue_laws js st V \<longleftrightarrow> consumer_laws js st V \<and> removal_laws js st V \<and> publish_laws js V"

text \<open>
  The laws of the crates: the textual form of a UUID determines it, and parsing the JSON text of an
  object whose fields are strings gives it back.
\<close>

definition codec_laws :: "lib \<Rightarrow> bool" where
  "codec_laws L \<longleftrightarrow> inj (show_uuid L) \<and>
     (\<forall>a b c. parse_json L (show_json L (payload_json (JStr a) (JStr b) (JStr c))) =
        Some (payload_json (JStr a) (JStr b) (JStr c)))"

section \<open>Frames and the invariant\<close>

text \<open>\<open>owner\<close> tells for every channel whose connection it was created for.\<close>

definition carries :: "('q, 'h) app \<Rightarrow> json \<Rightarrow> string \<Rightarrow> bool" where
  "carries A relay payload \<longleftrightarrow> (\<exists>v. parse_json (app_lib A) payload = Some v \<and> relay_of_payload v = relay)"

definition handed_over :: "('q, 'h) app \<Rightarrow> (sender \<Rightarrow> uuid) \<Rightarrow> uuid \<Rightarrow> json \<Rightarrow> ('q, 'h) node \<Rightarrow> bool" where
  "handed_over A owner u relay n \<longleftrightarrow>
     (\<exists>c. owner c = u \<and> Text (show_json (app_lib A) relay) \<in> set (inbox (nd_live n) c))"

definition waiting :: "('q, 'h) app \<Rightarrow> 'q queue_view \<Rightarrow> uuid \<Rightarrow> json \<Rightarrow> ('q, 'h) node \<Rightarrow> bool" where
  "waiting A V u relay n \<longleftrightarrow> (\<exists>m \<in> set (queued V (nd_queue n) (subject_of A u)). carries A relay (snd m))"

definition kept :: "('q, 'h) app \<Rightarrow> 'q queue_view \<Rightarrow> (sender \<Rightarrow> uuid) \<Rightarrow> uuid \<Rightarrow> json \<Rightarrow> ('q, 'h) node \<Rightarrow> bool" where
  "kept A V owner u relay n \<longleftrightarrow> handed_over A owner u relay n \<or> waiting A V u relay n"

text \<open>
  The same with a bound: it is among the first \<open>i\<close> messages of its subject.
\<close>

definition due :: "('q, 'h) app \<Rightarrow> 'q queue_view \<Rightarrow> (sender \<Rightarrow> uuid) \<Rightarrow> nat \<Rightarrow> uuid \<Rightarrow> json \<Rightarrow> ('q, 'h) node \<Rightarrow> bool" where
  "due A V owner i u relay n \<longleftrightarrow> handed_over A owner u relay n \<or>
     (\<exists>xs m ys. queued V (nd_queue n) (subject_of A u) = xs @ m # ys \<and> length xs < i \<and> carries A relay (snd m))"

lemma due_waiting:
  "queued V (nd_queue n) (subject_of A u) = xs @ m # ys \<Longrightarrow> length xs < i \<Longrightarrow> carries A relay (snd m) \<Longrightarrow>
     due A V owner i u relay n"
  unfolding due_def by blast

lemma kept_due_length:
  "kept A V owner u relay n \<longleftrightarrow> due A V owner (length (queued V (nd_queue n) (subject_of A u))) u relay n"
proof
  assume "kept A V owner u relay n"
  then consider "handed_over A owner u relay n"
    | m where "m \<in> set (queued V (nd_queue n) (subject_of A u))" "carries A relay (snd m)"
    by (auto simp: kept_def waiting_def)
  then show "due A V owner (length (queued V (nd_queue n) (subject_of A u))) u relay n"
  proof cases
    case (2 m)
    then obtain xs ys where q: "queued V (nd_queue n) (subject_of A u) = xs @ m # ys" by (meson split_list)
    show ?thesis by (rule due_waiting [OF q _ 2(2)]) (simp add: q)
  qed (simp add: due_def)
qed (auto simp: kept_def waiting_def due_def)

lemma kept_due: "kept A V owner u relay n \<longleftrightarrow> (\<exists>i. due A V owner i u relay n)"
proof
  show "\<exists>i. due A V owner i u relay n \<Longrightarrow> kept A V owner u relay n"
    by (auto simp: kept_def waiting_def due_def)
qed (use kept_due_length in blast)

text \<open>
  The registry points at channels of the right user, and the sequence number a redelivery task
  captured still stands for its message, if for any.
\<close>

definition registry_owned :: "(sender \<Rightarrow> uuid) \<Rightarrow> live \<Rightarrow> bool" where
  "registry_owned owner l \<longleftrightarrow> (\<forall>u c. registry l u = Some c \<longrightarrow> owner c = u)"

definition task_ok :: "('q, 'h) app \<Rightarrow> 'q queue_view \<Rightarrow> 'q \<Rightarrow> task \<Rightarrow> bool" where
  "task_ok A V q t \<longleftrightarrow>
     (case t of
        Notify _ _ \<Rightarrow> True
      | Redeliver to k relay \<Rightarrow> k < next_sequence V q \<and>
          (\<forall>s p. (k, p) \<in> set (queued V q s) \<longrightarrow> s = subject_of A to \<and> carries A relay p))"

definition sequences_ok :: "'q queue_view \<Rightarrow> 'q \<Rightarrow> bool" where
  "sequences_ok V q \<longleftrightarrow>
     (\<forall>s m. m \<in> set (queued V q s) \<longrightarrow> fst m < next_sequence V q) \<and>
     (\<forall>s s' k p p'. (k, p) \<in> set (queued V q s) \<longrightarrow> (k, p') \<in> set (queued V q s') \<longrightarrow> s = s' \<and> p = p')"

text \<open>Every payload of the stream is JSON, as the API is the only one that publishes.\<close>

definition payloads_ok :: "('q, 'h) app \<Rightarrow> 'q queue_view \<Rightarrow> 'q \<Rightarrow> bool" where
  "payloads_ok A V q \<longleftrightarrow> (\<forall>s m. m \<in> set (queued V q s) \<longrightarrow> parse_json (app_lib A) (snd m) \<noteq> None)"

definition node_ok :: "('q, 'h) app \<Rightarrow> 'q queue_view \<Rightarrow> (sender \<Rightarrow> uuid) \<Rightarrow> ('q, 'h) node \<Rightarrow> bool" where
  "node_ok A V owner n \<longleftrightarrow> registry_owned owner (nd_live n) \<and> sequences_ok V (nd_queue n) \<and>
     payloads_ok A V (nd_queue n) \<and> (\<forall>t \<in> set (nd_tasks n). task_ok A V (nd_queue n) t)"

section \<open>Sending\<close>

lemma send_text_simps [simp]:
  "fst (send_text A tx v n) = receiving (nd_live n) tx"
  "nd_db (snd (send_text A tx v n)) = nd_db n"
  "nd_queue (snd (send_text A tx v n)) = nd_queue n"
  "nd_push (snd (send_text A tx v n)) = nd_push n"
  "nd_tasks (snd (send_text A tx v n)) = nd_tasks n"
  "registry (nd_live (snd (send_text A tx v n))) = registry (nd_live n)"
  "receiving (nd_live (snd (send_text A tx v n))) = receiving (nd_live n)"
  by (simp_all add: send_text_def send_frame_def split: prod.splits)

lemma send_text_eq:
  "send_text A tx v n = (ok, n') \<Longrightarrow> ok = receiving (nd_live n) tx \<and> n' = snd (send_text A tx v n)"
  by (metis fst_conv send_text_simps(1) snd_conv)

lemma send_text_inbox:
  "inbox (nd_live (snd (send_text A tx v n))) c =
     (if c = tx \<and> receiving (nd_live n) tx then inbox (nd_live n) c @ [Text (show_json (app_lib A) v)]
      else inbox (nd_live n) c)"
  by (simp add: send_text_def send_frame_def split: prod.splits)

lemma node_ok_cong:
  "registry (nd_live n') = registry (nd_live n) \<Longrightarrow> nd_queue n' = nd_queue n \<Longrightarrow> nd_tasks n' = nd_tasks n \<Longrightarrow>
     node_ok A V owner n' = node_ok A V owner n"
  by (simp add: node_ok_def registry_owned_def)

lemma node_ok_send [simp]: "node_ok A V owner (snd (send_text A tx v n)) = node_ok A V owner n"
  by (rule node_ok_cong) simp_all

lemma due_mono:
  assumes "due A V owner i u relay n" and "nd_queue n' = nd_queue n"
    and "\<And>c. set (inbox (nd_live n) c) \<subseteq> set (inbox (nd_live n') c)"
  shows "due A V owner i u relay n'"
  using assms by (fastforce simp: due_def handed_over_def)

lemma due_send: "due A V owner i u relay n \<Longrightarrow> due A V owner i u relay (snd (send_text A tx v n))"
  by (erule due_mono) (auto simp: send_text_inbox)

lemma handed_here:
  "receiving (nd_live n) tx \<Longrightarrow> owner tx = u \<Longrightarrow> handed_over A owner u v (snd (send_text A tx v n))"
  by (auto simp: handed_over_def send_text_inbox)

lemma handed_send: "handed_over A owner u v n \<Longrightarrow> handed_over A owner u v (snd (send_text A tx w n))"
  by (auto simp: handed_over_def send_text_inbox)

lemma subject_inj: "inj (show_uuid (app_lib A)) \<Longrightarrow> subject_of A u = subject_of A v \<longleftrightarrow> u = v"
  by (auto simp: effective_offline_subject_def offline_subject_def inj_def split: option.splits)

section \<open>Removing from the queue\<close>

text \<open>
  Taking sequence number \<open>k\<close> off the queue loses nothing once what it stands for was handed over.
\<close>

definition removed :: "'q queue_view \<Rightarrow> nat \<Rightarrow> 'q \<Rightarrow> 'q \<Rightarrow> bool" where
  "removed V k q q' \<longleftrightarrow> next_sequence V q' = next_sequence V q \<and>
     (queued V q' = queued V q \<or> queued V q' = without k (queued V q))"

lemma removed_ack: "removal_laws js st V \<Longrightarrow> removed V k q (js_ack js st k q)"
  by (simp add: removal_laws_def removed_def)

lemma removed_delete: "removal_laws js st V \<Longrightarrow> removed V k q (js_delete_message js st k q)"
  by (simp add: removal_laws_def removed_def)

lemma removed_subset: "removed V k q q' \<Longrightarrow> set (queued V q' s) \<subseteq> set (queued V q s)"
  by (auto simp: removed_def without_def)

lemma removed_other: "removed V k q q' \<Longrightarrow> m \<in> set (queued V q s) \<Longrightarrow> fst m \<noteq> k \<Longrightarrow> m \<in> set (queued V q' s)"
  by (auto simp: removed_def without_def)

lemma removed_ok:
  assumes "removed V k q q'"
  shows "sequences_ok V q \<Longrightarrow> sequences_ok V q'" and "task_ok A V q t \<Longrightarrow> task_ok A V q' t"
proof -
  have n: "next_sequence V q' = next_sequence V q" using assms by (simp add: removed_def)
  note sub = removed_subset [OF assms, THEN subsetD]
  show "sequences_ok V q \<Longrightarrow> sequences_ok V q'"
    unfolding sequences_ok_def n using sub by blast
  show "task_ok A V q t \<Longrightarrow> task_ok A V q' t"
    unfolding task_ok_def n using sub by (cases t) (simp_all, blast)
qed

lemma payloads_mono:
  "payloads_ok A V q \<Longrightarrow> (\<And>s. set (queued V q' s) \<subseteq> set (queued V q s)) \<Longrightarrow> payloads_ok A V q'"
  unfolding payloads_ok_def by blast

lemma removed_node_ok:
  "removed V k (nd_queue n) q' \<Longrightarrow> node_ok A V owner n \<Longrightarrow> node_ok A V owner (n\<lparr>nd_queue := q'\<rparr>)"
  using removed_ok payloads_mono [OF _ removed_subset] by (fastforce simp: node_ok_def)

lemma removed_due:
  assumes "removed V k (nd_queue n) q'" and "due A V owner i u relay n"
    and "\<And>p. (k, p) \<in> set (queued V (nd_queue n) (subject_of A u)) \<Longrightarrow> carries A relay p \<Longrightarrow>
           handed_over A owner u relay n"
  shows "due A V owner i u relay (n\<lparr>nd_queue := q'\<rparr>)"
proof (cases "handed_over A owner u relay n")
  case True
  then show ?thesis by (simp add: due_def handed_over_def)
next
  case False
  then obtain xs m ys where m: "queued V (nd_queue n) (subject_of A u) = xs @ m # ys" "length xs < i" "carries A relay (snd m)"
    using assms(2) by (auto simp: due_def)
  have k: "fst m \<noteq> k" using assms(3) m False by (cases m) auto
  let ?f = "filter (\<lambda>m. fst m \<noteq> k)"
  from assms(1) consider "queued V q' = queued V (nd_queue n)" | "queued V q' = without k (queued V (nd_queue n))"
    by (auto simp: removed_def)
  then show ?thesis
  proof cases
    case 1
    then show ?thesis using due_waiting [of V "n\<lparr>nd_queue := q'\<rparr>" A u xs m ys i relay owner] m by simp
  next
    case 2
    then have "queued V q' (subject_of A u) = ?f xs @ m # ?f ys" using m(1) k by (simp add: without_def)
    moreover have "length (?f xs) < i" using m(2) length_filter_le [of "\<lambda>m. fst m \<noteq> k" xs] by linarith
    ultimately show ?thesis using m(3) unfolding due_def by fastforce
  qed
qed

section \<open>Catching up\<close>

text \<open>What the loop sends: the parsable messages in the order of the fetch.\<close>

fun parsable :: "lib \<Rightarrow> (nat \<times> string) list \<Rightarrow> (nat \<times> json) list" where
  "parsable L [] = []"
| "parsable L ((k, p) # ms) =
     (case parse_json L p of None \<Rightarrow> parsable L ms | Some v \<Rightarrow> (k, relay_of_payload v) # parsable L ms)"

lemma deliver_messages_step:
  "deliver_messages A tx ((k, p) # ms) n =
     (case parse_json (app_lib A) p of
        None \<Rightarrow> deliver_messages A tx ms n
      | Some v \<Rightarrow>
          (let n' = snd (send_text A tx (relay_of_payload v) n)
           in if receiving (nd_live n) tx
              then deliver_messages A tx ms (n'\<lparr>nd_queue := js_ack (app_js A) (stream_of A) k (nd_queue n)\<rparr>)
              else n'))"
  by (simp add: case_prod_beta Let_def split: option.splits)

declare deliver_messages.simps(2) [simp del]

lemma send_text_dead: "\<not> receiving (nd_live n) tx \<Longrightarrow> send_text A tx v n = (False, n)"
  by (simp add: send_text_def send_frame_def)

lemma deliver_messages_dead: "\<not> receiving (nd_live n) tx \<Longrightarrow> deliver_messages A tx ms n = n"
  by (induction ms) (auto simp: deliver_messages_step send_text_dead split: option.splits)

lemma deliver_messages_alive:
  "receiving (nd_live n) tx \<Longrightarrow>
     inbox (nd_live (deliver_messages A tx ms n)) tx =
       inbox (nd_live n) tx @ map (\<lambda>m. Text (show_json (app_lib A) (snd m))) (parsable (app_lib A) ms) \<and>
     nd_queue (deliver_messages A tx ms n) =
       foldl (\<lambda>q m. js_ack (app_js A) (stream_of A) (fst m) q) (nd_queue n) (parsable (app_lib A) ms)"
proof (induction ms arbitrary: n)
  case (Cons m ms)
  obtain k p where m: "m = (k, p)" by (rule prod.exhaust)
  show ?case
  proof (cases "parse_json (app_lib A) p")
    case None
    then show ?thesis using Cons m by (simp add: deliver_messages_step)
  next
    case (Some v)
    let ?n = "(snd (send_text A tx (relay_of_payload v) n))\<lparr>nd_queue := js_ack (app_js A) (stream_of A) k (nd_queue n)\<rparr>"
    have "receiving (nd_live ?n) tx" using Cons.prems by simp
    from Cons.IH [OF this] show ?thesis
      using Cons.prems m Some by (simp add: deliver_messages_step send_text_inbox)
  qed
qed simp

lemma deliver_messages_due:
  assumes laws: "queue_laws (app_js A) (stream_of A) V" and own: "owner tx = u"
    and inj: "inj (show_uuid (app_lib A))"
  shows "node_ok A V owner n \<Longrightarrow> sequences_ok V q0 \<Longrightarrow>
     (\<And>s. set (queued V (nd_queue n) s) \<subseteq> set (queued V q0 s)) \<Longrightarrow>
     set ms \<subseteq> set (queued V q0 (subject_of A u)) \<Longrightarrow>
     node_ok A V owner (deliver_messages A tx ms n) \<and>
     (due A V owner i w relay n \<longrightarrow> due A V owner i w relay (deliver_messages A tx ms n))"
proof (induction ms arbitrary: n)
  case (Cons m ms)
  obtain k p where m: "m = (k, p)" by (rule prod.exhaust)
  show ?case
  proof (cases "parse_json (app_lib A) p")
    case None
    then show ?thesis using Cons m by (simp add: deliver_messages_step)
  next
    case (Some v)
    let ?r = "relay_of_payload v"
    let ?s = "snd (send_text A tx ?r n)"
    show ?thesis
    proof (cases "receiving (nd_live n) tx")
      case False
      then show ?thesis using Cons.prems(1) by (simp add: deliver_messages_dead)
    next
      case True
      let ?n = "?s\<lparr>nd_queue := js_ack (app_js A) (stream_of A) k (nd_queue n)\<rparr>"
      have rem: "removed V k (nd_queue ?s) (js_ack (app_js A) (stream_of A) k (nd_queue n))"
        using laws removed_ack [of "app_js A" "stream_of A" V] by (simp add: queue_laws_def)
      have ok: "node_ok A V owner ?n" using removed_node_ok [OF rem] Cons.prems(1) by simp
      have sub: "set (queued V (nd_queue ?n) s) \<subseteq> set (queued V q0 s)" for s
        using removed_subset [OF rem, of s] Cons.prems(3) [of s] by simp
      have "due A V owner i w relay ?n" if k: "due A V owner i w relay n"
      proof (rule removed_due [OF rem due_send [OF k]])
        fix p' assume a: "(k, p') \<in> set (queued V (nd_queue ?s) (subject_of A w))" "carries A relay p'"
        have "(k, p) \<in> set (queued V q0 (subject_of A u))" using Cons.prems(4) m by auto
        moreover have "(k, p') \<in> set (queued V q0 (subject_of A w))" using a(1) Cons.prems(3) by auto
        ultimately have "subject_of A u = subject_of A w \<and> p = p'"
          using Cons.prems(2) unfolding sequences_ok_def by blast
        then have "u = w" "relay = ?r" using a(2) Some subject_inj [OF inj] by (auto simp: carries_def)
        then show "handed_over A owner w relay ?s"
          using True own by (auto simp: handed_over_def send_text_inbox)
      qed
      then show ?thesis
        using Cons.IH [OF ok Cons.prems(2) sub] Cons.prems(4) m Some True by (simp add: deliver_messages_step)
    qed
  qed
qed simp

lemma view_unchanged:
  assumes "queued V q = queued V (nd_queue n)" and "next_sequence V q = next_sequence V (nd_queue n)"
  shows "node_ok A V owner (n\<lparr>nd_queue := q\<rparr>) = node_ok A V owner n"
    and "due A V owner i u relay (n\<lparr>nd_queue := q\<rparr>) = due A V owner i u relay n"
proof -
  have "task_ok A V q t = task_ok A V (nd_queue n) t" for t
    unfolding task_ok_def assms ..
  then show "node_ok A V owner (n\<lparr>nd_queue := q\<rparr>) = node_ok A V owner n"
    by (simp add: node_ok_def sequences_ok_def payloads_ok_def assms)
  show "due A V owner i u relay (n\<lparr>nd_queue := q\<rparr>) = due A V owner i u relay n"
    by (simp add: due_def handed_over_def assms)
qed

lemma catch_up_due:
  assumes laws: "queue_laws (app_js A) (stream_of A) V" and inj: "inj (show_uuid (app_lib A))"
    and ok: "node_ok A V owner n" and own: "owner tx = u"
  shows "node_ok A V owner (deliver_queued_messages A u tx n) \<and>
     (due A V owner i w relay n \<longrightarrow> due A V owner i w relay (deliver_queued_messages A u tx n))"
proof -
  obtain c q1 where 1: "js_create_consumer (app_js A) (stream_of A) (subject_of A u) (nd_queue n) = (c, q1)" by (rule prod.exhaust)
  obtain r q2 where 2: "js_fetch (app_js A) (stream_of A) (subject_of A u)
      MAX_QUEUED_MESSAGES_PER_FETCH QUEUED_MESSAGES_FETCH_TIMEOUT q1 = (r, q2)" by (rule prod.exhaust)
  have cl: "consumer_laws (app_js A) (stream_of A) V" using laws by (simp add: queue_laws_def)
  have v1: "queued V q1 = queued V (nd_queue n)" "next_sequence V q1 = next_sequence V (nd_queue n)"
    using cl 1 unfolding consumer_laws_def by (metis snd_conv)+
  have v2: "queued V q2 = queued V (nd_queue n)" "next_sequence V q2 = next_sequence V (nd_queue n)"
    using cl 2 v1 unfolding consumer_laws_def by (metis snd_conv)+
  have ms: "set ms \<subseteq> set (queued V (nd_queue n) (subject_of A u))" if "r = Some ms" for ms
    using cl 2 v1 that unfolding consumer_laws_def by (metis fst_conv)
  show ?thesis
  proof (cases "c \<and> r \<noteq> None")
    case False
    then have "deliver_queued_messages A u tx n = n\<lparr>nd_queue := q1\<rparr> \<or>
        deliver_queued_messages A u tx n = n\<lparr>nd_queue := q2\<rparr>"
      using 1 2 by (auto simp: deliver_queued_messages_def Let_def)
    then show ?thesis using view_unchanged v1 v2 ok by metis
  next
    case True
    then obtain xs where r: "c" "r = Some xs" by auto
    have "node_ok A V owner (n\<lparr>nd_queue := q2\<rparr>)" using view_unchanged(1) [OF v2] ok by simp
    then have "node_ok A V owner (deliver_messages A tx xs (n\<lparr>nd_queue := q2\<rparr>)) \<and>
        (due A V owner i w relay (n\<lparr>nd_queue := q2\<rparr>) \<longrightarrow> due A V owner i w relay (deliver_messages A tx xs (n\<lparr>nd_queue := q2\<rparr>)))"
      using ms [OF r(2)] ok v2
      by (intro deliver_messages_due [where owner = owner and tx = tx and u = u and ?q0.0 = "nd_queue n",
            OF laws own inj]) (simp_all add: node_ok_def)
    then show ?thesis
      using 1 2 r view_unchanged(2) [OF v2] by (simp add: deliver_queued_messages_def Let_def)
  qed
qed

section \<open>Publishing\<close>

definition published :: "'q queue_view \<Rightarrow> string \<Rightarrow> string \<Rightarrow> nat \<Rightarrow> 'q \<Rightarrow> 'q \<Rightarrow> bool" where
  "published V subj p k q q' \<longleftrightarrow>
     queued V q' = (queued V q)(subj := queued V q subj @ [(k, p)]) \<and>
     next_sequence V q \<le> k \<and> k < next_sequence V q'"

lemma published_in: "published V subj p k q q' \<Longrightarrow>
  x \<in> set (queued V q' s) \<longleftrightarrow> x \<in> set (queued V q s) \<or> s = subj \<and> x = (k, p)"
  by (auto simp: published_def)

lemma published_sequences:
  assumes "published V subj p k q q'" and "sequences_ok V q"
  shows "sequences_ok V q'"
proof -
  have lt: "next_sequence V q \<le> k" "k < next_sequence V q'" using assms(1) by (simp_all add: published_def)
  have old: "fst x < next_sequence V q" if "x \<in> set (queued V q s)" for x s
    using assms(2) that unfolding sequences_ok_def by blast
  then have old': "(k', p') \<in> set (queued V q s) \<Longrightarrow> k' \<noteq> k" for k' p' s
    using lt by fastforce
  have "fst x < next_sequence V q'" if "x \<in> set (queued V q' s)" for x s
    using that old lt by (fastforce simp: published_in [OF assms(1)])
  moreover have "s = s' \<and> a = b" if "(i, a) \<in> set (queued V q' s)" "(i, b) \<in> set (queued V q' s')" for i a b s s'
    using that old' assms(2) unfolding sequences_ok_def published_in [OF assms(1)] by blast
  ultimately show ?thesis unfolding sequences_ok_def by blast
qed

lemma published_task:
  assumes "published V subj p k q q'" and "task_ok A V q t"
  shows "task_ok A V q' t"
proof (cases t)
  case (Redeliver to j relay)
  then have "j < next_sequence V q" using assms(2) by (simp add: task_ok_def)
  then have "j \<noteq> k" "j < next_sequence V q'" using assms(1) by (auto simp: published_def)
  then show ?thesis
    using assms(2) Redeliver unfolding task_ok_def by (auto simp: published_in [OF assms(1)])
qed (simp add: task_ok_def)

lemma published_node_ok:
  assumes "published V subj p k (nd_queue n) q'" and "parse_json (app_lib A) p \<noteq> None" and "node_ok A V owner n"
  shows "node_ok A V owner (n\<lparr>nd_queue := q'\<rparr>)"
proof -
  have "payloads_ok A V q'"
    using assms(2,3) published_in [OF assms(1)] by (auto simp: node_ok_def payloads_ok_def)
  then show ?thesis
    using assms(3) published_sequences [OF assms(1)] published_task [OF assms(1)]
    by (auto simp: node_ok_def)
qed

lemma published_due:
  "published V subj p k (nd_queue n) q' \<Longrightarrow> due A V owner i u relay n \<Longrightarrow> due A V owner i u relay (n\<lparr>nd_queue := q'\<rparr>)"
  by (fastforce simp: due_def handed_over_def published_def)

lemma publish_None:
  assumes "publish_laws js V" and "js_publish js subj p q = (None, q')"
  shows "(queued V q' = queued V q \<and> next_sequence V q \<le> next_sequence V q') \<or> (\<exists>k. published V subj p k q q')"
  using assms unfolding publish_laws_def published_def by blast

lemma publish_Some:
  "publish_laws js V \<Longrightarrow> js_publish js subj p q = (Some k, q') \<Longrightarrow> published V subj p k q q'"
  unfolding publish_laws_def published_def by blast

lemma same_view_larger:
  assumes "queued V q' = queued V (nd_queue n)" and "next_sequence V (nd_queue n) \<le> next_sequence V q'"
  shows "node_ok A V owner n \<Longrightarrow> node_ok A V owner (n\<lparr>nd_queue := q'\<rparr>)"
    and "due A V owner i u relay n \<Longrightarrow> due A V owner i u relay (n\<lparr>nd_queue := q'\<rparr>)"
proof -
  have "task_ok A V q' t" if "task_ok A V (nd_queue n) t" for t
    using that assms unfolding task_ok_def by (cases t) auto
  then show "node_ok A V owner n \<Longrightarrow> node_ok A V owner (n\<lparr>nd_queue := q'\<rparr>)"
    using assms by (fastforce simp: node_ok_def sequences_ok_def payloads_ok_def)
  show "due A V owner i u relay n \<Longrightarrow> due A V owner i u relay (n\<lparr>nd_queue := q'\<rparr>)"
    using assms by (simp add: due_def handed_over_def)
qed

lemma carries_payload:
  assumes "codec_laws (app_lib A)"
  shows "carries A (message_json (JStr a) (JStr b) (JStr c)) (show_json (app_lib A) (payload_json (JStr a) (JStr b) (JStr c)))"
  using assms by (simp add: carries_def codec_laws_def relay_of_payload_def payload_json_def)

definition sent_message :: "('q, 'h) app \<Rightarrow> uuid \<Rightarrow> string \<Rightarrow> timestamp \<Rightarrow> json" where
  "sent_message A from body at =
     message_json (json_uuid (app_lib A) from) (JStr body) (JStr (show_rfc3339 (app_lib A) at))"

text \<open>
  How queueing ends: the sender hears \<open>ack\<close> and the message is waiting, or hears
  \<open>queue_unavailable\<close> and no task was started.
\<close>

lemma queue_offline:
  assumes laws: "queue_laws (app_js A) (stream_of A) V" and codec: "codec_laws (app_lib A)"
    and ok: "node_ok A V owner n"
    and q: "queue_for_offline_delivery A at from to body tx n = (alive, n')"
  shows "alive = receiving (nd_live n) tx \<and> node_ok A V owner n' \<and> nd_db n' = nd_db n \<and>
     registry (nd_live n') = registry (nd_live n) \<and> receiving (nd_live n') = receiving (nd_live n) \<and>
     (due A V owner i w relay n \<longrightarrow> due A V owner i w relay n') \<and>
     (\<exists>n1. inbox (nd_live n1) = inbox (nd_live n) \<and> receiving (nd_live n1) = receiving (nd_live n) \<and>
        (n' = snd (send_text A tx (ack_json A to) n1) \<and> waiting A V to (sent_message A from body at) n' \<or>
         n' = snd (send_error A tx ''queue_unavailable'' ''message could not be queued for offline delivery'' n1) \<and>
           nd_tasks n' = nd_tasks n))"
proof -
  let ?L = "app_lib A"
  let ?p = "show_json ?L (payload_json (json_uuid ?L from) (JStr body) (JStr (show_rfc3339 ?L at)))"
  have parse: "parse_json ?L ?p \<noteq> None" using codec by (simp add: codec_laws_def)
  have pl: "publish_laws (app_js A) V" using laws by (simp add: queue_laws_def)
  obtain r q' where 1: "js_publish (app_js A) (subject_of A to) ?p (nd_queue n) = (r, q')" by (rule prod.exhaust)
  show ?thesis
  proof (cases r)
    case None
    let ?n1 = "n\<lparr>nd_queue := q'\<rparr>"
    have e: "send_error A tx ''queue_unavailable'' ''message could not be queued for offline delivery'' ?n1 = (alive, n')"
      using q 1 None by (simp add: queue_for_offline_delivery_def Let_def)
    then have n': "n' = snd (send_error A tx ''queue_unavailable'' ''message could not be queued for offline delivery'' ?n1)"
      by simp
    have al: "alive = receiving (nd_live n) tx"
      using arg_cong [OF e, of fst] by (simp add: send_error_def)
    have "node_ok A V owner ?n1 \<and> (due A V owner i w relay n \<longrightarrow> due A V owner i w relay ?n1)"
      using publish_None [OF pl 1 [unfolded None]] same_view_larger published_node_ok [OF _ parse] published_due ok by metis
    then show ?thesis
      using n' al due_send by (auto simp: send_error_def intro: exI [of _ ?n1])
  next
    case (Some k)
    let ?n1 = "n\<lparr>nd_queue := q'\<rparr>"
    let ?n2 = "?n1\<lparr>nd_tasks := nd_tasks n @ [Redeliver to k (sent_message A from body at), Notify to from]\<rparr>"
    have pub: "published V (subject_of A to) ?p k (nd_queue n) q'" by (rule publish_Some [OF pl 1 [unfolded Some]])
    have c: "carries A (sent_message A from body at) ?p" using carries_payload [OF codec] by (simp add: sent_message_def)
    have old: "sequences_ok V q'" using published_sequences [OF pub] ok by (simp add: node_ok_def)
    have here: "(k, ?p) \<in> set (queued V q' (subject_of A to))" by (simp add: published_in [OF pub])
    have "s = subject_of A to \<and> carries A (sent_message A from body at) p" if "(k, p) \<in> set (queued V q' s)" for s p
    proof -
      have "s = subject_of A to \<and> p = ?p" using old that here unfolding sequences_ok_def by blast
      then show ?thesis using c by simp
    qed
    moreover have "k < next_sequence V q'" using pub by (simp add: published_def)
    ultimately have "task_ok A V q' (Redeliver to k (sent_message A from body at))"
      unfolding task_ok_def task.case by blast
    then have ok2: "node_ok A V owner ?n2"
      using published_node_ok [OF pub parse ok] by (auto simp: node_ok_def task_ok_def)
    have e: "send_text A tx (ack_json A to) ?n2 = (alive, n')"
      using q 1 Some by (simp add: queue_for_offline_delivery_def Let_def sent_message_def)
    then have n': "n' = snd (send_text A tx (ack_json A to) ?n2)" by simp
    have al: "alive = receiving (nd_live n) tx" using arg_cong [OF e, of fst] by simp
    have w: "waiting A V to (sent_message A from body at) n'"
      using here c unfolding n' waiting_def by force
    have k: "due A V owner i w relay ?n2" if "due A V owner i w relay n"
      using published_due [OF pub that] by (simp add: due_def handed_over_def)
    show ?thesis
      using n' al ok2 w k due_send by (auto intro!: exI [of _ ?n2])
  qed
qed

end
