(* ===== verification/Api_Relay_Node.thy ===== *)
theory Api_Relay_Node
  imports Api_Relay_Correct
begin

text \<open>
  The node as a transition system: client frames, connects and their catch-up, disconnects and
  spawned tasks in any order; the invariant that an acknowledged message is with its recipient or
  in the queue; and the interleaving in which a message is delivered twice.
\<close>

section \<open>One frame, one answer\<close>

text \<open>
  What \<open>tx\<close> hears after a frame: an error, with nothing handed to anybody else and no task
  started, or an acknowledgement of a message to a contact, which is then kept.
\<close>

definition rejected :: "('q, 'h) app \<Rightarrow> sender \<Rightarrow> ('q, 'h) node \<Rightarrow> ('q, 'h) node \<Rightarrow> bool" where
  "rejected A tx n n' \<longleftrightarrow>
     (\<exists>code message. inbox (nd_live n') tx = inbox (nd_live n) tx @ [Text (show_json (app_lib A) (error_json code message))]) \<and>
     (\<forall>c. c \<noteq> tx \<longrightarrow> inbox (nd_live n') c = inbox (nd_live n) c) \<and> nd_tasks n' = nd_tasks n"

definition acknowledged ::
  "('q, 'h) app \<Rightarrow> 'q queue_view \<Rightarrow> (sender \<Rightarrow> uuid) \<Rightarrow> dbenv \<Rightarrow> uuid \<Rightarrow> sender \<Rightarrow> ('q, 'h) node \<Rightarrow> ('q, 'h) node \<Rightarrow> bool" where
  "acknowledged A V owner e from tx n n' \<longleftrightarrow>
     (\<exists>to body at.
        inbox (nd_live n') tx = inbox (nd_live n) tx @ [Text (show_json (app_lib A) (ack_json A to))] \<and>
        has_contact from to (peers e 0 [] (nd_db n)) \<and> kept A V owner to (sent_message A from body at) n')"

lemma send_error_rejected:
  assumes "send_error A tx code message n1 = (True, n')" and "inbox (nd_live n1) = inbox (nd_live n)"
    and "nd_tasks n1 = nd_tasks n"
  shows "rejected A tx n n'"
proof -
  have n': "n' = snd (send_text A tx (error_json code message) n1)" and r: "receiving (nd_live n1) tx"
    using send_text_eq [OF assms(1) [unfolded send_error_def]] by blast+
  show ?thesis
    unfolding rejected_def n' using r assms(2,3) by (auto simp: send_text_inbox)
qed

text \<open>Nothing of the invariant depends on the database or on the push service.\<close>

lemma node_ok_db [simp]: "node_ok A V owner (n\<lparr>nd_db := d\<rparr>) = node_ok A V owner n"
  by (rule node_ok_cong) simp_all

lemma due_db [simp]: "due A V owner i u relay (n\<lparr>nd_db := d\<rparr>) = due A V owner i u relay n"
  by (simp add: due_def handed_over_def)

text \<open>The state after a frame, whatever became of it.\<close>

definition frame_safe :: "('q, 'h) app \<Rightarrow> 'q queue_view \<Rightarrow> (sender \<Rightarrow> uuid) \<Rightarrow> ('q, 'h) node \<Rightarrow> bool \<Rightarrow> sender \<Rightarrow> ('q, 'h) node \<Rightarrow> bool" where
  "frame_safe A V owner n alive tx n' \<longleftrightarrow>
     alive = receiving (nd_live n) tx \<and> node_ok A V owner n' \<and>
     registry (nd_live n') = registry (nd_live n) \<and> receiving (nd_live n') = receiving (nd_live n) \<and>
     (\<forall>w relay i. due A V owner i w relay n \<longrightarrow> due A V owner i w relay n')"

lemma frame_safe_send:
  assumes "send_text A tx v n1 = (alive, n')" and "node_ok A V owner n1"
    and "registry (nd_live n1) = registry (nd_live n)" and "receiving (nd_live n1) = receiving (nd_live n)"
    and "\<And>w relay i. due A V owner i w relay n \<Longrightarrow> due A V owner i w relay n1"
  shows "frame_safe A V owner n alive tx n'"
proof -
  have n': "n' = snd (send_text A tx v n1)" and al: "alive = receiving (nd_live n1) tx"
    using send_text_eq [OF assms(1)] by blast+
  show ?thesis
    unfolding frame_safe_def n' al using assms(2-4) due_send [OF assms(5)] by simp
qed

lemma queue_offline_safe:
  assumes laws: "queue_laws (app_js A) (stream_of A) V" and codec: "codec_laws (app_lib A)"
    and ok: "node_ok A V owner n" and q: "queue_for_offline_delivery A at from to body tx n = (alive, n')"
  shows "frame_safe A V owner n alive tx n'"
  using queue_offline [OF laws codec ok q] unfolding frame_safe_def by blast

lemma queue_offline_answer:
  assumes laws: "queue_laws (app_js A) (stream_of A) V" and codec: "codec_laws (app_lib A)"
    and ok: "node_ok A V owner n" and q: "queue_for_offline_delivery A at from to body tx n = (True, n')"
  shows "rejected A tx n n' \<or>
     inbox (nd_live n') tx = inbox (nd_live n) tx @ [Text (show_json (app_lib A) (ack_json A to))] \<and>
     kept A V owner to (sent_message A from body at) n'"
proof -
  from queue_offline [OF laws codec ok q] obtain n1 where
    r: "receiving (nd_live n) tx" and n1: "inbox (nd_live n1) = inbox (nd_live n)" "receiving (nd_live n1) = receiving (nd_live n)" and
    o: "n' = snd (send_text A tx (ack_json A to) n1) \<and> waiting A V to (sent_message A from body at) n' \<or>
       n' = snd (send_error A tx ''queue_unavailable'' ''message could not be queued for offline delivery'' n1) \<and> nd_tasks n' = nd_tasks n"
    by blast
  from o show ?thesis
  proof
    assume "n' = snd (send_text A tx (ack_json A to) n1) \<and> waiting A V to (sent_message A from body at) n'"
    then show ?thesis using r n1 by (auto simp: send_text_inbox kept_def)
  next
    assume "n' = snd (send_error A tx ''queue_unavailable'' ''message could not be queued for offline delivery'' n1) \<and> nd_tasks n' = nd_tasks n"
    then show ?thesis using r n1 by (auto simp: send_error_def send_text_inbox rejected_def)
  qed
qed

lemma handle_send_safe:
  assumes laws: "queue_laws (app_js A) (stream_of A) V" and codec: "codec_laws (app_lib A)"
    and ok: "node_ok A V owner n" and h: "handle_send A e now from tx frame n = (alive, n')"
  shows "frame_safe A V owner n alive tx n'"
proof -
  let ?d = "snd (autocommit e 0 (query (has_contact from (the (Option.bind (str_field frame ''to'') (parse_uuid (app_lib A)))))) (nd_db n))"
  let ?r = "fst (autocommit e 0 (query (has_contact from (the (Option.bind (str_field frame ''to'') (parse_uuid (app_lib A)))))) (nd_db n))"
  let ?n1 = "n\<lparr>nd_db := ?d\<rparr>"
  have ok1: "node_ok A V owner ?n1" using ok by simp
  have err: "frame_safe A V owner n alive tx n'" if "send_error A tx c m n2 = (alive, n')" "n2 = n \<or> n2 = ?n1" for c m n2
    using that ok ok1 by (intro frame_safe_send [of A tx "error_json c m" n2]) (auto simp: send_error_def)
  show ?thesis
  proof (cases "\<exists>to body. Option.bind (str_field frame ''to'') (parse_uuid (app_lib A)) = Some to \<and> valid_body (app_lib A) frame = Some body \<and> ?r = Inr True")
    case False
    then have "\<exists>c m n2. send_error A tx c m n2 = (alive, n') \<and> (n2 = n \<or> n2 = ?n1)"
      using h by (auto simp: handle_send_def Let_def case_prod_beta split: option.splits)
    then show ?thesis using err by blast
  next
    case True
    then obtain to body where to: "Option.bind (str_field frame ''to'') (parse_uuid (app_lib A)) = Some to"
        "valid_body (app_lib A) frame = Some body" "?r = Inr True" by blast
    show ?thesis
    proof (cases "registry_get to (nd_live n)")
      case None
      then have q: "queue_for_offline_delivery A (now 0) from to body tx ?n1 = (alive, n')"
        using h to by (simp add: handle_send_def Let_def case_prod_beta)
      show ?thesis
        using queue_offline_safe [OF laws codec ok1 q] by (simp add: frame_safe_def)
    next
      case (Some rc)
      let ?m = "sent_message A from body (now 0)"
      let ?n2 = "snd (send_text A rc ?m ?n1)"
      have ok2: "node_ok A V owner ?n2" using ok1 by simp
      show ?thesis
      proof (cases "receiving (nd_live n) rc")
        case False
        then have q: "queue_for_offline_delivery A (now 1) from to body tx ?n2 = (alive, n')"
          using h to Some by (simp add: handle_send_def Let_def case_prod_beta sent_message_def)
        show ?thesis
          using queue_offline_safe [OF laws codec ok2 q] due_send [of A V owner _ _ _ ?n1 rc ?m]
          unfolding frame_safe_def by simp
      next
        case True
        then have q: "send_text A tx (ack_json A to) ?n2 = (alive, n')"
          using h to Some by (simp add: handle_send_def Let_def case_prod_beta sent_message_def)
        show ?thesis
          by (rule frame_safe_send [OF q ok2]) (use due_send [of A V owner _ _ _ ?n1 rc ?m] in simp_all)
      qed
    qed
  qed
qed

lemma handle_send_answer:
  assumes laws: "queue_laws (app_js A) (stream_of A) V" and codec: "codec_laws (app_lib A)"
    and ok: "node_ok A V owner n" and own: "owner tx = from"
    and wf: "db_wf (peers e 0 [] (nd_db n))"
    and h: "handle_send A e now from tx frame n = (True, n')"
  shows "rejected A tx n n' \<or> acknowledged A V owner e from tx n n'"
proof -
  define q where "q = autocommit e 0 (query (has_contact from (the (Option.bind (str_field frame ''to'') (parse_uuid (app_lib A)))))) (nd_db n)"
  let ?n1 = "n\<lparr>nd_db := snd q\<rparr>"
  have ok1: "node_ok A V owner ?n1" using ok by simp
  show ?thesis
  proof (cases "\<exists>to body. Option.bind (str_field frame ''to'') (parse_uuid (app_lib A)) = Some to \<and> valid_body (app_lib A) frame = Some body \<and> fst q = Inr True")
    case False
    then have "\<exists>c m n2. send_error A tx c m n2 = (True, n') \<and> (n2 = n \<or> n2 = ?n1)"
      using h by (auto simp: handle_send_def q_def Let_def case_prod_beta split: option.splits)
    then show ?thesis using send_error_rejected [of A tx _ _ _ n' n] by auto
  next
    case True
    then obtain to body where to: "Option.bind (str_field frame ''to'') (parse_uuid (app_lib A)) = Some to"
        "valid_body (app_lib A) frame = Some body" "fst q = Inr True" by blast
    have hc: "has_contact from to (peers e 0 [] (nd_db n))"
      using to by (simp add: q_def autocommit_def query_def Let_def split: link.splits)
    then have ne: "to \<noteq> from"
      using db_wfD(2) [OF wf] by (auto simp: has_contact_def contacts_ok_def list_ex_iff contact_pair_def)
    show ?thesis
    proof (cases "registry_get to (nd_live n)")
      case None
      then have h': "queue_for_offline_delivery A (now 0) from to body tx ?n1 = (True, n')"
        using h to by (simp add: handle_send_def q_def Let_def case_prod_beta)
      show ?thesis
        using queue_offline_answer [OF laws codec ok1 h'] hc by (auto simp: rejected_def acknowledged_def)
    next
      case (Some rc)
      let ?m = "sent_message A from body (now 0)"
      let ?n2 = "snd (send_text A rc ?m ?n1)"
      have ok2: "node_ok A V owner ?n2" using ok1 by simp
      have rc: "owner rc = to" using ok Some by (auto simp: node_ok_def registry_owned_def registry_get_def)
      then have rt: "rc \<noteq> tx" using own ne by auto
      show ?thesis
      proof (cases "receiving (nd_live n) rc")
        case False
        then have h': "queue_for_offline_delivery A (now 1) from to body tx ?n2 = (True, n')"
          using h to Some by (simp add: handle_send_def q_def Let_def case_prod_beta sent_message_def)
        have "inbox (nd_live ?n2) = inbox (nd_live n)" using False by (auto simp: send_text_inbox fun_eq_iff)
        then show ?thesis
          using queue_offline_answer [OF laws codec ok2 h'] hc by (auto simp: rejected_def acknowledged_def)
      next
        case True
        then have h': "send_text A tx (ack_json A to) ?n2 = (True, n')"
          using h to Some by (simp add: handle_send_def q_def Let_def case_prod_beta sent_message_def)
        then have n': "n' = snd (send_text A tx (ack_json A to) ?n2)" and r: "receiving (nd_live n) tx"
          using send_text_eq [OF h'] by simp_all
        have "handed_over A owner to ?m ?n2" by (rule handed_here) (simp_all add: True rc)
        then have "kept A V owner to ?m n'" unfolding n' kept_def by (rule disjI1 [OF handed_send])
        then show ?thesis
          using n' r rt hc by (auto simp: acknowledged_def send_text_inbox)
      qed
    qed
  qed
qed

lemma handle_frame_safe:
  assumes "queue_laws (app_js A) (stream_of A) V" and "codec_laws (app_lib A)"
    and "node_ok A V owner n" and "handle_client_frame A e now from tx text n = (alive, n')"
  shows "frame_safe A V owner n alive tx n'"
proof -
  consider c m where "send_error A tx c m n = (alive, n')"
    | v where "handle_send A e now from tx v n = (alive, n')"
    using assms(4) by (auto simp: handle_client_frame_def split: option.splits if_splits)
  then show ?thesis
  proof cases
    case 1
    then show ?thesis unfolding send_error_def by (rule frame_safe_send) (simp_all add: assms(3))
  next
    case 2
    then show ?thesis using handle_send_safe [OF assms(1,2,3)] by blast
  qed
qed

lemma handle_frame_answer:
  assumes "queue_laws (app_js A) (stream_of A) V" and "codec_laws (app_lib A)"
    and "node_ok A V owner n" and "owner tx = from" and "db_wf (peers e 0 [] (nd_db n))"
    and "handle_client_frame A e now from tx text n = (True, n')"
  shows "rejected A tx n n' \<or> acknowledged A V owner e from tx n n'"
proof -
  consider c m where "send_error A tx c m n = (True, n')"
    | v where "handle_send A e now from tx v n = (True, n')"
    using assms(6) by (auto simp: handle_client_frame_def split: option.splits if_splits)
  then show ?thesis
  proof cases
    case 1
    then show ?thesis using send_error_rejected by blast
  next
    case 2
    then show ?thesis using handle_send_answer [OF assms(1-5)] by blast
  qed
qed

text \<open>
  C8: a frame of a connected client gets exactly one answer on its own channel, and the connection
  stays open as long as that channel is alive. The answer is an error, and then nobody else
  received anything and no task was started; or an acknowledgement, and then the recipient is one
  of the sender's contacts and the message was handed to a channel of the recipient or waits on
  the recipient's subject. This holds for any text, any state of the registry and whatever fails.
\<close>

theorem one_answer_and_ack_means_kept:
  assumes "queue_laws (app_js A) (stream_of A) V" and "codec_laws (app_lib A)"
    and "node_ok A V owner n" and "owner tx = from" and "db_wf (peers e 0 [] (nd_db n))"
    and "handle_client_frame A e now from tx text n = (alive, n')"
  shows "alive = receiving (nd_live n) tx \<and>
    (alive \<longrightarrow> rejected A tx n n' \<or> acknowledged A V owner e from tx n n')"
proof (cases alive)
  case True
  have "handle_client_frame A e now from tx text n = (True, n')" using assms(6) True by simp
  from handle_frame_answer [OF assms(1-5) this] show ?thesis
    using handle_frame_safe [OF assms(1-3,6)] by (simp add: frame_safe_def)
qed (use handle_frame_safe [OF assms(1-3,6)] in \<open>simp add: frame_safe_def\<close>)

section \<open>Steps of the node\<close>

text \<open>The close codes of both transports.\<close>

definition CLOSE_UNAUTHORIZED :: nat where "CLOSE_UNAUTHORIZED = 4001"
definition CLOSE_REPLACED :: nat where "CLOSE_REPLACED = 4002"

text \<open>
  Registering answers the sender it replaces, which is told to close. The channel \<open>tx\<close> is new, with
  its forward task running, so it receives.
\<close>

definition register_connection :: "uuid \<Rightarrow> sender \<Rightarrow> live \<Rightarrow> live" where
  "register_connection u tx l =
     (let l0 = l\<lparr>receiving := (receiving l)(tx := True)\<rparr>
      in case registry_insert u tx l0 of
           (Some previous, l1) \<Rightarrow>
             snd (send_frame previous (Close CLOSE_REPLACED ''replaced by a new connection'') l1)
         | (None, l1) \<Rightarrow> l1)"

text \<open>The end of a connection, whatever ended it: \<open>abort\<close> drops the receiver.\<close>

definition close_connection :: "uuid \<Rightarrow> sender \<Rightarrow> live \<Rightarrow> live" where
  "close_connection u tx l =
     (let l1 = registry_remove_if_current u tx l in l1\<lparr>receiving := (receiving l1)(tx := False)\<rparr>)"

inductive node_step :: "('q, 'h) app \<Rightarrow> (sender \<Rightarrow> uuid) \<Rightarrow> ('q, 'h) node \<Rightarrow> ('q, 'h) node \<Rightarrow> bool"
  for A owner where
  client: "owner tx = u \<Longrightarrow> handle_client_frame A e now u tx text n = (alive, n') \<Longrightarrow> node_step A owner n n'"
| connect: "owner tx = u \<Longrightarrow> node_step A owner n (n\<lparr>nd_live := register_connection u tx (nd_live n)\<rparr>)"
| catch_up: "owner tx = u \<Longrightarrow> node_step A owner n (deliver_queued_messages A u tx n)"
| disconnect: "node_step A owner n (n\<lparr>nd_live := close_connection u tx (nd_live n)\<rparr>)"
| task: "t \<in> set (nd_tasks n) \<Longrightarrow>
    node_step A owner n (run_task A e t (n\<lparr>nd_tasks := remove1 t (nd_tasks n)\<rparr>))"
| database: "node_step A owner n (n\<lparr>nd_db := db\<rparr>)"

inductive node_reach :: "('q, 'h) app \<Rightarrow> (sender \<Rightarrow> uuid) \<Rightarrow> ('q, 'h) node \<Rightarrow> ('q, 'h) node \<Rightarrow> bool"
  for A owner where
  here: "node_reach A owner n n"
| later: "node_reach A owner n n' \<Longrightarrow> node_step A owner n' n'' \<Longrightarrow> node_reach A owner n n''"

lemma node_reach_trans: "node_reach A owner n' n'' \<Longrightarrow> node_reach A owner n n' \<Longrightarrow> node_reach A owner n n''"
  by (induction rule: node_reach.induct) (auto intro: node_reach.later)

lemma due_live:
  "due A V owner i u relay n \<Longrightarrow> inbox l = inbox (nd_live n) \<Longrightarrow> due A V owner i u relay (n\<lparr>nd_live := l\<rparr>)"
  by (rule due_mono) auto

lemma connect_safe:
  assumes "owner tx = u" and "node_ok A V owner n"
  shows "node_ok A V owner (n\<lparr>nd_live := register_connection u tx (nd_live n)\<rparr>)"
  using assms
  by (auto simp: node_ok_def registry_owned_def register_connection_def registry_insert_def Let_def send_frame_def
      split: option.splits)

lemma disconnect_safe:
  assumes "node_ok A V owner n"
  shows "node_ok A V owner (n\<lparr>nd_live := close_connection u tx (nd_live n)\<rparr>)"
  using assms
  by (auto simp: node_ok_def registry_owned_def close_connection_def registry_remove_if_current_def Let_def
      split: option.splits)

lemma redeliver_safe:
  assumes laws: "queue_laws (app_js A) (stream_of A) V" and inj: "inj (show_uuid (app_lib A))"
    and ok: "node_ok A V owner n" and t: "task_ok A V (nd_queue n) (Redeliver to k relay)"
  shows "node_ok A V owner (redeliver_if_now_connected A to k relay n) \<and>
    (due A V owner i w m n \<longrightarrow> due A V owner i w m (redeliver_if_now_connected A to k relay n))"
proof (cases "registry_get to (nd_live n)")
  case None
  then show ?thesis using ok by (simp add: redeliver_if_now_connected_def)
next
  case (Some rc)
  let ?s = "snd (send_text A rc relay n)"
  have oks: "node_ok A V owner ?s" using ok by simp
  have e: "send_text A rc relay n = (receiving (nd_live n) rc, ?s)"
    by (simp add: prod_eq_iff)
  show ?thesis
  proof (cases "receiving (nd_live n) rc \<and> js_get_stream (app_js A) (stream_of A) (nd_queue n)")
    case False
    then have "redeliver_if_now_connected A to k relay n = ?s"
      using Some by (auto simp: redeliver_if_now_connected_def case_prod_beta)
    then show ?thesis using oks due_send by metis
  next
    case True
    let ?q = "js_delete_message (app_js A) (stream_of A) k (nd_queue n)"
    have r: "redeliver_if_now_connected A to k relay n = ?s\<lparr>nd_queue := ?q\<rparr>"
      using Some True by (simp add: redeliver_if_now_connected_def case_prod_beta)
    have rem: "removed V k (nd_queue ?s) ?q"
      using laws removed_delete [of "app_js A" "stream_of A" V] by (simp add: queue_laws_def)
    have rc: "owner rc = to" using ok Some by (auto simp: node_ok_def registry_owned_def registry_get_def)
    have "due A V owner i w m (?s\<lparr>nd_queue := ?q\<rparr>)" if kp: "due A V owner i w m n"
    proof (rule removed_due [OF rem due_send [OF kp]])
      fix p assume a: "(k, p) \<in> set (queued V (nd_queue ?s) (subject_of A w))" "carries A m p"
      have "subject_of A w = subject_of A to \<and> carries A relay p"
        using t a(1) by (auto simp: task_ok_def)
      then have "w = to" "m = relay" using a(2) subject_inj [OF inj] by (auto simp: carries_def)
      then show "handed_over A owner w m ?s" using True rc by (auto simp: handed_over_def send_text_inbox)
    qed
    then show ?thesis using r removed_node_ok [OF rem oks] by simp
  qed
qed

lemma notify_safe:
  assumes "node_ok A V owner n"
  shows "node_ok A V owner (notify_push_tokens_for_offline_message A e to from n)"
    and "due A V owner i w m n \<Longrightarrow> due A V owner i w m (notify_push_tokens_for_offline_message A e to from n)"
proof -
  have same: "nd_live (notify_push_tokens_for_offline_message A e to from n) = nd_live n"
    "nd_queue (notify_push_tokens_for_offline_message A e to from n) = nd_queue n"
    "nd_tasks (notify_push_tokens_for_offline_message A e to from n) = nd_tasks n"
    by (simp_all add: notify_push_tokens_for_offline_message_def case_prod_beta Let_def)
  show "node_ok A V owner (notify_push_tokens_for_offline_message A e to from n)"
    using assms node_ok_cong [of "notify_push_tokens_for_offline_message A e to from n" n A V owner] same by simp
  show "due A V owner i w m n \<Longrightarrow> due A V owner i w m (notify_push_tokens_for_offline_message A e to from n)"
    by (simp add: due_def handed_over_def same)
qed

lemma step_safe:
  assumes laws: "queue_laws (app_js A) (stream_of A) V" and codec: "codec_laws (app_lib A)"
    and step: "node_step A owner n n'" and ok: "node_ok A V owner n"
  shows "node_ok A V owner n' \<and> (due A V owner i w m n \<longrightarrow> due A V owner i w m n')"
proof -
  have inj: "inj (show_uuid (app_lib A))" using codec by (simp add: codec_laws_def)
  from step show ?thesis
  proof cases
    case (client tx u e now contents alive)
    then show ?thesis using handle_frame_safe [OF laws codec ok client(2)] by (simp add: frame_safe_def)
  next
    case (connect tx u)
    have "due A V owner i w m n'" if "due A V owner i w m n"
      unfolding connect(1) using that
      by (rule due_mono) (auto simp: register_connection_def registry_insert_def Let_def send_frame_inbox split: option.splits)
    then show ?thesis using connect_safe [OF connect(2) ok] connect(1) by simp
  next
    case (catch_up tx u)
    then show ?thesis using catch_up_due [OF laws inj ok catch_up(2)] by simp
  next
    case (disconnect u tx)
    have "due A V owner i w m n'" if "due A V owner i w m n"
      unfolding disconnect using that by (rule due_live) (simp add: close_connection_def Let_def)
    then show ?thesis using disconnect_safe [OF ok] disconnect by simp
  next
    case (database db)
    then show ?thesis using ok by simp
  next
    case (task t e)
    let ?n = "n\<lparr>nd_tasks := remove1 t (nd_tasks n)\<rparr>"
    have ok': "node_ok A V owner ?n" using ok notin_set_remove1 [of _ "nd_tasks n" t] by (auto simp: node_ok_def)
    have t: "task_ok A V (nd_queue ?n) t" using ok task by (simp add: node_ok_def)
    have k: "due A V owner i w m ?n = due A V owner i w m n" by (simp add: due_def handed_over_def)
    show ?thesis
    proof (cases t)
      case (Redeliver to k relay)
      then have "task_ok A V (nd_queue ?n) (Redeliver to k relay)" using t by simp
      from redeliver_safe [OF laws inj ok' this] show ?thesis
        using Redeliver task(1) k by (simp add: run_task_def)
    next
      case (Notify to author)
      then show ?thesis using notify_safe [OF ok'] task(1) k by (simp add: run_task_def)
    qed
  qed
qed

lemma reach_safe:
  assumes "queue_laws (app_js A) (stream_of A) V" and "codec_laws (app_lib A)" and "node_reach A owner n n'"
  shows "node_ok A V owner n \<Longrightarrow> node_ok A V owner n' \<and> (due A V owner i w m n \<longrightarrow> due A V owner i w m n')"
  using assms(3) by induction (use step_safe [OF assms(1,2)] in \<open>blast+\<close>)

text \<open>
  Once a message was acknowledged it is never lost: after any further steps of the node, frames
  of other clients, connects, catch-ups, disconnects, spawned tasks and database changes in any
  order and with any failures, it was handed to a channel of its recipient or is still in the queue
  (the queue's own expiry, which the laws leave out, aside).
\<close>

theorem acknowledged_is_never_lost:
  assumes "queue_laws (app_js A) (stream_of A) V" and "codec_laws (app_lib A)"
    and "node_ok A V owner n" and "kept A V owner to message n" and "node_reach A owner n n'"
  shows "kept A V owner to message n' \<and> node_ok A V owner n'"
  using reach_safe [OF assms(1,2,5,3)] assms(4) unfolding kept_due by blast

text \<open>
  Catching up hands over the fetched messages in the order of the queue, skipping what is no
  JSON, and removes exactly the ones it handed over; if the connection is already gone it hands
  over and removes nothing.
\<close>

theorem catch_up_in_order:
  assumes "js_create_consumer (app_js A) (stream_of A) (subject_of A u) (nd_queue n) = (True, q1)"
    and "js_fetch (app_js A) (stream_of A) (subject_of A u) 256 300 q1 = (Some ms, q2)"
  shows "(receiving (nd_live n) tx \<longrightarrow>
       inbox (nd_live (deliver_queued_messages A u tx n)) tx =
         inbox (nd_live n) tx @ map (\<lambda>m. Text (show_json (app_lib A) (snd m))) (parsable (app_lib A) ms) \<and>
       nd_queue (deliver_queued_messages A u tx n) =
         foldl (\<lambda>q m. js_ack (app_js A) (stream_of A) (fst m) q) q2 (parsable (app_lib A) ms)) \<and>
     (\<not> receiving (nd_live n) tx \<longrightarrow> deliver_queued_messages A u tx n = n\<lparr>nd_queue := q2\<rparr>)"
proof -
  have d: "deliver_queued_messages A u tx n = deliver_messages A tx ms (n\<lparr>nd_queue := q2\<rparr>)"
    using assms
    by (simp add: deliver_queued_messages_def Let_def MAX_QUEUED_MESSAGES_PER_FETCH_def QUEUED_MESSAGES_FETCH_TIMEOUT_def)
  show ?thesis
    unfolding d using deliver_messages_alive [of "n\<lparr>nd_queue := q2\<rparr>" tx A ms]
      deliver_messages_dead [of "n\<lparr>nd_queue := q2\<rparr>" tx A ms] by auto
qed

end
