(* ===== verification/Api_Contacts_Live.thy ===== *)
theory Api_Contacts_Live
  imports Api_Contacts_Spec
begin

text \<open>
  What the contacts module tells connected clients, and what two concurrent requests can do to
  each other.
\<close>

section \<open>Frames follow commits\<close>

definition silent_on_error :: "response \<Rightarrow> live \<Rightarrow> live \<Rightarrow> bool" where
  "silent_on_error resp l l' \<longleftrightarrow> (400 \<le> status_of resp \<longrightarrow> l' = l) \<and> registry l' = registry l"

lemma silent_same [simp]: "silent_on_error resp l l"
  by (simp add: silent_on_error_def)

lemma silent_push [simp]: "status_of resp < 400 \<Longrightarrow> silent_on_error resp l (push_frame L u v l)"
  by (simp add: silent_on_error_def)

lemma remove_silent: "remove_contact e L user c l db = (resp, l', db') \<Longrightarrow> silent_on_error resp l l'"
  unfolding remove_contact_def by (auto split: prod.splits sum.splits if_splits)

lemma accept_silent: "accept_contact_request e L user rid l db = (resp, l', db') \<Longrightarrow> silent_on_error resp l l'"
  unfolding accept_contact_request_def by (auto split: prod.splits sum.splits if_splits)

lemma insert_notify_silent: "insert_and_notify e L user t l db = (resp, l', db') \<Longrightarrow> silent_on_error resp l l'"
  unfolding insert_and_notify_def by (auto split: prod.splits sum.splits option.splits)

lemma create_silent: "create_contact_request e L user p l db = (resp, l', db') \<Longrightarrow> silent_on_error resp l l'"
  unfolding create_contact_request_def
  by (auto dest: insert_notify_silent split: prod.splits sum.splits option.splits if_splits bool.splits)

text \<open>
  A client is never told of a change that the database may not hold: when a request to the
  contacts module answers an error, whatever the connection and the other sessions did, no frame
  was sent to anybody, and no request ever changes who is registered as connected.
\<close>

theorem contacts_frames_follow_commits:
  assumes "contacts_router e L user call l db = (resp, l', db')" and "400 \<le> status_of resp"
  shows "l' = l \<and> registry l' = registry l"
proof -
  have "silent_on_error resp l l'"
    using assms(1) remove_silent accept_silent create_silent
    by (cases call) (auto split: prod.splits)
  then show ?thesis using assms(2) by (simp add: silent_on_error_def)
qed

definition online :: live where
  "online = \<lparr>registry = (\<lambda>_. None)(Uuid 1 \<mapsto> 5), inbox = (\<lambda>_. []), receiving = (\<lambda>_. True)\<rparr>"

theorem contacts_frames_follow_commits_witness:
  "inbox (fst (snd (contacts_router calm_env sample_lib eve (AcceptRequest (Uuid 7)) online asked_db))) 5 = [] \<and>
   fst (contacts_router calm_env sample_lib eve (AcceptRequest (Uuid 7)) online asked_db) = fail_with 403 ''not_recipient''"
proof -
  obtain r l d where e: "contacts_router calm_env sample_lib eve (AcceptRequest (Uuid 7)) online asked_db = (r, l, d)"
    by (metis prod.exhaust)
  have "fst (contacts_router calm_env sample_lib eve (AcceptRequest (Uuid 7)) online asked_db) = fail_with 403 ''not_recipient''"
    by code_simp
  then have r: "r = fail_with 403 ''not_recipient''" using e by simp
  then have "l = online" using contacts_frames_follow_commits [OF e] by simp
  then show ?thesis using e r by (simp add: online_def)
qed

section \<open>Only the entitled party\<close>

text \<open>
  The parties of a request never change, so what the handler's own transaction reads decides,
  whatever happens around it.
\<close>

lemma load_error_not_success: "\<not> status_of (load_error_response err) < 400"
  using status_load_error by (simp add: not_less)

lemma accept_success:
  assumes "accept_contact_request e L user rid l db = (resp, l', db')" and "status_of resp < 400"
  shows "\<exists>d. \<exists>r \<in> set (requests d). r_id r = rid \<and> r_recipient r = u_id user \<and> pending r \<and>
           d = peers e 1 [] (peers e 0 [] db)"
proof -
  obtain r0 t0 where 0: "begin_tx e 0 db = (r0, t0)" by (rule prod.exhaust)
  obtain r1 t1 where 1: "load_pending_request_as_recipient e 1 rid (u_id user) t0 = (r1, t1)" by (rule prod.exhaust)
  have t0: "t0 = (peers e 0 [] db, [])" using 0 by (simp add: begin_tx_def Let_def)
  have "\<exists>u p. r0 = Inr u \<and> r1 = Inr p"
    using assms 0 1 load_error_not_success
    by (cases r0; cases r1) (auto simp: accept_contact_request_def internal_error_def)
  then obtain r where "request_by_id rid (peers e 1 [] (peers e 0 [] db)) = Some r" "r_recipient r = u_id user" "pending r"
    using 1 t0
    by (auto simp: load_pending_request_as_recipient_def in_tx_def query_def pending_def Let_def
        split: sum.splits option.splits if_splits)
  moreover from this(1) have "r \<in> set (requests (peers e 1 [] (peers e 0 [] db)))" "r_id r = rid"
    using find_SomeD by (fastforce simp: request_by_id_def)+
  ultimately show ?thesis by blast
qed

section \<open>Crossed requests\<close>

text \<open>
  The check for a request in the other direction and the insert are two statements. Here Bob's
  request to Ana commits between Ana's check and her insert.
\<close>

definition bob_asks_ana :: "database \<Rightarrow> database" where
  "bob_asks_ana db =
     snd (snd (contacts_router calm_env sample_lib bob
       (CreateRequest \<lparr>crp_email = Some ''ana@x'', crp_username = None\<rparr>) quiet_live db))"

definition racing_env :: dbenv where
  "racing_env = calm_env\<lparr>peers := (\<lambda>i ws db.
     if i = 3 \<and> db_wf (bob_asks_ana db) \<and> db_wf (apply_writes ws (bob_asks_ana db))
     then bob_asks_ana db else db)\<rparr>"

lemma racing_env_ok: "peers_ok racing_env" "fresh_ids racing_env"
  by (simp_all add: peers_ok_def fresh_ids_def racing_env_def calm_env_def next_id_fresh)


end
