(* ===== verification/Api_Relay_Examples.thy ===== *)
theory Api_Relay_Examples
  imports Api_Relay_Node Api_Migrate Api_Contacts_Live
begin

text \<open>
  A concrete queue that satisfies JetStream's documented laws, runs of the relay on it, and the
  interleaving of a reconnect with a redelivery task that hands a message over twice.
\<close>

section \<open>A queue\<close>

text \<open>The next sequence number and the stored messages: sequence number, subject, payload.\<close>

type_synonym sample_queue = "nat \<times> (nat \<times> string \<times> string) list"

definition on_subject :: "string \<Rightarrow> sample_queue \<Rightarrow> (nat \<times> string) list" where
  "on_subject s q = map (\<lambda>(k, _, p). (k, p)) (filter (\<lambda>(_, s', _). s' = s) (snd q))"

definition drop_message :: "string \<Rightarrow> nat \<Rightarrow> sample_queue \<Rightarrow> sample_queue" where
  "drop_message st k q = (fst q, filter (\<lambda>m. fst m \<noteq> k) (snd q))"

definition sample_js :: "sample_queue jetstream" where
  "sample_js =
     \<lparr>js_create_consumer = (\<lambda>_ _ q. (True, q)),
      js_fetch = (\<lambda>_ s m _ q. (Some (take m (on_subject s q)), q)),
      js_ack = drop_message,
      js_publish = (\<lambda>s p q. (Some (fst q), Suc (fst q), snd q @ [(fst q, s, p)])),
      js_get_stream = (\<lambda>_ _. True),
      js_delete_message = drop_message,
      js_first_raw = (\<lambda>_ s k q.
        case find (\<lambda>m. k \<le> fst m) (on_subject s q) of
          None \<Rightarrow> NoMessageFound
        | Some (i, p) \<Rightarrow> RawMessage i p)\<rparr>"

definition sample_view :: "sample_queue queue_view" where
  "sample_view = \<lparr>queued = (\<lambda>q s. on_subject s q), next_sequence = fst\<rparr>"

lemma on_subject_drop: "on_subject s (drop_message st k q) = filter (\<lambda>m. fst m \<noteq> k) (on_subject s q)"
proof -
  have "map (\<lambda>(k, _, p). (k, p)) (filter (\<lambda>(_, s', _). s' = s) (filter (\<lambda>m. fst m \<noteq> k) ms)) =
     filter (\<lambda>m. fst m \<noteq> k) (map (\<lambda>(k, _, p). (k, p)) (filter (\<lambda>(_, s', _). s' = s) ms))"
    for ms :: "(nat \<times> string \<times> string) list"
    by (induction ms) auto
  then show ?thesis by (simp add: on_subject_def drop_message_def)
qed

lemma sample_queue_laws: "queue_laws sample_js st sample_view"
proof -
  have "consumer_laws sample_js st sample_view"
    by (auto simp: consumer_laws_def sample_js_def sample_view_def dest: in_set_takeD)
  moreover have "removal_laws sample_js st sample_view"
    by (simp add: removal_laws_def sample_js_def sample_view_def on_subject_drop without_def fun_eq_iff)
       (simp add: drop_message_def)
  moreover have "publish_laws sample_js sample_view"
    by (auto simp: publish_laws_def sample_js_def sample_view_def on_subject_def fun_eq_iff)
  ultimately show ?thesis by (simp add: queue_laws_def)
qed

lemma sample_codec_laws: "codec_laws sample_lib"
proof -
  have "inj (show_uuid sample_lib)"
  proof (rule injI)
    fix u v assume a: "show_uuid sample_lib u = show_uuid sample_lib v"
    obtain i j where "u = Uuid i" "v = Uuid j" by (metis uuid.exhaust)
    then show "u = v" using arg_cong [OF a, of length] by (simp add: sample_lib_def)
  qed
  moreover have "parse_json sample_lib (show_json sample_lib (payload_json (JStr a) (JStr b) (JStr c))) =
      Some (payload_json (JStr a) (JStr b) (JStr c))" for a b c
    by (simp add: sample_lib_def payload_json_def sample_parse_show)
  ultimately show ?thesis by (simp add: codec_laws_def)
qed

section \<open>A node\<close>

text \<open>The push service remembers the tokens it was called with and rejects them all.\<close>

definition sample_notifier :: "string list notifier" where
  "sample_notifier = \<lparr>send_push = (\<lambda>token _ _ _ h. (Inl (Rejected None ''gone''), h @ [token]))\<rparr>"

definition bare_host :: host where
  "bare_host = \<lparr>env_var = (\<lambda>_. None), git_toplevel = None\<rparr>"

definition sample_app :: "(sample_queue, string list) app" where
  "sample_app = \<lparr>app_lib = sample_lib, app_host = bare_host, app_js = sample_js, app_push = sample_notifier\<rparr>"

text \<open>Bob lists Ana and is connected on channel 5; channel 6 is Ana's next connection.\<close>

definition friends_db :: database where
  "friends_db = empty_db\<lparr>contacts := [\<lparr>c_id = Uuid 8, c_owner = Uuid 2, c_contact = Uuid 1, c_created_at = 0\<rparr>],
     push_tokens := [\<lparr>p_id = Uuid 20, p_user = Uuid 1, p_token = ''t1'', p_created_at = 0\<rparr>,
                     \<lparr>p_id = Uuid 21, p_user = Uuid 1, p_token = ''t2'', p_created_at = 0\<rparr>]\<rparr>"

definition bob_online :: live where
  "bob_online = \<lparr>registry = (\<lambda>_. None)(Uuid 2 \<mapsto> 5), inbox = (\<lambda>_. []), receiving = (\<lambda>c. c = 5)\<rparr>"

definition sample_node :: "(sample_queue, string list) node" where
  "sample_node = \<lparr>nd_db = friends_db, nd_live = bob_online, nd_queue = (1, []), nd_push = [], nd_tasks = []\<rparr>"

definition channel_owner :: "sender \<Rightarrow> uuid" where
  "channel_owner c = (if c = 6 then Uuid 1 else Uuid 2)"

definition send_to_ana :: string where
  "send_to_ana = sample_show (JObj [(''type'', JStr ''send''), (''to'', JStr ''1''), (''body_b64'', JStr ''aGk='')])"

definition after_send :: "(sample_queue, string list) node" where
  "after_send = snd (handle_client_frame sample_app calm_env (\<lambda>_. 0) (Uuid 2) 5 send_to_ana sample_node)"

definition ana_message :: json where
  "ana_message = sent_message sample_app (Uuid 2) ''aGk='' 0"

lemma sample_laws:
  "queue_laws (app_js sample_app) (stream_of sample_app) sample_view" "codec_laws (app_lib sample_app)"
  by (simp_all add: sample_app_def sample_queue_laws sample_codec_laws)

lemma sample_node_ok: "node_ok sample_app sample_view channel_owner sample_node"
  by (simp add: node_ok_def registry_owned_def sequences_ok_def payloads_ok_def sample_node_def bob_online_def
      sample_view_def on_subject_def channel_owner_def)

lemma friends_db_wf: "db_wf friends_db"
  by code_simp

theorem one_answer_and_ack_means_kept_witness:
  "rejected sample_app 5 sample_node after_send \<or>
   acknowledged sample_app sample_view channel_owner calm_env (Uuid 2) 5 sample_node after_send"
proof -
  have al: "fst (handle_client_frame sample_app calm_env (\<lambda>_. 0) (Uuid 2) 5 send_to_ana sample_node)" by code_simp
  then have e: "handle_client_frame sample_app calm_env (\<lambda>_. 0) (Uuid 2) 5 send_to_ana sample_node = (True, after_send)"
    by (simp add: after_send_def prod_eq_iff)
  have "db_wf (peers calm_env 0 [] (nd_db sample_node))"
    by (simp add: calm_env_def sample_node_def friends_db_wf)
  then show ?thesis
    using one_answer_and_ack_means_kept [OF sample_laws sample_node_ok _ _ e] by (simp add: channel_owner_def)
qed

lemma after_send_ok: "node_ok sample_app sample_view channel_owner after_send"
proof -
  have "handle_client_frame sample_app calm_env (\<lambda>_. 0) (Uuid 2) 5 send_to_ana sample_node =
      (fst (handle_client_frame sample_app calm_env (\<lambda>_. 0) (Uuid 2) 5 send_to_ana sample_node), after_send)"
    by (simp add: after_send_def)
  from handle_frame_safe [OF sample_laws sample_node_ok this] show ?thesis by (simp add: frame_safe_def)
qed

lemma after_send_queue: "nd_queue after_send = (2, [(1, ''epistl.offline.1'', show_json sample_lib (payload_json (JStr ''11'') (JStr ''aGk='') (JStr ''r'')))])"
  by code_simp

lemma after_send_waiting: "waiting sample_app sample_view (Uuid 1) ana_message after_send"
proof -
  have s: "subject_of sample_app (Uuid 1) = ''epistl.offline.1''" by code_simp
  have "ana_message = message_json (JStr ''11'') (JStr ''aGk='') (JStr ''r'')" by code_simp
  then have "carries sample_app ana_message (show_json sample_lib (payload_json (JStr ''11'') (JStr ''aGk='') (JStr ''r'')))"
    using carries_payload [OF sample_laws(2), of "''11''" "''aGk=''" "''r''"] by (simp add: sample_app_def)
  then show ?thesis
    unfolding waiting_def s after_send_queue by (simp add: sample_view_def on_subject_def)
qed

text \<open>Ana connects and catches up, then leaves.\<close>

definition ana_caught_up :: "(sample_queue, string list) node" where
  "ana_caught_up = deliver_queued_messages sample_app (Uuid 1) 6
     (after_send\<lparr>nd_live := register_connection (Uuid 1) 6 (nd_live after_send)\<rparr>)"

lemma ana_reach: "node_reach sample_app channel_owner after_send ana_caught_up"
  unfolding ana_caught_up_def
  by (intro node_reach.later [OF node_reach.later [OF node_reach.here node_step.connect] node_step.catch_up])
     (simp_all add: channel_owner_def)

theorem acknowledged_is_never_lost_witness:
  "kept sample_app sample_view channel_owner (Uuid 1) ana_message ana_caught_up \<and> snd (nd_queue ana_caught_up) = []"
proof -
  have "kept sample_app sample_view channel_owner (Uuid 1) ana_message after_send"
    using after_send_waiting by (simp add: kept_def)
  from acknowledged_is_never_lost [OF sample_laws after_send_ok this ana_reach]
  have "kept sample_app sample_view channel_owner (Uuid 1) ana_message ana_caught_up" ..
  moreover have "snd (nd_queue ana_caught_up) = []" by code_simp
  ultimately show ?thesis ..
qed

theorem catch_up_in_order_witness:
  "inbox (nd_live (deliver_queued_messages sample_app (Uuid 1) 5 after_send)) 5 =
     inbox (nd_live after_send) 5 @ [Text (show_json sample_lib ana_message)]"
proof -
  let ?n = after_send
  have 1: "js_create_consumer (app_js sample_app) (stream_of sample_app) (subject_of sample_app (Uuid 1)) (nd_queue ?n) = (True, nd_queue ?n)"
    by (simp add: sample_app_def sample_js_def)
  have 2: "js_fetch (app_js sample_app) (stream_of sample_app) (subject_of sample_app (Uuid 1)) 256 300 (nd_queue ?n) =
      (Some (on_subject (subject_of sample_app (Uuid 1)) (nd_queue ?n)), nd_queue ?n)"
  proof -
    have "on_subject (subject_of sample_app (Uuid 1)) (nd_queue ?n) = take 256 (on_subject (subject_of sample_app (Uuid 1)) (nd_queue ?n))"
      by code_simp
    then show ?thesis by (simp add: sample_app_def sample_js_def)
  qed
  have 3: "receiving (nd_live ?n) 5" by code_simp
  have "map (\<lambda>m. Text (show_json (app_lib sample_app) (snd m)))
      (parsable (app_lib sample_app) (on_subject (subject_of sample_app (Uuid 1)) (nd_queue ?n))) = [Text (show_json sample_lib ana_message)]"
    by code_simp
  then show ?thesis using catch_up_in_order [OF 1 2, of 5] 3 by simp
qed

section \<open>Delivered twice\<close>

text \<open>
  C37: delivery is at least once, not exactly once: a message that was queued, then delivered and
  acknowledged by the recipient's own catch-up, is delivered again by the redelivery task spawned
  when it was queued, if that task runs after the catch-up. The queue is empty by then; the task
  looks at the registry only.
\<close>

theorem redelivery_can_duplicate:
  "node_reach sample_app channel_owner sample_node
     (run_task sample_app calm_env (hd (nd_tasks ana_caught_up)) (ana_caught_up\<lparr>nd_tasks := tl (nd_tasks ana_caught_up)\<rparr>)) \<and>
   nd_queue ana_caught_up = (2, []) \<and>
   inbox (nd_live (run_task sample_app calm_env (hd (nd_tasks ana_caught_up))
       (ana_caught_up\<lparr>nd_tasks := tl (nd_tasks ana_caught_up)\<rparr>))) 6 =
     [Text (show_json sample_lib ana_message), Text (show_json sample_lib ana_message)]"
proof (intro conjI)
  have "node_step sample_app channel_owner sample_node after_send"
    by (rule node_step.client [of channel_owner 5 "Uuid 2" _ calm_env "\<lambda>_. 0" send_to_ana _
          "fst (handle_client_frame sample_app calm_env (\<lambda>_. 0) (Uuid 2) 5 send_to_ana sample_node)"])
       (simp_all add: channel_owner_def after_send_def)
  then have s: "node_reach sample_app channel_owner sample_node after_send"
    using node_reach.here node_reach.later by blast
  then have r: "node_reach sample_app channel_owner sample_node ana_caught_up"
    using node_reach_trans [OF ana_reach] by blast
  have "nd_tasks ana_caught_up \<noteq> []" by code_simp
  then obtain t ts where t: "nd_tasks ana_caught_up = t # ts" by (cases "nd_tasks ana_caught_up") auto
  have "node_step sample_app channel_owner ana_caught_up (run_task sample_app calm_env t (ana_caught_up\<lparr>nd_tasks := remove1 t (nd_tasks ana_caught_up)\<rparr>))"
    by (rule node_step.task) (simp add: t)
  then show "node_reach sample_app channel_owner sample_node
     (run_task sample_app calm_env (hd (nd_tasks ana_caught_up)) (ana_caught_up\<lparr>nd_tasks := tl (nd_tasks ana_caught_up)\<rparr>))"
    using node_reach.later [OF r] t by simp
qed code_simp+

section \<open>Notifications\<close>

text \<open>
  The push task tries every token the recipient has registered, in order and each once, even
  when the service rejects all of them, and what it sends depends only on the recipient's tokens
  and the sender's id, never on the message.
\<close>

theorem every_token_is_tried:
  fixes A :: "('q, 'p) app"
  shows "nd_push (notify_push_tokens_for_offline_message A e to from n) =
     (if net e 0 = Up
      then foldl (\<lambda>h token. snd (send_push (app_push A) token ''New message'' ''You have a new message''
             (JObj [(''type'', JStr ''message''), (''fromUserId'', json_uuid (app_lib A) from)]) h))
           (nd_push n) (tokens_of to (peers e 0 [] (nd_db n)))
      else nd_push n)"
proof -
  have "push_to_tokens P d ts h =
      foldl (\<lambda>h token. snd (send_push P token ''New message'' ''You have a new message'' d h)) h ts"
    for P :: "'p notifier" and d ts h
    by (induction ts arbitrary: h) simp_all
  then show ?thesis
    by (simp add: notify_push_tokens_for_offline_message_def autocommit_def query_def Let_def split: link.splits)
qed

end
