(* ===== verification/Api_Messages.thy ===== *)
theory Api_Messages
  imports Api_Relay_Examples
begin

text \<open>
  The peek at the offline queue (\<open>apps/api/src/messages.rs\<close>), whose handler is \<open>get_queued\<close> of
  \<open>Api_Relay\<close>: it finds the oldest message of the sender among the first 256 of the caller.
\<close>

text \<open>
  JetStream's direct get: the first message on the subject whose sequence number is at least the
  one asked for. The messages of a subject are in increasing order of their numbers.
\<close>

definition raw_laws :: "'q jetstream \<Rightarrow> string \<Rightarrow> 'q queue_view \<Rightarrow> 'q \<Rightarrow> bool" where
  "raw_laws js st V q \<longleftrightarrow> js_get_stream js st q \<and>
     (\<forall>subj k. js_first_raw js st subj k q =
        (case find (\<lambda>m. k \<le> fst m) (queued V q subj) of
           None \<Rightarrow> NoMessageFound
         | Some m \<Rightarrow> RawMessage (fst m) (snd m)))"

definition from_sender :: "lib \<Rightarrow> string \<Rightarrow> nat \<times> string \<Rightarrow> bool" where
  "from_sender L from m \<longleftrightarrow>
     (case parse_json L (snd m) of None \<Rightarrow> False | Some v \<Rightarrow> str_field v ''from'' = Some from)"

definition peek_answer :: "lib \<Rightarrow> (nat \<times> string) option \<Rightarrow> response" where
  "peek_answer L r =
     (case Option.bind r (\<lambda>m. parse_json L (snd m)) of
        None \<Rightarrow> fail_with 404 ''not_found''
      | Some v \<Rightarrow> Reply 200 (payload_json (json_opt (json_get v ''from''))
                    (json_opt (json_get v ''body_b64'')) (json_opt (json_get v ''sent_at''))))"

lemma peek_answer_simps:
  "peek_answer L None = fail_with 404 ''not_found''"
  "parse_json L (snd m) = Some v \<Longrightarrow> peek_answer L (Some m) =
     Reply 200 (payload_json (json_opt (json_get v ''from'')) (json_opt (json_get v ''body_b64'')) (json_opt (json_get v ''sent_at'')))"
  by (simp_all add: peek_answer_def)

lemma filter_from_head:
  assumes "sorted_wrt (<) (map fst ms)" and "filter (\<lambda>m. k \<le> fst m) ms = m # rest"
  shows "find (\<lambda>m. k \<le> fst m) ms = Some m" and "filter (\<lambda>x. Suc (fst m) \<le> fst x) ms = rest"
proof -
  show "find (\<lambda>m. k \<le> fst m) ms = Some m"
    using assms(2) by (induction ms) (auto split: if_splits)
  show "filter (\<lambda>x. Suc (fst m) \<le> fst x) ms = rest"
    using assms
  proof (induction ms)
    case (Cons x xs)
    show ?case
    proof (cases "k \<le> fst x")
      case True
      then have x: "x = m" and r: "rest = filter (\<lambda>m. k \<le> fst m) xs" using Cons.prems(2) by auto
      have "\<forall>y \<in> set xs. Suc (fst m) \<le> fst y" using Cons.prems(1) x by (auto simp: Suc_le_eq)
      then have "filter (\<lambda>y. Suc (fst m) \<le> fst y) xs = xs" and "filter (\<lambda>m. k \<le> fst m) xs = xs"
        using True x by (auto intro!: filter_True)
      then show ?thesis using x r by simp
    next
      case False
      then have f: "filter (\<lambda>m. k \<le> fst m) xs = m # rest" using Cons.prems(2) by simp
      then have "m \<in> set (filter (\<lambda>m. k \<le> fst m) xs)" by simp
      then have "k \<le> fst m" by simp
      then show ?thesis using Cons.IH f Cons.prems(1) False by simp
    qed
  qed simp
qed

lemma peek_loop_oldest:
  assumes laws: "raw_laws (app_js A) (stream_of A) V q" and s: "sorted_wrt (<) (map fst (queued V q subj))"
  shows "peek_loop A subj from n k q =
     peek_answer (app_lib A) (find (from_sender (app_lib A) from) (take n (filter (\<lambda>m. k \<le> fst m) (queued V q subj))))"
proof (induction n arbitrary: k)
  case 0
  then show ?case by (simp add: peek_answer_simps)
next
  case (Suc n)
  show ?case
  proof (cases "filter (\<lambda>m. k \<le> fst m) (queued V q subj)")
    case Nil
    then have "find (\<lambda>m. k \<le> fst m) (queued V q subj) = None"
      by (auto simp: find_None_iff filter_empty_conv)
    then show ?thesis using Nil laws by (simp add: raw_laws_def peek_answer_simps)
  next
    case (Cons m rest)
    note h = filter_from_head [OF s Cons]
    have r: "js_first_raw (app_js A) (stream_of A) subj k q = RawMessage (fst m) (snd m)"
      using laws h(1) by (simp add: raw_laws_def)
    show ?thesis
      using Suc.IH [of "Suc (fst m)"] r h(2) Cons
      by (auto simp: from_sender_def peek_answer_simps split: option.splits)
  qed
qed

text \<open>
  C33: the peek answers with the oldest message that the caller's own subject holds from the given
  sender, looking at the 256 oldest messages only and passing over what is no JSON; when there is
  none among them it answers 404, even if a later message is from that sender.
\<close>

theorem peek_finds_oldest:
  assumes "raw_laws (app_js A) (stream_of A) V q"
    and "sorted_wrt (<) (map fst (queued V q (subject_of A user_id)))"
  shows "get_queued A user_id from_user_id q =
    peek_answer (app_lib A) (find (from_sender (app_lib A) (show_uuid (app_lib A) from_user_id))
      (take 256 (queued V q (subject_of A user_id))))"
proof -
  have "js_get_stream (app_js A) (stream_of A) q" using assms(1) by (simp add: raw_laws_def)
  then show ?thesis
    using peek_loop_oldest [OF assms, of "show_uuid (app_lib A) from_user_id" 256 0]
    by (simp add: get_queued_def MAX_QUEUED_MESSAGES_PER_FETCH_def)
qed

theorem peek_finds_oldest_witness:
  "get_queued sample_app (Uuid 1) (Uuid 2) (nd_queue after_send) =
     Reply 200 (payload_json (JStr ''11'') (JStr ''aGk='') (JStr ''r''))"
proof -
  have "raw_laws (app_js sample_app) (stream_of sample_app) sample_view (nd_queue after_send)"
    by (auto simp: raw_laws_def sample_app_def sample_js_def sample_view_def split: option.splits)
  moreover have s: "subject_of sample_app (Uuid 1) = ''epistl.offline.1''" by code_simp
  have "sorted_wrt (<) (map fst (queued sample_view (nd_queue after_send) (subject_of sample_app (Uuid 1))))"
    by (simp add: s after_send_queue sample_view_def on_subject_def)
  ultimately have "get_queued sample_app (Uuid 1) (Uuid 2) (nd_queue after_send) =
      peek_answer (app_lib sample_app) (find (from_sender (app_lib sample_app) (show_uuid (app_lib sample_app) (Uuid 2)))
        (take 256 (queued sample_view (nd_queue after_send) (subject_of sample_app (Uuid 1)))))"
    by (rule peek_finds_oldest)
  also have "\<dots> = Reply 200 (payload_json (JStr ''11'') (JStr ''aGk='') (JStr ''r''))"
    by code_simp
  finally show ?thesis .
qed

end
