(* ===== verification/Api_Auth.thy ===== *)
theory Api_Auth
  imports Api_Contacts
begin

text \<open>
  Accounts and sessions (\<open>apps/api/src/auth.rs\<close>): the adapters between the app's tables and the
  \<open>better-auth\<close> crate, signup, login, and the validation of session tokens that every protected
  route and both transports share. The crate itself is a parameter: its request dispatcher, its
  session manager and its store, on a state \<open>'a\<close> of its own, any of which may fail.
\<close>

section \<open>Adapters of the tables\<close>

text \<open>The \<open>AuthUser\<close> trait: what the crate sees of a row of \<open>users\<close>.\<close>

record auth_user =
  au_id :: string
  au_email :: "string option"
  au_name :: "string option"
  au_email_verified :: bool
  au_image :: "string option"
  au_created_at :: timestamp
  au_updated_at :: timestamp
  au_username :: "string option"
  au_display_username :: "string option"
  au_two_factor_enabled :: bool
  au_role :: "string option"
  au_banned :: bool
  au_ban_reason :: "string option"
  au_ban_expires :: "timestamp option"
  au_metadata :: json

definition auth_user_of :: "lib \<Rightarrow> user_row \<Rightarrow> auth_user" where
  "auth_user_of L u =
     \<lparr>au_id = show_uuid L (u_id u), au_email = Some (u_email u), au_name = u_name u,
      au_email_verified = u_email_verified u, au_image = u_image u, au_created_at = u_created_at u,
      au_updated_at = u_updated_at u, au_username = Some (u_username u),
      au_display_username = u_display_username u, au_two_factor_enabled = False, au_role = None,
      au_banned = False, au_ban_reason = None, au_ban_expires = None, au_metadata = JObj []\<rparr>"

record create_user =
  cu_email :: "string option"
  cu_name :: "string option"
  cu_image :: "string option"
  cu_email_verified :: "bool option"
  cu_username :: "string option"
  cu_display_username :: "string option"

record update_user =
  up_email :: "string option"
  up_name :: "string option"
  up_image :: "string option"
  up_email_verified :: "bool option"
  up_username :: "string option"
  up_display_username :: "string option"

text \<open>\<open>fresh\<close> is what \<open>Uuid::new_v4\<close> would answer.\<close>

definition new_user :: "uuid \<Rightarrow> uuid option \<Rightarrow> create_user \<Rightarrow> timestamp \<Rightarrow> user_row" where
  "new_user fresh i c now =
     \<lparr>u_id = or_default fresh i, u_email = or_default [] (cu_email c),
      u_email_verified = or_default False (cu_email_verified c), u_name = cu_name c,
      u_image = cu_image c, u_username = or_default [] (cu_username c),
      u_display_username = cu_display_username c, u_created_at = now, u_updated_at = now\<rparr>"

text \<open>\<open>if let Some(v) = update.f { active.f = Set(Some(v)) }\<close>.\<close>

definition or_keep :: "'x option \<Rightarrow> 'x option \<Rightarrow> 'x option" where
  "or_keep old new = (case new of None \<Rightarrow> old | Some v \<Rightarrow> Some v)"

definition update_user_row :: "user_row \<Rightarrow> update_user \<Rightarrow> timestamp \<Rightarrow> user_row" where
  "update_user_row u upd now =
     u\<lparr>u_email := or_default (u_email u) (up_email upd),
       u_name := or_keep (u_name u) (up_name upd),
       u_image := or_keep (u_image u) (up_image upd),
       u_email_verified := or_default (u_email_verified u) (up_email_verified upd),
       u_username := or_default (u_username u) (up_username upd),
       u_display_username := or_keep (u_display_username u) (up_display_username upd),
       u_updated_at := now\<rparr>"

record auth_session =
  as_id :: string
  as_expires_at :: timestamp
  as_token :: string
  as_created_at :: timestamp
  as_updated_at :: timestamp
  as_ip_address :: "string option"
  as_user_agent :: "string option"
  as_user_id :: string
  as_impersonated_by :: "string option"
  as_active_organization_id :: "string option"
  as_active :: bool

definition auth_session_of :: "lib \<Rightarrow> session_row \<Rightarrow> auth_session" where
  "auth_session_of L s =
     \<lparr>as_id = show_uuid L (s_id s), as_expires_at = s_expires_at s, as_token = s_token s,
      as_created_at = s_created_at s, as_updated_at = s_updated_at s, as_ip_address = s_ip_address s,
      as_user_agent = s_user_agent s, as_user_id = show_uuid L (s_user_id s),
      as_impersonated_by = None, as_active_organization_id = None, as_active = s_active s\<rparr>"

record create_session =
  cs_user_id :: string
  cs_expires_at :: timestamp
  cs_ip_address :: "string option"
  cs_user_agent :: "string option"

text \<open>The \<open>expect\<close> on the user id panics (\<open>None\<close>) when it is no UUID.\<close>

definition new_session ::
  "lib \<Rightarrow> uuid \<Rightarrow> uuid option \<Rightarrow> string \<Rightarrow> create_session \<Rightarrow> timestamp \<Rightarrow> session_row option" where
  "new_session L fresh i token c now =
     map_option (\<lambda>user_id.
       \<lparr>s_id = or_default fresh i, s_user_id = user_id, s_token = token, s_expires_at = cs_expires_at c,
        s_ip_address = cs_ip_address c, s_user_agent = cs_user_agent c, s_active = True,
        s_created_at = now, s_updated_at = now\<rparr>)
       (parse_uuid L (cs_user_id c))"

definition set_session_expires_at :: "session_row \<Rightarrow> timestamp \<Rightarrow> session_row" where
  "set_session_expires_at s t = s\<lparr>s_expires_at := t\<rparr>"

definition set_session_updated_at :: "session_row \<Rightarrow> timestamp \<Rightarrow> session_row" where
  "set_session_updated_at s t = s\<lparr>s_updated_at := t\<rparr>"

definition set_active_organization_id :: "session_row \<Rightarrow> string option \<Rightarrow> session_row" where
  "set_active_organization_id s organization = s"

record auth_account =
  aa_id :: string
  aa_account_id :: string
  aa_provider_id :: string
  aa_user_id :: string
  aa_access_token :: "string option"
  aa_refresh_token :: "string option"
  aa_id_token :: "string option"
  aa_access_token_expires_at :: "timestamp option"
  aa_refresh_token_expires_at :: "timestamp option"
  aa_scope :: "string option"
  aa_password :: "string option"
  aa_created_at :: timestamp
  aa_updated_at :: timestamp

definition auth_account_of :: "lib \<Rightarrow> account_row \<Rightarrow> auth_account" where
  "auth_account_of L a =
     \<lparr>aa_id = show_uuid L (a_id a), aa_account_id = a_account_id a, aa_provider_id = a_provider_id a,
      aa_user_id = show_uuid L (a_user_id a), aa_access_token = a_access_token a,
      aa_refresh_token = a_refresh_token a, aa_id_token = a_id_token a,
      aa_access_token_expires_at = a_access_token_expires_at a,
      aa_refresh_token_expires_at = a_refresh_token_expires_at a, aa_scope = a_scope a,
      aa_password = a_password a, aa_created_at = a_created_at a, aa_updated_at = a_updated_at a\<rparr>"

record account_fields =
  af_access_token :: "string option"
  af_refresh_token :: "string option"
  af_id_token :: "string option"
  af_access_token_expires_at :: "timestamp option"
  af_refresh_token_expires_at :: "timestamp option"
  af_scope :: "string option"
  af_password :: "string option"

text \<open>\<open>CreateAccount\<close> is the fields of \<open>UpdateAccount\<close> and what identifies the account.\<close>

definition new_account ::
  "lib \<Rightarrow> uuid \<Rightarrow> uuid option \<Rightarrow> string \<Rightarrow> string \<Rightarrow> string \<Rightarrow> account_fields \<Rightarrow> timestamp \<Rightarrow> account_row option" where
  "new_account L fresh i account_id provider_id user_id c now =
     map_option (\<lambda>uid.
       \<lparr>a_id = or_default fresh i, a_account_id = account_id, a_provider_id = provider_id,
        a_user_id = uid, a_access_token = af_access_token c, a_refresh_token = af_refresh_token c,
        a_id_token = af_id_token c, a_access_token_expires_at = af_access_token_expires_at c,
        a_refresh_token_expires_at = af_refresh_token_expires_at c, a_scope = af_scope c,
        a_password = af_password c, a_created_at = now, a_updated_at = now\<rparr>)
       (parse_uuid L user_id)"

definition update_account_row :: "account_row \<Rightarrow> account_fields \<Rightarrow> timestamp \<Rightarrow> account_row" where
  "update_account_row a upd now =
     a\<lparr>a_access_token := or_keep (a_access_token a) (af_access_token upd),
       a_refresh_token := or_keep (a_refresh_token a) (af_refresh_token upd),
       a_id_token := or_keep (a_id_token a) (af_id_token upd),
       a_access_token_expires_at := or_keep (a_access_token_expires_at a) (af_access_token_expires_at upd),
       a_refresh_token_expires_at := or_keep (a_refresh_token_expires_at a) (af_refresh_token_expires_at upd),
       a_scope := or_keep (a_scope a) (af_scope upd),
       a_password := or_keep (a_password a) (af_password upd),
       a_updated_at := now\<rparr>"

record verification_row =
  v_id :: uuid
  v_identifier :: string
  v_value :: string
  v_expires_at :: timestamp
  v_created_at :: timestamp
  v_updated_at :: timestamp

definition new_verification ::
  "uuid \<Rightarrow> uuid option \<Rightarrow> string \<Rightarrow> string \<Rightarrow> timestamp \<Rightarrow> timestamp \<Rightarrow> verification_row" where
  "new_verification fresh i identifier val expires_at now =
     \<lparr>v_id = or_default fresh i, v_identifier = identifier, v_value = val, v_expires_at = expires_at,
      v_created_at = now, v_updated_at = now\<rparr>"

section \<open>The crate\<close>

record auth_response =
  ar_status :: nat
  ar_body :: string

record 'a better_auth =
  ba_handle_request :: "string \<Rightarrow> string \<Rightarrow> 'a \<Rightarrow> (string + auth_response) \<times> 'a"
  ba_error_response :: "string \<Rightarrow> auth_response"
  ba_get_session :: "string \<Rightarrow> 'a \<Rightarrow> (string + session_row option) \<times> 'a"
  ba_get_user_by_id :: "string \<Rightarrow> 'a \<Rightarrow> (string + user_row option) \<times> 'a"

definition dispatch :: "'a better_auth \<Rightarrow> lib \<Rightarrow> string \<Rightarrow> json \<Rightarrow> 'a \<Rightarrow> auth_response \<times> 'a" where
  "dispatch B L path body a =
     (case ba_handle_request B path (show_json L body) a of
        (Inr resp, a') \<Rightarrow> (resp, a')
      | (Inl err, a') \<Rightarrow> (ba_error_response B err, a'))"

definition json_body :: "lib \<Rightarrow> string \<Rightarrow> json" where
  "json_body L bytes = or_default JNull (parse_json L bytes)"

definition placeholder_name :: "string \<Rightarrow> string" where
  "placeholder_name email =
     (let local = first_piece (CHR ''@'') email in if local \<noteq> [] then local else ''user'')"

section \<open>Signup and login\<close>

record signup_payload =
  sp_email :: "string option"
  sp_password :: "string option"
  sp_username :: "string option"

record login_payload =
  lp_email :: "string option"
  lp_password :: "string option"

definition token_and_user :: "json \<Rightarrow> json" where
  "token_and_user parsed =
     JObj [(''token'', JStr (or_default [] (str_field parsed ''token''))),
           (''user'', or_default (JObj []) (json_get parsed ''user''))]"

definition username_exists :: "string \<Rightarrow> database \<Rightarrow> bool" where
  "username_exists name db \<longleftrightarrow> list_ex (\<lambda>u. u_username u = name) (users db)"

definition signup_body :: "string \<Rightarrow> string \<Rightarrow> string \<Rightarrow> json" where
  "signup_body email password username =
     JObj [(''email'', JStr email), (''password'', JStr password),
           (''name'', JStr (placeholder_name email)), (''username'', JStr username)]"

definition signup ::
  "'a better_auth \<Rightarrow> lib \<Rightarrow> dbenv \<Rightarrow> signup_payload \<Rightarrow> 'a \<times> database \<Rightarrow> response \<times> 'a \<times> database" where
  "signup B L e payload st =
     (let email = or_default [] (sp_email payload);
          password = or_default [] (sp_password payload);
          username = or_default [] (sp_username payload)
      in if username = [] then (fail_with 400 ''username required'', st)
         else (case autocommit e 0 (query (username_exists (to_lowercase L username))) (snd st) of
                 (Inr True, db1) \<Rightarrow> (fail_with 409 ''username already taken'', fst st, db1)
               | (Inl _, db1) \<Rightarrow> (fail_with 500 ''internal error'', fst st, db1)
               | (Inr False, db1) \<Rightarrow>
                   (case dispatch B L ''/sign-up/email'' (signup_body email password username) (fst st) of
                      (resp, a') \<Rightarrow>
                        (if ar_status resp = 200 then Reply 201 (token_and_user (json_body L (ar_body resp)))
                         else if ar_status resp = 422 then fail_with 409 ''email already registered''
                         else fail_with 400 ''invalid input'', a', db1))))"

text \<open>\<open>StatusCode::from_u16\<close> accepts three-digit codes.\<close>

definition status_from_u16 :: "nat \<Rightarrow> nat" where
  "status_from_u16 status = (if 100 \<le> status \<and> status < 1000 then status else 500)"

definition login :: "'a better_auth \<Rightarrow> lib \<Rightarrow> login_payload \<Rightarrow> 'a \<Rightarrow> response \<times> 'a" where
  "login B L payload a =
     (let body = JObj [(''email'', JStr (or_default [] (lp_email payload))),
                       (''password'', JStr (or_default [] (lp_password payload)))]
      in case dispatch B L ''/sign-in/email'' body a of
           (resp, a') \<Rightarrow>
             (if ar_status resp = 200 then Reply 200 (token_and_user (json_body L (ar_body resp)))
              else if ar_status resp = 401 then fail_with 401 ''invalid credentials''
              else fail_with (status_from_u16 (ar_status resp)) ''invalid input'', a'))"

section \<open>Session tokens\<close>

definition unauthorized :: response where
  "unauthorized = fail_with 401 ''unauthorized''"

text \<open>
  The value of the \<open>Authorization\<close> header, when there is one and \<open>to_str\<close> accepts it (visible ASCII
  and tabs).
\<close>

definition header_str :: "string \<Rightarrow> string option" where
  "header_str v =
     (if list_all (\<lambda>c. 32 \<le> byte c \<and> byte c < 127 \<or> byte c = 9) v then Some v else None)"

definition bearer_prefix :: string where
  "bearer_prefix = ''Bearer ''"

definition bearer_token :: "string option \<Rightarrow> string option" where
  "bearer_token header =
     (case Option.bind (Option.bind header header_str) (strip_prefix bearer_prefix) of
        Some token \<Rightarrow> if token \<noteq> [] then Some token else None
      | None \<Rightarrow> None)"

definition authenticate_token ::
  "'a better_auth \<Rightarrow> lib \<Rightarrow> string \<Rightarrow> 'a \<Rightarrow> (user_row \<times> session_row) option \<times> 'a" where
  "authenticate_token B L token a =
     (if token = [] then (None, a)
      else (case ba_get_session B token a of
              (Inr (Some session), a1) \<Rightarrow>
                (case ba_get_user_by_id B (as_user_id (auth_session_of L session)) a1 of
                   (Inr (Some user), a2) \<Rightarrow> (Some (user, session), a2)
                 | (_, a2) \<Rightarrow> (None, a2))
            | (_, a1) \<Rightarrow> (None, a1)))"

text \<open>The extractor: every protected handler runs after it, or not at all.\<close>

definition authenticated_user ::
  "'a better_auth \<Rightarrow> lib \<Rightarrow> string option \<Rightarrow> 'a \<Rightarrow> (response + user_row \<times> session_row) \<times> 'a" where
  "authenticated_user B L header a =
     (case bearer_token header of
        None \<Rightarrow> (Inl unauthorized, a)
      | Some token \<Rightarrow>
          (case authenticate_token B L token a of
             (Some us, a') \<Rightarrow> (Inr us, a')
           | (None, a') \<Rightarrow> (Inl unauthorized, a')))"

definition protected ::
  "'a better_auth \<Rightarrow> lib \<Rightarrow> string option \<Rightarrow> (user_row \<Rightarrow> 's \<Rightarrow> response \<times> 's) \<Rightarrow> 'a \<times> 's \<Rightarrow> response \<times> 'a \<times> 's" where
  "protected B L header handler st =
     (case authenticated_user B L header (fst st) of
        (Inl resp, a') \<Rightarrow> (resp, a', snd st)
      | (Inr (user, session), a') \<Rightarrow> (let (resp, s') = handler user (snd st) in (resp, a', s')))"

section \<open>Properties\<close>

lemma bearer_token_iff:
  "bearer_token header = Some token \<longleftrightarrow>
     token \<noteq> [] \<and> header = Some (bearer_prefix @ token) \<and> header_str (bearer_prefix @ token) \<noteq> None"
proof (cases header)
  case (Some v)
  have h: "header_str v = Some v \<or> header_str v = None" by (simp add: header_str_def)
  show ?thesis
  proof (cases "strip_prefix bearer_prefix v")
    case None
    then have "v \<noteq> bearer_prefix @ token" by (simp add: strip_prefix_None)
    then show ?thesis using Some None h by (auto simp: bearer_token_def)
  next
    case p: (Some r)
    then have "v = bearer_prefix @ r" by (simp add: strip_prefix_Some)
    then show ?thesis using Some p h by (auto simp: bearer_token_def split: if_splits)
  qed
qed (simp add: bearer_token_def)

text \<open>
  A protected handler runs only for a request that carries \<open>Bearer\<close> and a non-empty token for
  which the session manager knows a live session whose user exists, and it runs for that user; in
  every other case, an outage of the store included, the answer is the same 401 and the
  application state is untouched.
\<close>

theorem protected_runs_only_authenticated:
  "(\<exists>token session user a1 a2.
      token \<noteq> [] \<and> header = Some (bearer_prefix @ token) \<and> header_str (bearer_prefix @ token) \<noteq> None \<and>
      ba_get_session B token a = (Inr (Some session), a1) \<and>
      ba_get_user_by_id B (show_uuid L (s_user_id session)) a1 = (Inr (Some user), a2) \<and>
      protected B L header handler (a, s) = (fst (handler user s), a2, snd (handler user s))) \<or>
   (\<exists>a'. protected B L header handler (a, s) = (unauthorized, a', s))"
proof (cases "bearer_token header")
  case None
  then show ?thesis by (simp add: protected_def authenticated_user_def)
next
  case (Some token)
  then have t: "token \<noteq> []" "header = Some (bearer_prefix @ token)" "header_str (bearer_prefix @ token) \<noteq> None"
    by (simp_all add: bearer_token_iff)
  obtain r1 a1 where 1: "ba_get_session B token a = (r1, a1)" by (rule prod.exhaust)
  show ?thesis
  proof (cases "\<exists>session. r1 = Inr (Some session)")
    case False
    then have "authenticate_token B L token a = (None, a1)"
      using 1 t(1) by (auto simp: authenticate_token_def split: sum.splits option.splits)
    then show ?thesis by (simp add: protected_def authenticated_user_def Some)
  next
    case True
    then obtain session where s: "r1 = Inr (Some session)" by blast
    obtain r2 a2 where 2: "ba_get_user_by_id B (show_uuid L (s_user_id session)) a1 = (r2, a2)" by (rule prod.exhaust)
    show ?thesis
    proof (cases "\<exists>user. r2 = Inr (Some user)")
      case False
      then have "authenticate_token B L token a = (None, a2)"
        using 1 2 s t(1) by (auto simp: authenticate_token_def auth_session_of_def split: sum.splits option.splits)
      then show ?thesis by (simp add: protected_def authenticated_user_def Some)
    next
      case True
      then obtain user where u: "r2 = Inr (Some user)" by blast
      then have "authenticate_token B L token a = (Some (user, session), a2)"
        using 1 2 s t(1) by (simp add: authenticate_token_def auth_session_of_def)
      then have "protected B L header handler (a, s) = (fst (handler user s), a2, snd (handler user s))"
        by (simp add: protected_def authenticated_user_def Some case_prod_beta)
      then show ?thesis using t 1 2 s u by blast
    qed
  qed
qed

text \<open>
  Signup creates nothing when it refuses the username itself: without a username, with one that
  is taken or when the check fails, \<open>better-auth\<close> is not called; otherwise its answer alone decides,
  200 becoming 201, 422 becoming 409 and anything else 400.
\<close>

theorem signup_answers:
  "signup B L e payload (a, db) =
    (let username = or_default [] (sp_username payload);
         db1 = peers e 0 [] db;
         taken = username_exists (to_lowercase L username) db1;
         call = dispatch B L ''/sign-up/email''
           (signup_body (or_default [] (sp_email payload)) (or_default [] (sp_password payload)) username) a
     in if username = [] then (fail_with 400 ''username required'', a, db)
        else if net e 0 \<noteq> Up then (fail_with 500 ''internal error'', a, db1)
        else if taken then (fail_with 409 ''username already taken'', a, db1)
        else (case ar_status (fst call) of
                n \<Rightarrow> if n = 200 then Reply 201 (token_and_user (json_body L (ar_body (fst call))))
                     else if n = 422 then fail_with 409 ''email already registered''
                     else fail_with 400 ''invalid input'',
              snd call, db1))"
  by (cases "net e 0")
     (auto simp: signup_def Let_def autocommit_def query_def case_prod_beta split: bool.splits)

text \<open>
  Updating a row twice is updating it once with the later fields winning, the row keeps its id
  and creation time, and fields the update leaves out keep their value.
\<close>

theorem user_updates_compose:
  "update_user_row (update_user_row u a t1) b t2 =
     update_user_row u
       \<lparr>up_email = or_keep (up_email a) (up_email b), up_name = or_keep (up_name a) (up_name b),
        up_image = or_keep (up_image a) (up_image b),
        up_email_verified = or_keep (up_email_verified a) (up_email_verified b),
        up_username = or_keep (up_username a) (up_username b),
        up_display_username = or_keep (up_display_username a) (up_display_username b)\<rparr> t2 \<and>
   u_id (update_user_row u a t1) = u_id u \<and> u_created_at (update_user_row u a t1) = u_created_at u"
  by (cases u) (simp add: update_user_row_def or_keep_def or_default_def split: option.splits)

end
