(* ===== verification/Api_Transport.thy ===== *)
theory Api_Transport
  imports Api_Relay_Node Api_Auth
begin

text \<open>
  The two transports (\<open>apps/api/src/ws.rs\<close>, \<open>apps/api/src/quic.rs\<close>): how a connection is
  authenticated, registered, served and taken down, and how the frames of its channel become wire
  writes. A socket is a parameter: what arrives on it is a list, and each write may fail.
\<close>

section \<open>Wire operations\<close>

text \<open>
  What a connection writes: a WebSocket message, the bytes of a QUIC stream, or a close. A close of
  the QUIC connection carries the code itself.
\<close>

datatype wire =
    WsText string
  | WsClose nat string
  | QuicBytes string
  | QuicClose nat string

definition frame_to_message :: "frame \<Rightarrow> wire" where
  "frame_to_message f = (case f of Text s \<Rightarrow> WsText s | Close code reason \<Rightarrow> WsClose code reason)"

section \<open>Forwarding\<close>

text \<open>
  The forward task of a WebSocket: every frame in order, until a write fails or a close was
  written. \<open>ok i\<close> tells whether the \<open>i\<close>-th write succeeds; the result is what was attempted.
\<close>

fun ws_forward :: "(nat \<Rightarrow> bool) \<Rightarrow> nat \<Rightarrow> frame list \<Rightarrow> wire list" where
  "ws_forward ok i [] = []"
| "ws_forward ok i (f # fs) =
     (let message = frame_to_message f;
          is_close = (case message of WsClose _ _ \<Rightarrow> True | _ \<Rightarrow> False)
      in message # (if \<not> ok i \<or> is_close then [] else ws_forward ok (Suc i) fs))"

text \<open>On QUIC a text is two writes, and the close is no write.\<close>

fun quic_forward :: "(nat \<Rightarrow> bool) \<Rightarrow> nat \<Rightarrow> frame list \<Rightarrow> wire list" where
  "quic_forward ok i [] = []"
| "quic_forward ok i (f # fs) =
     (case f of
        Text s \<Rightarrow>
          QuicBytes s #
            (if \<not> ok i then []
             else QuicBytes [newline] # (if \<not> ok (Suc i) then [] else quic_forward ok (Suc (Suc i)) fs))
      | Close code reason \<Rightarrow> [QuicClose code reason])"

section \<open>What both transports promise\<close>

text \<open>The frames a client gets to see: up to the first close, which is the last.\<close>

fun until_close :: "frame list \<Rightarrow> frame list" where
  "until_close [] = []"
| "until_close (Text s # fs) = Text s # until_close fs"
| "until_close (Close c r # fs) = [Close c r]"

text \<open>
  A transport is a forward loop and a reader of what it wrote: with working writes the client reads
  exactly the frames up to the first close, whatever is queued behind it.
\<close>

locale frame_transport =
  fixes forward :: "(nat \<Rightarrow> bool) \<Rightarrow> nat \<Rightarrow> frame list \<Rightarrow> wire list"
    and read_back :: "wire list \<Rightarrow> frame list"
    and fits :: "frame \<Rightarrow> bool"
  assumes reads: "list_all fits fs \<Longrightarrow> read_back (forward (\<lambda>_. True) i fs) = until_close fs"
    and nothing: "forward ok i [] = []"
begin

lemma nothing_after_close:
  assumes "list_all fits (fs @ [Close c r])" and "list_all fits gs" and "\<forall>f \<in> set fs. \<exists>s. f = Text s"
  shows "read_back (forward (\<lambda>_. True) i (fs @ Close c r # gs)) = fs @ [Close c r]"
proof -
  have "until_close (fs @ Close c r # gs) = fs @ [Close c r]"
    using assms(3) by (induction fs) auto
  then show ?thesis using reads [of "fs @ Close c r # gs" i] assms by simp
qed

lemma in_order:
  assumes "list_all fits fs" and "\<forall>f \<in> set fs. \<exists>s. f = Text s"
  shows "read_back (forward (\<lambda>_. True) i fs) = fs"
proof -
  have "until_close fs = fs" using assms(2) by (induction fs) auto
  then show ?thesis using reads assms(1) by simp
qed

end

text \<open>A WebSocket client reads messages.\<close>

fun ws_read :: "wire list \<Rightarrow> frame list" where
  "ws_read [] = []"
| "ws_read (WsText s # ws) = Text s # ws_read ws"
| "ws_read (WsClose c r # ws) = [Close c r]"
| "ws_read (_ # ws) = ws_read ws"

text \<open>
  A QUIC client splits the bytes at newlines, as the client of \<open>packages/quic-relay-client\<close> does; the
  close ends the stream. \<open>acc\<close> is the line read so far.
\<close>

fun quic_lines :: "string \<Rightarrow> string \<Rightarrow> frame list \<times> string" where
  "quic_lines acc [] = ([], acc)"
| "quic_lines acc (c # cs) =
     (if c = newline then (let (fs, rest) = quic_lines [] cs in (Text acc # fs, rest))
      else quic_lines (acc @ [c]) cs)"

fun quic_read_from :: "string \<Rightarrow> wire list \<Rightarrow> frame list" where
  "quic_read_from acc [] = []"
| "quic_read_from acc (QuicBytes s # ws) =
     (let (fs, acc') = quic_lines acc s in fs @ quic_read_from acc' ws)"
| "quic_read_from acc (QuicClose c r # ws) = [Close c r]"
| "quic_read_from acc (_ # ws) = quic_read_from acc ws"

definition quic_read :: "wire list \<Rightarrow> frame list" where
  "quic_read ws = quic_read_from [] ws"

definition one_line :: "frame \<Rightarrow> bool" where
  "one_line f = (case f of Text s \<Rightarrow> newline \<notin> set s | Close _ _ \<Rightarrow> True)"

lemma ws_reads: "ws_read (ws_forward (\<lambda>_. True) i fs) = until_close fs"
  by (induction fs arbitrary: i rule: until_close.induct) (simp_all add: frame_to_message_def Let_def)

lemma quic_lines_free: "newline \<notin> set s \<Longrightarrow> quic_lines acc s = ([], acc @ s)"
  by (induction s arbitrary: acc) auto

lemma quic_reads: "list_all one_line fs \<Longrightarrow> quic_read (quic_forward (\<lambda>_. True) i fs) = until_close fs"
  by (induction fs arbitrary: i rule: until_close.induct)
     (simp_all add: quic_read_def one_line_def quic_lines_free)

interpretation ws: frame_transport ws_forward ws_read "\<lambda>_. True"
  by unfold_locales (simp_all add: ws_reads)

interpretation quic: frame_transport quic_forward quic_read one_line
  by unfold_locales (simp_all add: quic_reads)

section \<open>Serving a connection\<close>

text \<open>What a WebSocket yields next.\<close>

datatype ws_item =
    ItemText string
  | ItemOther
  | ItemClose
  | ItemError

text \<open>\<open>now i\<close> and \<open>e i\<close> are the clock and the database connection while the \<open>i\<close>-th item is handled.\<close>

fun ws_serve ::
  "('q, 'h) app \<Rightarrow> (nat \<Rightarrow> dbenv) \<Rightarrow> (nat \<Rightarrow> nat \<Rightarrow> timestamp) \<Rightarrow> uuid \<Rightarrow> sender \<Rightarrow> nat \<Rightarrow> ws_item list
     \<Rightarrow> ('q, 'h) node \<Rightarrow> ('q, 'h) node" where
  "ws_serve A e now u tx i [] n = n"
| "ws_serve A e now u tx i (item # items) n =
     (case item of
        ItemText s \<Rightarrow>
          (let (alive, n') = handle_client_frame A (e i) (now i) u tx s n
           in if \<not> alive then n' else ws_serve A e now u tx (Suc i) items n')
      | ItemOther \<Rightarrow> ws_serve A e now u tx (Suc i) items n
      | ItemClose \<Rightarrow> n
      | ItemError \<Rightarrow> n)"

definition handle_socket ::
  "('q, 'h) app \<Rightarrow> (nat \<Rightarrow> dbenv) \<Rightarrow> (nat \<Rightarrow> nat \<Rightarrow> timestamp) \<Rightarrow> uuid \<Rightarrow> sender \<Rightarrow> ws_item list
     \<Rightarrow> ('q, 'h) node \<Rightarrow> ('q, 'h) node" where
  "handle_socket A e now u tx items n =
     (let n1 = n\<lparr>nd_live := register_connection u tx (nd_live n)\<rparr>;
          n2 = deliver_queued_messages A u tx n1;
          n3 = ws_serve A e now u tx 0 items n2
      in n3\<lparr>nd_live := close_connection u tx (nd_live n3)\<rparr>)"

definition ws_handler ::
  "'a better_auth \<Rightarrow> ('q, 'h) app \<Rightarrow> (nat \<Rightarrow> dbenv) \<Rightarrow> (nat \<Rightarrow> nat \<Rightarrow> timestamp) \<Rightarrow> string option \<Rightarrow> sender
     \<Rightarrow> ws_item list \<Rightarrow> 'a \<times> ('q, 'h) node \<Rightarrow> wire list \<times> 'a \<times> ('q, 'h) node" where
  "ws_handler B A e now query_token tx items st =
     (case authenticate_token B (app_lib A) (or_default [] query_token) (fst st) of
        (Some (user, session), a') \<Rightarrow> ([], a', handle_socket A e now (u_id user) tx items (snd st))
      | (None, a') \<Rightarrow> ([WsClose CLOSE_UNAUTHORIZED ''unauthorized''], a', snd st))"

section \<open>QUIC\<close>

definition LISTEN_ADDR_VAR :: string where "LISTEN_ADDR_VAR = ''QUIC_LISTEN_ADDR''"
definition DEFAULT_LISTEN_ADDR :: string where "DEFAULT_LISTEN_ADDR = ''0.0.0.0:4433''"
definition DISABLE_VALUE :: string where "DISABLE_VALUE = ''off''"

text \<open>The errors carry the text of their cause; \<open>debug\<close> is the \<open>{:?}\<close> form of a string.\<close>

datatype quic_listen_error =
    InvalidAddr string string
  | GenerateCert string
  | BuildTlsConfig string
  | BuildQuicConfig string
  | Bind string string

definition show_quic_listen_error :: "(string \<Rightarrow> string) \<Rightarrow> quic_listen_error \<Rightarrow> string" where
  "show_quic_listen_error debug err =
     (case err of
        InvalidAddr val source \<Rightarrow> LISTEN_ADDR_VAR @ ''='' @ debug val @ '' is not a valid socket address: '' @ source
      | GenerateCert source \<Rightarrow> ''failed to generate self-signed dev cert: '' @ source
      | BuildTlsConfig source \<Rightarrow> ''failed to build QUIC TLS server config: '' @ source
      | BuildQuicConfig source \<Rightarrow> ''failed to adapt TLS config for QUIC: '' @ source
      | Bind addr source \<Rightarrow> ''failed to bind QUIC listener on '' @ addr @ '': '' @ source)"

text \<open>\<open>parse\<close> is \<open>str::parse::<SocketAddr>\<close>.\<close>

definition resolve_listen_addr ::
  "(string \<Rightarrow> string + 'addr) \<Rightarrow> host \<Rightarrow> quic_listen_error + 'addr option" where
  "resolve_listen_addr parse h =
     (let val = or_default DEFAULT_LISTEN_ADDR (env_var h LISTEN_ADDR_VAR)
      in if eq_ignore_ascii_case val DISABLE_VALUE then Inr None
         else (case parse val of Inl source \<Rightarrow> Inl (InvalidAddr val source) | Inr addr \<Rightarrow> Inr (Some addr)))"

text \<open>
  The crates under the listener: the generated certificate and the two configurations are kept in
  the state, an error is its text.
\<close>

record ('addr, 'w) quic_stack =
  parse_addr :: "string \<Rightarrow> string + 'addr"
  show_addr :: "'addr \<Rightarrow> string"
  generate_cert :: "string list \<Rightarrow> 'w \<Rightarrow> (string + unit) \<times> 'w"
  tls_config :: "'w \<Rightarrow> (string + unit) \<times> 'w"
  quic_config :: "'w \<Rightarrow> (string + unit) \<times> 'w"
  server_endpoint :: "'addr \<Rightarrow> 'w \<Rightarrow> (string + unit) \<times> 'w"

definition build_server_config :: "('addr, 'w) quic_stack \<Rightarrow> 'w \<Rightarrow> (quic_listen_error + unit) \<times> 'w" where
  "build_server_config K =
     and_then (map_err GenerateCert (generate_cert K [''localhost'', ''127.0.0.1''])) (\<lambda>_.
     and_then (map_err BuildTlsConfig (tls_config K)) (\<lambda>_.
       map_err BuildQuicConfig (quic_config K)))"

definition bind_endpoint :: "('addr, 'w) quic_stack \<Rightarrow> 'addr \<Rightarrow> 'w \<Rightarrow> (quic_listen_error + unit) \<times> 'w" where
  "bind_endpoint K addr =
     and_then (build_server_config K) (\<lambda>_. map_err (Bind (show_addr K addr)) (server_endpoint K addr))"

text \<open>Whether the accept loop was spawned.\<close>

definition maybe_spawn :: "('addr, 'w) quic_stack \<Rightarrow> host \<Rightarrow> 'w \<Rightarrow> (quic_listen_error + bool) \<times> 'w" where
  "maybe_spawn K h =
     (case resolve_listen_addr (parse_addr K) h of
        Inl err \<Rightarrow> fails err
      | Inr None \<Rightarrow> yields False
      | Inr (Some addr) \<Rightarrow> and_then (bind_endpoint K addr) (\<lambda>_. yields True))"

text \<open>
  \<open>read_line\<close> yields a line with its end, or fails (an error of the stream or bytes that are no
  UTF-8); after the last line the stream is at its end.
\<close>

datatype quic_line =
    Line string
  | LineError

definition authenticate_first_frame ::
  "'a better_auth \<Rightarrow> lib \<Rightarrow> quic_line list \<Rightarrow> 'a \<Rightarrow> uuid option \<times> 'a" where
  "authenticate_first_frame B L input a =
     (case input of
        [] \<Rightarrow> (None, a)
      | LineError # _ \<Rightarrow> (None, a)
      | Line line # _ \<Rightarrow>
          (case parse_json L (trim_newlines line) of
             None \<Rightarrow> (None, a)
           | Some parsed \<Rightarrow>
               if str_field parsed ''type'' \<noteq> Some ''auth'' then (None, a)
               else (case str_field parsed ''token'' of
                       None \<Rightarrow> (None, a)
                     | Some token \<Rightarrow>
                         (case authenticate_token B L token a of
                            (Some (user, _), a') \<Rightarrow> (Some (u_id user), a')
                          | (None, a') \<Rightarrow> (None, a')))))"

fun quic_serve ::
  "('q, 'h) app \<Rightarrow> (nat \<Rightarrow> dbenv) \<Rightarrow> (nat \<Rightarrow> nat \<Rightarrow> timestamp) \<Rightarrow> uuid \<Rightarrow> sender \<Rightarrow> nat \<Rightarrow> quic_line list
     \<Rightarrow> ('q, 'h) node \<Rightarrow> ('q, 'h) node" where
  "quic_serve A e now u tx i [] n = n"
| "quic_serve A e now u tx i (LineError # _) n = n"
| "quic_serve A e now u tx i (Line line # input) n =
     (let (alive, n') = handle_client_frame A (e i) (now i) u tx (trim_newlines line) n
      in if \<not> alive then n' else quic_serve A e now u tx (Suc i) input n')"

text \<open>\<open>input\<close> is \<open>None\<close> when the client never opens its control stream.\<close>

definition handle_connection ::
  "'a better_auth \<Rightarrow> ('q, 'h) app \<Rightarrow> (nat \<Rightarrow> dbenv) \<Rightarrow> (nat \<Rightarrow> nat \<Rightarrow> timestamp) \<Rightarrow> sender
     \<Rightarrow> quic_line list option \<Rightarrow> 'a \<times> ('q, 'h) node \<Rightarrow> wire list \<times> 'a \<times> ('q, 'h) node" where
  "handle_connection B A e now tx input st =
     (case input of
        None \<Rightarrow> ([], st)
      | Some ls \<Rightarrow>
          (case authenticate_first_frame B (app_lib A) ls (fst st) of
             (None, a') \<Rightarrow> ([QuicClose CLOSE_UNAUTHORIZED ''unauthorized''], a', snd st)
           | (Some user_id, a') \<Rightarrow>
               (let n1 = (snd st)\<lparr>nd_live := register_connection user_id tx (nd_live (snd st))\<rparr>;
                    n2 = deliver_queued_messages A user_id tx n1;
                    n3 = quic_serve A e now user_id tx 0 (tl ls) n2
                in ([], a', n3\<lparr>nd_live := close_connection user_id tx (nd_live n3)\<rparr>))))"

text \<open>
  Every connection is accepted and served by a task of its own, once its handshake succeeded. Here
  the tasks run one after the other; \<open>tx i\<close> is the channel of the \<open>i\<close>-th connection, and \<open>None\<close> a
  failed handshake.
\<close>

fun accept_loop ::
  "'a better_auth \<Rightarrow> ('q, 'h) app \<Rightarrow> (nat \<Rightarrow> nat \<Rightarrow> dbenv) \<Rightarrow> (nat \<Rightarrow> nat \<Rightarrow> nat \<Rightarrow> timestamp) \<Rightarrow> (nat \<Rightarrow> sender) \<Rightarrow> nat
     \<Rightarrow> quic_line list option option list \<Rightarrow> 'a \<times> ('q, 'h) node \<Rightarrow> wire list list \<times> 'a \<times> ('q, 'h) node" where
  "accept_loop B A e now tx i [] st = ([], st)"
| "accept_loop B A e now tx i (None # rest) st =
     (let (ws, st') = accept_loop B A e now tx (Suc i) rest st in ([] # ws, st'))"
| "accept_loop B A e now tx i (Some input # rest) st =
     (let (w, st1) = handle_connection B A (e i) (now i) (tx i) input st;
          (ws, st2) = accept_loop B A e now tx (Suc i) rest st1
      in (w # ws, st2))"

section \<open>Properties\<close>

text \<open>
  Both transports show a client the same frames: whatever was queued on its channel up to the
  first close, in order, each text once, and nothing after the close; on QUIC this needs that no
  frame contains a newline, which the line framing reserves.
\<close>

theorem transports_agree:
  assumes "list_all one_line fs"
  shows "quic_read (quic_forward (\<lambda>_. True) i fs) = until_close fs \<and>
    ws_read (ws_forward (\<lambda>_. True) j fs) = until_close fs"
  using quic.reads [OF assms] ws.reads [of fs j] by (simp add: list_all_iff)

theorem transports_agree_witness:
  "quic_read (quic_forward (\<lambda>_. True) 0 [Text ''a'', Close 4002 ''r'', Text ''b'']) = [Text ''a'', Close 4002 ''r''] \<and>
   ws_read (ws_forward (\<lambda>_. True) 0 [Text ''a'', Close 4002 ''r'', Text ''b'']) = [Text ''a'', Close 4002 ''r'']"
  using transports_agree [of "[Text ''a'', Close 4002 ''r'', Text ''b'']" 0 0] by (simp add: one_line_def)

text \<open>
  A connection that a reconnect replaces hears it: when the user registers again the old channel
  gets a close with code 4002 behind everything that was relayed to it, the old client sees that as
  its last frame over either transport, and from then on the registry answers the new channel, even
  after the old connection has cleaned up.
\<close>

theorem replaced_connection_is_told:
  assumes "registry l u = Some old" and "old \<noteq> tx" and "receiving l old"
    and "\<forall>f \<in> set (inbox l old). \<exists>s. f = Text s \<and> newline \<notin> set s"
  shows "inbox (register_connection u tx l) old = inbox l old @ [Close 4002 ''replaced by a new connection''] \<and>
    ws_read (ws_forward (\<lambda>_. True) 0 (inbox (register_connection u tx l) old @ rest)) =
      inbox l old @ [Close 4002 ''replaced by a new connection''] \<and>
    (list_all one_line rest \<longrightarrow>
       quic_read (quic_forward (\<lambda>_. True) 0 (inbox (register_connection u tx l) old @ rest)) =
         inbox l old @ [Close 4002 ''replaced by a new connection'']) \<and>
    registry (close_connection u old (register_connection u tx l)) u = Some tx"
proof -
  have i: "inbox (register_connection u tx l) old = inbox l old @ [Close 4002 ''replaced by a new connection'']"
    using assms(1-3)
    by (simp add: register_connection_def registry_insert_def send_frame_def CLOSE_REPLACED_def Let_def)
  have r: "registry (register_connection u tx l) u = Some tx"
    using assms(1) by (simp add: register_connection_def registry_insert_def send_frame_def Let_def)
  have t: "\<forall>f \<in> set (inbox l old). \<exists>s. f = Text s" using assms(4) by blast
  have o: "list_all one_line (inbox l old)" using assms(4) by (auto simp: list_all_iff one_line_def)
  have "registry (close_connection u old (register_connection u tx l)) u = Some tx"
    using r assms(2) by (simp add: close_connection_def registry_remove_if_current_def Let_def)
  then show ?thesis
    using ws.nothing_after_close [of "inbox l old" 4002 "''replaced by a new connection''" rest 0]
      quic.nothing_after_close [of "inbox l old" 4002 "''replaced by a new connection''" rest 0] t o
    by (auto simp: i list_all_iff one_line_def)
qed

definition one_live :: live where
  "one_live = \<lparr>registry = [Uuid 1 \<mapsto> 5], inbox = (\<lambda>_. [Text ''m'']), receiving = (\<lambda>_. True)\<rparr>"

theorem replaced_connection_is_told_witness:
  "ws_read (ws_forward (\<lambda>_. True) 0 (inbox (register_connection (Uuid 1) 7 one_live) 5)) =
     [Text ''m'', Close 4002 ''replaced by a new connection'']"
proof -
  have l: "registry one_live (Uuid 1) = Some 5" "receiving one_live 5" "inbox one_live 5 = [Text ''m'']"
    by (simp_all add: one_live_def)
  have "ws_read (ws_forward (\<lambda>_. True) 0 (inbox (register_connection (Uuid 1) 7 one_live) 5 @ [])) =
      inbox one_live 5 @ [Close 4002 ''replaced by a new connection'']"
    by (rule replaced_connection_is_told [of one_live "Uuid 1" 5 7 "[]", THEN conjunct2, THEN conjunct1])
       (use l in \<open>simp_all\<close>)
  then show ?thesis by (simp only: append_Nil2 append.simps l)
qed

lemma ws_serve_reach: "owner tx = u \<Longrightarrow> node_reach A owner n (ws_serve A e now u tx i items n)"
proof (induction items arbitrary: i n)
  case (Cons item items)
  show ?case
  proof (cases item)
    case (ItemText s)
    obtain alive n' where h: "handle_client_frame A (e i) (now i) u tx s n = (alive, n')" by (rule prod.exhaust)
    have st: "node_step A owner n n'" by (rule node_step.client [where owner = owner and tx = tx and u = u, OF Cons.prems h])
    then have "node_reach A owner n n'" using node_reach.here node_reach.later by metis
    then show ?thesis using ItemText h Cons.IH [OF Cons.prems, of n' "Suc i"] node_reach_trans by auto
  qed (use Cons in \<open>simp_all add: node_reach.here\<close>)
qed (simp add: node_reach.here)

lemma handle_socket_reach:
  assumes "owner tx = u"
  shows "node_reach A owner n (handle_socket A e now u tx items n)"
proof -
  let ?n1 = "n\<lparr>nd_live := register_connection u tx (nd_live n)\<rparr>"
  let ?n2 = "deliver_queued_messages A u tx ?n1"
  let ?n3 = "ws_serve A e now u tx 0 items ?n2"
  have "node_reach A owner n ?n2"
    by (intro node_reach.later [OF node_reach.later [OF node_reach.here node_step.connect] node_step.catch_up] assms)
  then have "node_reach A owner n ?n3" by (rule node_reach_trans [OF ws_serve_reach [where owner = owner and tx = tx and u = u, OF assms]])
  then show ?thesis
    unfolding handle_socket_def Let_def by (rule node_reach.later [OF _ node_step.disconnect])
qed

lemma close_connection_gone: "registry (close_connection u tx l) u \<noteq> Some tx"
  using reg.cleanup_gone [of u tx l] by (simp add: close_connection_def Let_def registry_get_def)

text \<open>
  C17: serving a connection from its registration to its cleanup is a sequence of the node's steps,
  so an acknowledged message stays kept across it; and when it is over, however the socket ended,
  the registry does not answer its channel and the channel no longer receives.
\<close>

theorem connection_lifecycle:
  "node_reach A owner n (handle_socket A e now (owner tx) tx items n) \<and>
   registry (nd_live (handle_socket A e now (owner tx) tx items n)) (owner tx) \<noteq> Some tx \<and>
   \<not> receiving (nd_live (handle_socket A e now (owner tx) tx items n)) tx"
  using handle_socket_reach [where owner = owner and tx = tx, OF refl] close_connection_gone
  by (simp add: handle_socket_def Let_def) (simp add: close_connection_def Let_def)

definition as_ws_item :: "quic_line \<Rightarrow> ws_item" where
  "as_ws_item l = (case l of Line s \<Rightarrow> ItemText (trim_newlines s) | LineError \<Rightarrow> ItemError)"

lemma quic_serve_ws: "quic_serve A e now u tx i input n = ws_serve A e now u tx i (map as_ws_item input) n"
proof (induction input arbitrary: i n)
  case (Cons l input)
  then show ?case by (cases l) (simp_all add: as_ws_item_def case_prod_beta)
qed simp

lemma first_frame_iff:
  "fst (authenticate_first_frame B L input a) = Some u \<longleftrightarrow>
     (\<exists>line rest v token user session a'.
        input = Line line # rest \<and> parse_json L (trim_newlines line) = Some v \<and>
        str_field v ''type'' = Some ''auth'' \<and> str_field v ''token'' = Some token \<and>
        authenticate_token B L token a = (Some (user, session), a') \<and> u = u_id user)"
  by (auto simp: authenticate_first_frame_def split: list.splits quic_line.splits option.splits prod.splits)

text \<open>
  C16: QUIC and WebSocket connections are served alike: once the first frame has authenticated its
  user, the node ends up as if the remaining lines, without their line ends, had arrived as text
  messages on a WebSocket of that user; and without a valid first frame nothing is read further,
  nothing changes and the client gets the close code 4001, as it does on a WebSocket. The first frame
  authenticates a user exactly when it is JSON of type \<open>auth\<close> with a token that authenticates that
  user on a WebSocket.
\<close>

theorem quic_serves_like_ws:
  "(case authenticate_first_frame B (app_lib A) input (fst st) of
      (Some u, a') \<Rightarrow> handle_connection B A e now tx (Some input) st =
        ([], a', handle_socket A e now u tx (map as_ws_item (tl input)) (snd st))
    | (None, a') \<Rightarrow> handle_connection B A e now tx (Some input) st =
        ([QuicClose 4001 ''unauthorized''], a', snd st)) \<and>
   (case authenticate_token B (app_lib A) token (fst st) of
      (Some (user, session), a') \<Rightarrow> ws_handler B A e now (Some token) tx items st =
        ([], a', handle_socket A e now (u_id user) tx items (snd st))
    | (None, a') \<Rightarrow> ws_handler B A e now (Some token) tx items st = ([WsClose 4001 ''unauthorized''], a', snd st)) \<and>
   (fst (authenticate_first_frame B (app_lib A) input (fst st)) = Some u \<longleftrightarrow>
      (\<exists>line rest v token user session a'.
         input = Line line # rest \<and> parse_json (app_lib A) (trim_newlines line) = Some v \<and>
         str_field v ''type'' = Some ''auth'' \<and> str_field v ''token'' = Some token \<and>
         authenticate_token B (app_lib A) token (fst st) = (Some (user, session), a') \<and> u = u_id user))"
  (is "?serve \<and> ?ws \<and> ?first")
proof (intro conjI)
  show ?serve and ?ws
    by (auto simp: handle_connection_def handle_socket_def ws_handler_def quic_serve_ws or_default_def Let_def
        CLOSE_UNAUTHORIZED_def split: prod.splits option.splits)
  show ?first by (rule first_frame_iff)
qed

end
