(* ===== verification/Api_Search.thy ===== *)
theory Api_Search
  imports Api_Auth Api_Contacts_Correct
begin

text \<open>
  User search (\<open>apps/api/src/search.rs\<close>): the fixed-window limiter in front of the route, the query
  and its answer. \<open>ILIKE\<close> and the collation of the database are parameters; what the lemmas need of
  \<open>ILIKE\<close> is the named hypothesis \<open>ilike_laws\<close>. Times are nanoseconds of the monotonic clock.
\<close>

section \<open>The limiter\<close>

definition MIN_QUERY_LEN :: nat where "MIN_QUERY_LEN = 3"
definition RESULT_LIMIT :: nat where "RESULT_LIMIT = 20"
definition RATE_LIMIT_MAX_REQUESTS :: nat where "RATE_LIMIT_MAX_REQUESTS = 30"
definition RATE_LIMIT_WINDOW :: nat where "RATE_LIMIT_WINDOW = 60 * 1000000000"

record window =
  started_at :: nat
  count :: nat

definition new_limiter :: "nat \<Rightarrow> window" where
  "new_limiter now = \<lparr>started_at = now, count = 0\<rparr>"

text \<open>\<open>duration_since\<close> is zero for an earlier instant, as the subtraction of naturals is.\<close>

definition try_acquire :: "nat \<Rightarrow> window \<Rightarrow> bool \<times> window" where
  "try_acquire now w =
     (let w1 = (if RATE_LIMIT_WINDOW \<le> now - started_at w then \<lparr>started_at = now, count = 0\<rparr> else w)
      in if RATE_LIMIT_MAX_REQUESTS \<le> count w1 then (False, w1)
         else (True, w1\<lparr>count := count w1 + 1\<rparr>))"

definition rate_limited_error :: response where
  "rate_limited_error = fail_with 429 ''rate_limited''"

definition rate_limit :: "nat \<Rightarrow> ('s \<Rightarrow> response \<times> 's) \<Rightarrow> window \<times> 's \<Rightarrow> response \<times> window \<times> 's" where
  "rate_limit now run st =
     (let (ok, w) = try_acquire now (fst st)
      in if ok then (let (resp, s) = run (snd st) in (resp, w, s))
         else (rate_limited_error, w, snd st))"

section \<open>The query\<close>

record search_user_row =
  su_user_id :: uuid
  su_email :: string
  su_username :: string

definition search_user_json :: "lib \<Rightarrow> search_user_row \<Rightarrow> json" where
  "search_user_json L r =
     JObj [(''user_id'', json_uuid L (su_user_id r)), (''email'', JStr (su_email r)),
           (''username'', JStr (su_username r))]"

text \<open>
  What the statement calls: \<open>ilike v p\<close> is \<open>v ILIKE p\<close>, \<open>collate\<close> the sort key of a text.
\<close>

record 'k search_db =
  ilike :: "string \<Rightarrow> string \<Rightarrow> bool"
  collate :: "string \<Rightarrow> 'k"

definition found :: "'k search_db \<Rightarrow> string \<Rightarrow> uuid \<Rightarrow> user_row \<Rightarrow> bool" where
  "found S q caller u \<longleftrightarrow>
     (ilike S (u_email u) (q @ ''%'') \<or> ilike S (u_username u) (q @ ''%'')) \<and> u_id u \<noteq> caller"

definition search_rows :: "'k::linorder search_db \<Rightarrow> string \<Rightarrow> uuid \<Rightarrow> database \<Rightarrow> search_user_row list" where
  "search_rows S q caller db =
     take RESULT_LIMIT
       (order_by (\<lambda>r. collate S (su_email r))
          (map (\<lambda>u. \<lparr>su_user_id = u_id u, su_email = u_email u, su_username = u_username u\<rparr>)
             (filter (found S q caller) (users db))))"

definition search_users ::
  "dbenv \<Rightarrow> lib \<Rightarrow> 'k::linorder search_db \<Rightarrow> user_row \<Rightarrow> string option \<Rightarrow> database \<Rightarrow> response \<times> database" where
  "search_users e L S user q db =
     (let text_query = or_default [] q
      in if char_count text_query < MIN_QUERY_LEN then (Reply 200 (JObj [(''users'', JArr [])]), db)
         else
           (case autocommit e 0 (query (search_rows S text_query (u_id user))) db of
              (Inr rows, db1) \<Rightarrow> (Reply 200 (JObj [(''users'', JArr (map (search_user_json L) rows))]), db1)
            | (Inl _, db1) \<Rightarrow> (internal_error, db1)))"

text \<open>The limiter runs before the caller is authenticated, and there is one for all callers.\<close>

definition search_router ::
  "'a better_auth \<Rightarrow> dbenv \<Rightarrow> lib \<Rightarrow> 'k::linorder search_db \<Rightarrow> nat \<Rightarrow> string option \<Rightarrow> string option
     \<Rightarrow> window \<times> 'a \<times> database \<Rightarrow> response \<times> window \<times> 'a \<times> database" where
  "search_router B e L S now header q =
     rate_limit now (protected B L header (\<lambda>user. search_users e L S user q))"

section \<open>How many requests pass\<close>

text \<open>The times of a run of requests that the limiter admits.\<close>

fun admitted :: "nat list \<Rightarrow> window \<Rightarrow> nat list" where
  "admitted [] w = []"
| "admitted (t # ts) w =
     (let (ok, w') = try_acquire t w in (if ok then [t] else []) @ admitted ts w')"

definition within :: "nat \<Rightarrow> nat \<Rightarrow> bool" where
  "within s t \<longleftrightarrow> s \<le> t \<and> t < s + RATE_LIMIT_WINDOW"

lemma try_acquire_cases:
  obtains (reset) "RATE_LIMIT_WINDOW \<le> t - started_at w" "try_acquire t w = (True, \<lparr>started_at = t, count = 1\<rparr>)"
  | (counted) "t - started_at w < RATE_LIMIT_WINDOW" "count w < 30"
      "try_acquire t w = (True, \<lparr>started_at = started_at w, count = count w + 1\<rparr>)"
  | (refused) "t - started_at w < RATE_LIMIT_WINDOW" "30 \<le> count w" "try_acquire t w = (False, w)"
  by (cases "RATE_LIMIT_WINDOW \<le> t - started_at w"; cases "count w < 30"; cases w)
     (auto simp: try_acquire_def RATE_LIMIT_MAX_REQUESTS_def)

lemma none_admitted_late:
  "\<forall>t \<in> set ts. s + RATE_LIMIT_WINDOW \<le> t \<Longrightarrow> filter (within s) (admitted ts w) = []"
proof (induction ts arbitrary: w)
  case (Cons t ts)
  then have "\<not> within s t" by (simp add: within_def)
  then show ?case using Cons by (cases rule: try_acquire_cases [where t = t and w = w]) simp_all
qed simp

lemma sorted_tail_le: "sorted (t # ts) \<Longrightarrow> (s::nat) \<le> t \<Longrightarrow> \<forall>x \<in> set ts. s \<le> x"
  by (meson le_trans sorted_simps(2))

text \<open>A window that starts inside the interval is the last one to count in it.\<close>

lemma admitted_last_window:
  "sorted ts \<Longrightarrow> s \<le> started_at w \<Longrightarrow> count w \<le> 30 \<Longrightarrow>
     length (filter (within s) (admitted ts w)) \<le> 30 - count w"
proof (induction ts arbitrary: w)
  case (Cons t ts)
  show ?case
  proof (cases rule: try_acquire_cases [where t = t and w = w])
    case reset
    then have late: "s + RATE_LIMIT_WINDOW \<le> t"
      using Cons.prems(2) by (simp add: RATE_LIMIT_WINDOW_def)
    then have "\<forall>x \<in> set ts. s + RATE_LIMIT_WINDOW \<le> x"
      using Cons.prems(1) by (intro sorted_tail_le)
    then have "filter (within s) (admitted ts \<lparr>started_at = t, count = 1\<rparr>) = []"
      by (rule none_admitted_late)
    moreover have "\<not> within s t" using late by (simp add: within_def)
    ultimately show ?thesis using reset(2) by simp
  next
    case counted
    then show ?thesis
      using Cons.IH [of "\<lparr>started_at = started_at w, count = count w + 1\<rparr>"] Cons.prems
      by auto
  next
    case refused
    then show ?thesis using Cons.IH [of w] Cons.prems by auto
  qed
qed simp

lemma admitted_two_windows:
  "sorted ts \<Longrightarrow> \<forall>t \<in> set ts. s \<le> t \<Longrightarrow> count w \<le> 30 \<Longrightarrow>
     length (filter (within s) (admitted ts w)) \<le> 60 - count w"
proof (induction ts arbitrary: w)
  case (Cons t ts)
  show ?case
  proof (cases rule: try_acquire_cases [where t = t and w = w])
    case reset
    have "length (filter (within s) (admitted ts \<lparr>started_at = t, count = 1\<rparr>)) \<le> 30 - 1"
      using admitted_last_window [of ts s "\<lparr>started_at = t, count = 1\<rparr>"] Cons.prems by simp
    then show ?thesis using reset(2) Cons.prems(3) by auto
  next
    case counted
    then show ?thesis
      using Cons.IH [of "\<lparr>started_at = started_at w, count = count w + 1\<rparr>"] Cons.prems
      by auto
  next
    case refused
    then show ?thesis using Cons.IH [of w] Cons.prems by auto
  qed
qed simp

lemma admitted_count_bound: "count w \<le> 30 \<Longrightarrow> count (snd (try_acquire t w)) \<le> 30"
  by (cases rule: try_acquire_cases [where t = t and w = w]) simp_all

lemma admitted_sixty:
  "sorted ts \<Longrightarrow> count w \<le> 30 \<Longrightarrow> length (filter (within s) (admitted ts w)) \<le> 60"
proof (induction ts arbitrary: w)
  case (Cons t ts)
  show ?case
  proof (cases "s \<le> t")
    case True
    then have "\<forall>x \<in> set (t # ts). s \<le> x" using sorted_tail_le [OF Cons.prems(1) True] by simp
    then show ?thesis using admitted_two_windows [OF Cons.prems(1) _ Cons.prems(2), of s] by simp
  next
    case False
    then have "\<not> within s t" by (simp add: within_def)
    then have "filter (within s) (admitted (t # ts) w) = filter (within s) (admitted ts (snd (try_acquire t w)))"
      by (simp add: case_prod_beta)
    then show ?thesis
      using Cons.IH [of "snd (try_acquire t w)"] Cons.prems admitted_count_bound by simp
  qed
qed simp

lemma admitted_append:
  "admitted (xs @ ys) w = admitted xs w @ admitted ys (foldl (\<lambda>w t. snd (try_acquire t w)) w xs)"
  by (induction xs arbitrary: w) (simp_all add: case_prod_beta)

text \<open>Nobody is refused before the thirty-first request of a window.\<close>

lemma admitted_all: "count w + length ts \<le> 30 \<Longrightarrow> admitted ts w = ts"
proof (induction ts arbitrary: w)
  case (Cons t ts)
  then show ?case by (cases rule: try_acquire_cases [where t = t and w = w]) simp_all
qed simp

text \<open>
  C26: In any 60 seconds, however they lie to the limiter's windows, at most 60 searches pass, twice
  the budget of one window; and the first thirty requests of a fresh limiter all pass.
\<close>

theorem limiter_bound:
  assumes "sorted ts"
  shows "length (filter (within s) (admitted ts (new_limiter t0))) \<le> 2 * RATE_LIMIT_MAX_REQUESTS \<and>
    take 30 (admitted ts (new_limiter t0)) = take 30 ts"
proof -
  have "admitted (take 30 ts) (new_limiter t0) = take 30 ts"
    by (rule admitted_all) (simp add: new_limiter_def)
  then have a: "admitted ts (new_limiter t0) =
      take 30 ts @ admitted (drop 30 ts) (foldl (\<lambda>w t. snd (try_acquire t w)) (new_limiter t0) (take 30 ts))"
    using admitted_append [of "take 30 ts" "drop 30 ts" "new_limiter t0"] by (simp only: append_take_drop_id)
  have "take 30 (admitted ts (new_limiter t0)) = take 30 ts"
  proof (cases "30 \<le> length ts")
    case False
    then show ?thesis using a by simp
  qed (simp add: a)
  moreover have "length (filter (within s) (admitted ts (new_limiter t0))) \<le> 60"
    using admitted_sixty [OF assms, of "new_limiter t0" s] by (simp add: new_limiter_def)
  ultimately show ?thesis by (simp add: RATE_LIMIT_MAX_REQUESTS_def)
qed

theorem limiter_bound_witness:
  "length (filter (within 7) (admitted [5, 7, 7, 60000000005] (new_limiter 0))) \<le> 2 * RATE_LIMIT_MAX_REQUESTS"
  by (rule limiter_bound [THEN conjunct1]) simp

text \<open>The bound is reached: thirty requests just before a window ends and thirty just after.\<close>

lemma admitted_burst:
  "t - started_at w < RATE_LIMIT_WINDOW \<Longrightarrow> count w + n = 30 \<Longrightarrow>
     foldl (\<lambda>w t. snd (try_acquire t w)) w (replicate n t) = \<lparr>started_at = started_at w, count = 30\<rparr>"
proof (induction n arbitrary: w)
  case (Suc n)
  then have "try_acquire t w = (True, \<lparr>started_at = started_at w, count = count w + 1\<rparr>)"
    by (cases rule: try_acquire_cases [where t = t and w = w]) simp_all
  then show ?case using Suc by simp
qed simp

lemma limiter_bound_reached:
  assumes "0 < n" and "n < RATE_LIMIT_WINDOW"
  shows "length (filter (within n)
    (admitted (replicate 30 n @ replicate 30 RATE_LIMIT_WINDOW) (new_limiter 0))) = 60"
proof -
  have 1: "admitted (replicate 30 n) (new_limiter 0) = replicate 30 n"
    by (rule admitted_all) (simp add: new_limiter_def)
  have f: "foldl (\<lambda>w t. snd (try_acquire t w)) (new_limiter 0) (replicate 30 n) = \<lparr>started_at = 0, count = 30\<rparr>"
    using admitted_burst [of n "new_limiter 0" 30] assms(2) by (simp add: new_limiter_def)
  have t: "try_acquire RATE_LIMIT_WINDOW \<lparr>started_at = 0, count = 30\<rparr> =
      (True, \<lparr>started_at = RATE_LIMIT_WINDOW, count = 1\<rparr>)"
    by (simp add: try_acquire_def RATE_LIMIT_MAX_REQUESTS_def)
  have "admitted (replicate 29 RATE_LIMIT_WINDOW) \<lparr>started_at = RATE_LIMIT_WINDOW, count = 1\<rparr> =
      replicate 29 RATE_LIMIT_WINDOW"
    by (rule admitted_all) simp
  then have 2: "admitted (replicate (Suc 29) RATE_LIMIT_WINDOW) \<lparr>started_at = 0, count = 30\<rparr> =
      replicate (Suc 29) RATE_LIMIT_WINDOW"
    using t by (simp only: replicate_Suc admitted.simps Let_def prod.case if_True append.simps)
  have "admitted (replicate 30 n @ replicate 30 RATE_LIMIT_WINDOW) (new_limiter 0) =
      replicate 30 n @ replicate 30 RATE_LIMIT_WINDOW"
    using 2 by (simp add: admitted_append 1 f)
  then show ?thesis using assms by (simp add: within_def)
qed

section \<open>What a search shows\<close>

text \<open>
  The documented matching of \<open>ILIKE\<close>, as far as the patterns of this query need it: a pattern without
  \<open>%\<close>, \<open>_\<close> and backslash, followed by \<open>%\<close>, matches what starts with it, both lower-cased; a pattern
  of \<open>%\<close> only matches everything.
\<close>

definition plain_char :: "char \<Rightarrow> bool" where
  "plain_char c \<longleftrightarrow> c \<noteq> CHR ''%'' \<and> c \<noteq> CHR ''_'' \<and> byte c \<noteq> 92"

definition ilike_laws :: "lib \<Rightarrow> 'k search_db \<Rightarrow> bool" where
  "ilike_laws L S \<longleftrightarrow>
     (\<forall>v p. list_all plain_char p \<longrightarrow>
        ilike S v (p @ ''%'') = (\<exists>r. sql_lower L v = sql_lower L p @ r)) \<and>
     (\<forall>v p. list_all (\<lambda>c. c = CHR ''%'') p \<and> p \<noteq> [] \<longrightarrow> ilike S v p)"

definition starts_with_ci :: "lib \<Rightarrow> string \<Rightarrow> string \<Rightarrow> bool" where
  "starts_with_ci L q v \<longleftrightarrow> take (length (sql_lower L q)) (sql_lower L v) = sql_lower L q"

lemma starts_with_ci_iff: "starts_with_ci L q v \<longleftrightarrow> (\<exists>r. sql_lower L v = sql_lower L q @ r)"
  unfolding starts_with_ci_def by (metis append_eq_conv_conj append_take_drop_id)

definition search_row :: "user_row \<Rightarrow> search_user_row" where
  "search_row u = \<lparr>su_user_id = u_id u, su_email = u_email u, su_username = u_username u\<rparr>"

lemma search_rows_search_row:
  "search_rows S q caller db =
     take RESULT_LIMIT (order_by (\<lambda>r. collate S (su_email r)) (map search_row (filter (found S q caller) (users db))))"
  by (simp add: search_rows_def search_row_def [abs_def])

lemma search_rows_sound:
  assumes "r \<in> set (search_rows S q caller db)"
  shows "\<exists>u \<in> set (users db). r = search_row u \<and> found S q caller u"
  using set_take_subset [of RESULT_LIMIT] assms by (fastforce simp: search_rows_search_row)

lemma search_rows_complete:
  assumes "u \<in> set (users db)" and "found S q caller u" and "length (search_rows S q caller db) < RESULT_LIMIT"
  shows "search_row u \<in> set (search_rows S q caller db)"
proof -
  let ?all = "order_by (\<lambda>r. collate S (su_email r)) (map search_row (filter (found S q caller) (users db)))"
  have "length ?all < RESULT_LIMIT" using assms(3) by (simp add: search_rows_search_row)
  then have "search_rows S q caller db = ?all" by (simp add: search_rows_search_row)
  then show ?thesis using assms(1,2) by auto
qed

lemma search_rows_shape:
  "length (search_rows S q caller db) \<le> RESULT_LIMIT"
  "sorted (map (\<lambda>r. collate S (su_email r)) (search_rows S q caller db))"
  by (simp_all add: search_rows_search_row take_map [symmetric] sorted_wrt_take sorted_order_by)

lemma found_plain:
  "ilike_laws L S \<Longrightarrow> list_all plain_char q \<Longrightarrow>
     found S q caller u \<longleftrightarrow> (starts_with_ci L q (u_email u) \<or> starts_with_ci L q (u_username u)) \<and> u_id u \<noteq> caller"
  by (simp add: found_def ilike_laws_def starts_with_ci_iff)

lemma search_users_calm:
  "calm e \<Longrightarrow> MIN_QUERY_LEN \<le> char_count q \<Longrightarrow>
     search_users e L S user (Some q) db =
       (Reply 200 (JObj [(''users'', JArr (map (search_user_json L) (search_rows S q (u_id user) db)))]), db)"
  by (simp add: search_users_def or_default_def calm_simps)

text \<open>
  C27: A search with a plain query of at least three characters answers other users only, each of whom
  has an email or a username that starts with the query up to case, ordered by email, at most twenty
  of them and, when fewer, all there are; it changes nothing.
\<close>

theorem search_finds_prefixes:
  assumes "calm e" and "ilike_laws L S" and "list_all plain_char q" and "MIN_QUERY_LEN \<le> char_count q"
  shows "\<exists>rows. search_users e L S user (Some q) db =
      (Reply 200 (JObj [(''users'', JArr (map (search_user_json L) rows))]), db) \<and>
    length rows \<le> 20 \<and> sorted (map (\<lambda>r. collate S (su_email r)) rows) \<and>
    (\<forall>r \<in> set rows. \<exists>u \<in> set (users db). r = search_row u \<and> u_id u \<noteq> u_id user \<and>
       (starts_with_ci L q (u_email u) \<or> starts_with_ci L q (u_username u))) \<and>
    (length rows < 20 \<longrightarrow>
       (\<forall>u \<in> set (users db). u_id u \<noteq> u_id user \<and>
          (starts_with_ci L q (u_email u) \<or> starts_with_ci L q (u_username u)) \<longrightarrow> search_row u \<in> set rows))"
proof (intro exI conjI)
  show "search_users e L S user (Some q) db =
      (Reply 200 (JObj [(''users'', JArr (map (search_user_json L) (search_rows S q (u_id user) db)))]), db)"
    using assms(1,4) by (rule search_users_calm)
  show "length (search_rows S q (u_id user) db) \<le> 20"
    using search_rows_shape(1) [of S q "u_id user" db] by (simp add: RESULT_LIMIT_def)
  show "sorted (map (\<lambda>r. collate S (su_email r)) (search_rows S q (u_id user) db))"
    by (rule search_rows_shape(2))
  note f = found_plain [OF assms(2,3), of "u_id user"]
  show "\<forall>r \<in> set (search_rows S q (u_id user) db). \<exists>u \<in> set (users db). r = search_row u \<and> u_id u \<noteq> u_id user \<and>
       (starts_with_ci L q (u_email u) \<or> starts_with_ci L q (u_username u))"
    using search_rows_sound [of _ S q "u_id user" db] by (metis f)
  show "length (search_rows S q (u_id user) db) < 20 \<longrightarrow>
       (\<forall>u \<in> set (users db). u_id u \<noteq> u_id user \<and>
          (starts_with_ci L q (u_email u) \<or> starts_with_ci L q (u_username u)) \<longrightarrow>
          search_row u \<in> set (search_rows S q (u_id user) db))"
    using search_rows_complete [of _ db S q "u_id user"] by (simp add: f RESULT_LIMIT_def)
qed

text \<open>A matcher with these laws: the wildcards at byte level, without escapes.\<close>

fun like_bytes :: "string \<Rightarrow> string \<Rightarrow> bool" where
  "like_bytes v [] \<longleftrightarrow> v = []"
| "like_bytes [] (p # ps) \<longleftrightarrow> p = CHR ''%'' \<and> like_bytes [] ps"
| "like_bytes (c # v) (p # ps) \<longleftrightarrow>
     (if p = CHR ''%'' then like_bytes v (p # ps) \<or> like_bytes (c # v) ps
      else (p = CHR ''_'' \<or> p = c) \<and> like_bytes v ps)"

definition sample_search :: "nat search_db" where
  "sample_search =
     \<lparr>ilike = (\<lambda>v p. like_bytes (to_ascii_lowercase v) (to_ascii_lowercase p)),
      collate = (\<lambda>s. foldl (\<lambda>n c. 256 * n + byte c) 0 s)\<rparr>"

lemma like_bytes_empty: "list_all (\<lambda>c. c = CHR ''%'') p \<Longrightarrow> like_bytes [] p"
  by (induction p) simp_all

lemma like_bytes_all: "list_all (\<lambda>c. c = CHR ''%'') p \<Longrightarrow> p \<noteq> [] \<Longrightarrow> like_bytes v p"
proof (induction v)
  case (Cons c v)
  then show ?case by (cases p) simp_all
qed (simp add: like_bytes_empty)

lemma like_bytes_prefix:
  "list_all plain_char p \<Longrightarrow> like_bytes v (p @ ''%'') \<longleftrightarrow> (\<exists>r. v = p @ r)"
proof (induction p arbitrary: v)
  case Nil
  then show ?case using like_bytes_all [of "''%''" v] by simp
next
  case (Cons a p)
  then show ?case by (cases v) (auto simp: plain_char_def)
qed

lemma lower_plain: "list_all plain_char p \<Longrightarrow> list_all plain_char (to_ascii_lowercase p)"
proof -
  have "plain_char (to_ascii_lowercase_char c)" if "plain_char c" for c
  proof (cases "is_ascii_uppercase c")
    case True
    then have "byte (char_of (byte c + 32) :: char) = byte c + 32" and "97 \<le> byte c + 32"
      by (simp_all add: is_ascii_uppercase_def byte_def)
    moreover have "byte (CHR ''%'') = 37" "byte (CHR ''_'') = 95" by (simp_all add: byte_def)
    ultimately show ?thesis
      using True by (auto simp: to_ascii_lowercase_char_def plain_char_def)
  qed (use that in \<open>simp add: to_ascii_lowercase_char_def\<close>)
  then show "list_all plain_char p \<Longrightarrow> list_all plain_char (to_ascii_lowercase p)"
    by (induction p) (simp_all add: to_ascii_lowercase_def)
qed

lemma sample_search_laws: "ilike_laws sample_lib sample_search"
proof -
  have c: "to_ascii_lowercase_char (CHR ''%'') = CHR ''%''" by code_simp
  have a: "to_ascii_lowercase (p @ ''%'') = to_ascii_lowercase p @ ''%''" for p
    by (simp add: to_ascii_lowercase_def c)
  have s: "list_all (\<lambda>c. c = CHR ''%'') p \<Longrightarrow> to_ascii_lowercase p = p" for p
    by (induction p) (simp_all add: to_ascii_lowercase_def c)
  have l: "sql_lower sample_lib = to_ascii_lowercase" by (simp add: sample_lib_def)
  have i: "ilike sample_search v p = like_bytes (to_ascii_lowercase v) (to_ascii_lowercase p)" for v p
    by (simp add: sample_search_def)
  show ?thesis
    unfolding ilike_laws_def l i
    by (intro conjI allI impI) (simp_all add: a s like_bytes_prefix lower_plain like_bytes_all)
qed

theorem search_finds_prefixes_witness:
  "\<exists>rows. search_users calm_env sample_lib sample_search ana (Some ''Bob'') empty_db =
      (Reply 200 (JObj [(''users'', JArr (map (search_user_json sample_lib) rows))]), empty_db)"
  using search_finds_prefixes [OF calm_env_ok(3) sample_search_laws, of "''Bob''" ana empty_db]
  by (simp add: plain_char_def byte_def) (auto simp: MIN_QUERY_LEN_def char_count_def is_continuation_def byte_def)



end
