(* ===== verification/Api_Upserts.thy ===== *)
theory Api_Upserts
  imports Api_Contacts_Correct
begin

text \<open>
  Key bundles and push tokens (\<open>apps/api/src/keys.rs\<close>, \<open>apps/api/src/push_tokens.rs\<close>): two upserts
  with the same contract, stated once as a locale.
\<close>

section \<open>What an upsert promises\<close>

text \<open>
  The value last stored for a key is the one found, other keys keep theirs, and the table stays
  valid.
\<close>

locale upsert_store =
  fixes upsert :: "'k \<Rightarrow> 'v \<Rightarrow> 's \<Rightarrow> 's"
    and lookup :: "'k \<Rightarrow> 's \<Rightarrow> 'v option"
    and allowed :: "'k \<Rightarrow> 'v \<Rightarrow> 's \<Rightarrow> bool"
    and valid :: "'s \<Rightarrow> bool"
  assumes valid_upsert: "valid s \<Longrightarrow> allowed k v s \<Longrightarrow> valid (upsert k v s)"
    and lookup_upsert: "valid s \<Longrightarrow> allowed k v s \<Longrightarrow> lookup k' (upsert k v s) = (if k' = k then Some v else lookup k' s)"
    and allowed_upsert: "allowed k v s \<Longrightarrow> allowed k' v' (upsert k v s) = allowed k' v' s"
begin

lemma last_wins:
  "valid s \<Longrightarrow> allowed k v s \<Longrightarrow> allowed k w s \<Longrightarrow> lookup k' (upsert k w (upsert k v s)) = lookup k' (upsert k w s)"
  by (simp add: lookup_upsert valid_upsert allowed_upsert)

lemma idempotent: "valid s \<Longrightarrow> allowed k v s \<Longrightarrow> lookup k' (upsert k v (upsert k v s)) = lookup k' (upsert k v s)"
  by (rule last_wins)

lemma commute:
  "valid s \<Longrightarrow> allowed k v s \<Longrightarrow> allowed j w s \<Longrightarrow> k \<noteq> j \<Longrightarrow>
     lookup k' (upsert k v (upsert j w s)) = lookup k' (upsert j w (upsert k v s))"
  by (simp add: lookup_upsert valid_upsert allowed_upsert)

end

section \<open>Key bundles\<close>

definition X25519_PUBLIC_KEY_LEN :: nat where "X25519_PUBLIC_KEY_LEN = 32"
definition KYBER_PUBLIC_KEY_LEN :: nat where "KYBER_PUBLIC_KEY_LEN = 1184"
definition DILITHIUM_PUBLIC_KEY_LEN :: nat where "DILITHIUM_PUBLIC_KEY_LEN = 1952"
definition PREKEY_SIGNATURE_LEN :: nat where "PREKEY_SIGNATURE_LEN = 3309"

record upload_keys_payload =
  uk_x25519 :: "string option"
  uk_kyber :: "string option"
  uk_dilithium :: "string option"
  uk_signature :: "string option"

definition decode_field :: "lib \<Rightarrow> string option \<Rightarrow> string option" where
  "decode_field L field = Option.bind field (base64_decode L)"

text \<open>The four blobs of a bundle.\<close>

type_synonym key_bundle = "string \<times> string \<times> string \<times> string"

fun bundle_row :: "uuid \<Rightarrow> key_bundle \<Rightarrow> timestamp \<Rightarrow> timestamp \<Rightarrow> key_row" where
  "bundle_row u (x, y, d, s) created updated =
     \<lparr>k_user = u, k_x25519 = x, k_kyber = y, k_dilithium = d, k_signature = s,
      k_created_at = created, k_updated_at = updated\<rparr>"

definition keys_of :: "uuid \<Rightarrow> key_row list \<Rightarrow> key_row option" where
  "keys_of u ks = find (\<lambda>k. k_user k = u) ks"

text \<open>\<open>INSERT INTO user_keys ... ON CONFLICT (user_id) DO UPDATE ... RETURNING updated_at\<close>.\<close>

definition upsert_keys :: "timestamp \<Rightarrow> uuid \<Rightarrow> key_bundle \<Rightarrow> timestamp statement" where
  "upsert_keys now u b db =
     (case keys_of u (user_keys db) of
        Some k \<Rightarrow> (Inr now, [PutKeys (bundle_row u b (k_created_at k) now)])
      | None \<Rightarrow>
          if u \<notin> user_ids db then (Inl ForeignKeyViolation, [])
          else (Inr now, [InsKeys (bundle_row u b now now)]))"

definition check_bundle :: "lib \<Rightarrow> upload_keys_payload \<Rightarrow> string + key_bundle" where
  "check_bundle L p =
     (case (decode_field L (uk_x25519 p), decode_field L (uk_kyber p),
            decode_field L (uk_dilithium p), decode_field L (uk_signature p)) of
        (Some x, Some y, Some d, Some s) \<Rightarrow>
          if length x \<noteq> X25519_PUBLIC_KEY_LEN then Inl ''invalid_x25519_key''
          else if length y \<noteq> KYBER_PUBLIC_KEY_LEN then Inl ''invalid_kyber_key''
          else if length d \<noteq> DILITHIUM_PUBLIC_KEY_LEN then Inl ''invalid_dilithium_key''
          else if length s \<noteq> PREKEY_SIGNATURE_LEN then Inl ''invalid_prekey_signature''
          else Inr (x, y, d, s)
      | _ \<Rightarrow> Inl ''invalid_input'')"

definition upload_keys ::
  "dbenv \<Rightarrow> lib \<Rightarrow> user_row \<Rightarrow> upload_keys_payload \<Rightarrow> database \<Rightarrow> response \<times> database" where
  "upload_keys e L user payload db =
     (case check_bundle L payload of
        Inl code \<Rightarrow> (fail_with 400 code, db)
      | Inr b \<Rightarrow>
          (case autocommit e 0 (upsert_keys (clock e 0) (u_id user) b) db of
             (Inr updated_at, db1) \<Rightarrow>
               (Reply 200 (JObj [(''user_id'', json_uuid L (u_id user)), (''updated_at'', json_time L updated_at)]), db1)
           | (Inl _, db1) \<Rightarrow> (internal_error, db1)))"

section \<open>Push tokens\<close>

definition push_of :: "string \<Rightarrow> push_row list \<Rightarrow> push_row option" where
  "push_of token ps = find (\<lambda>p. p_token p = token) ps"

text \<open>\<open>INSERT INTO push_tokens ... ON CONFLICT (token) DO UPDATE SET user_id ... RETURNING id, created_at\<close>.\<close>

definition upsert_push ::
  "(database \<Rightarrow> uuid) \<Rightarrow> timestamp \<Rightarrow> string \<Rightarrow> uuid \<Rightarrow> (uuid \<times> timestamp) statement" where
  "upsert_push gen now token u db =
     (if u \<notin> user_ids db then (Inl ForeignKeyViolation, [])
      else
        (case push_of token (push_tokens db) of
           Some p \<Rightarrow> (Inr (p_id p, p_created_at p), [PutPush (p\<lparr>p_user := u\<rparr>)])
         | None \<Rightarrow> (Inr (gen db, now),
                    [InsPush \<lparr>p_id = gen db, p_user = u, p_token = token, p_created_at = now\<rparr>])))"

definition register_push_token ::
  "dbenv \<Rightarrow> lib \<Rightarrow> user_row \<Rightarrow> string option \<Rightarrow> database \<Rightarrow> response \<times> database" where
  "register_push_token e L user payload_token db =
     (let token = (case payload_token of None \<Rightarrow> [] | Some t \<Rightarrow> t)
      in if token = [] then (fail_with 400 ''invalid_input'', db)
         else (case autocommit e 0 (upsert_push (gen_id e) (clock e 0) token (u_id user)) db of
                 (Inr (i, created_at), db1) \<Rightarrow>
                   (Reply 200 (JObj [(''id'', json_uuid L i), (''user_id'', json_uuid L (u_id user)),
                                     (''created_at'', json_time L created_at)]), db1)
               | (Inl _, db1) \<Rightarrow> (internal_error, db1)))"

section \<open>The tables as upsert stores\<close>

lemma find_put_other:
  "k \<noteq> key r \<Longrightarrow> find (\<lambda>x. key x = k) (map (\<lambda>x. if key x = key r then r else x) xs) = find (\<lambda>x. key x = k) xs"
  by (induction xs) auto

lemma find_put:
  assumes "find (\<lambda>x. key x = key r) xs \<noteq> None"
  shows "find (\<lambda>x. key x = k) (map (\<lambda>x. if key x = key r then r else x) xs) =
     (if k = key r then Some r else find (\<lambda>x. key x = k) xs)"
proof (cases "k = key r")
  case True
  then show ?thesis using assms by (induction xs) auto
qed (simp add: find_put_other)

lemma keys_map_put: "map key (map (\<lambda>x. if key x = key r then r else x) xs) = map key xs"
  by (induction xs) auto

lemma find_snoc_None:
  "find P (xs @ [y]) = (case find P xs of Some x \<Rightarrow> Some x | None \<Rightarrow> if P y then Some y else None)"
  by (induction xs) auto

definition blobs :: "key_row \<Rightarrow> key_bundle" where
  "blobs k = (k_x25519 k, k_kyber k, k_dilithium k, k_signature k)"

lemma blobs_bundle_row [simp]: "blobs (bundle_row u b t t') = b" "k_user (bundle_row u b t t') = u"
  by (cases b; simp add: blobs_def)+

definition bundle_of :: "uuid \<Rightarrow> database \<Rightarrow> key_bundle option" where
  "bundle_of u db = map_option blobs (keys_of u (user_keys db))"

lemma store_keys_lookup:
  assumes "u \<in> user_ids db"
  shows "bundle_of v (apply_writes (snd (upsert_keys now u b db)) db) = (if v = u then Some b else bundle_of v db)"
proof (cases "keys_of u (user_keys db)")
  case None
  then show ?thesis
    using assms
    by (auto simp: upsert_keys_def bundle_of_def keys_of_def find_snoc_None split: option.splits)
next
  case (Some k)
  have "find (\<lambda>x. k_user x = v) (map (\<lambda>x. if k_user x = u then bundle_row u b (k_created_at k) now else x) (user_keys db)) =
      (if v = u then Some (bundle_row u b (k_created_at k) now) else find (\<lambda>x. k_user x = v) (user_keys db))"
    using find_put [of k_user "bundle_row u b (k_created_at k) now" "user_keys db" v] Some
    by (simp add: keys_of_def)
  then show ?thesis using Some by (simp add: upsert_keys_def bundle_of_def keys_of_def)
qed

definition owner_of :: "string \<Rightarrow> database \<Rightarrow> uuid option" where
  "owner_of token db = map_option p_user (push_of token (push_tokens db))"

lemma store_push_lookup:
  assumes "u \<in> user_ids db" and "pushes_ok (user_ids db) (push_tokens db)"
  shows "owner_of tok (apply_writes (snd (upsert_push gen now token u db)) db) =
     (if tok = token then Some u else owner_of tok db)"
proof (cases "push_of token (push_tokens db)")
  case None
  then show ?thesis
    using assms(1)
    by (auto simp: upsert_push_def owner_of_def push_of_def find_snoc_None split: option.splits)
next
  case (Some p)
  then have p: "p \<in> set (push_tokens db)" "p_token p = token"
    using find_SomeD by (fastforce simp: push_of_def)+
  have d: "distinct (map p_id (push_tokens db))" "distinct (map p_token (push_tokens db))"
    using assms(2) by (simp_all add: pushes_ok_def)
  have e: "map (\<lambda>x. if p_id x = p_id p then p\<lparr>p_user := u\<rparr> else x) (push_tokens db) =
      map (\<lambda>x. if p_token x = token then p\<lparr>p_user := u\<rparr> else x) (push_tokens db)"
  proof (rule map_cong [OF refl])
    fix x assume x: "x \<in> set (push_tokens db)"
    show "(if p_id x = p_id p then p\<lparr>p_user := u\<rparr> else x) = (if p_token x = token then p\<lparr>p_user := u\<rparr> else x)"
      using distinct_map_inj [OF d(1) x p(1)] distinct_map_inj [OF d(2) x p(1)] p(2) by auto
  qed
  have "find (\<lambda>x. p_token x = tok) (map (\<lambda>x. if p_token x = token then p\<lparr>p_user := u\<rparr> else x) (push_tokens db)) =
      (if tok = token then Some (p\<lparr>p_user := u\<rparr>) else find (\<lambda>x. p_token x = tok) (push_tokens db))"
    using find_put [of p_token "p\<lparr>p_user := u\<rparr>" "push_tokens db" tok] Some p(2) by (simp add: push_of_def)
  moreover have "apply_writes (snd (upsert_push gen now token u db)) db =
      db\<lparr>push_tokens := map (\<lambda>x. if p_token x = token then p\<lparr>p_user := u\<rparr> else x) (push_tokens db)\<rparr>"
    using Some assms(1) unfolding e [symmetric] by (simp add: upsert_push_def)
  ultimately show ?thesis using Some by (simp add: owner_of_def push_of_def)
qed

text \<open>Both upserts keep the constraints of their table.\<close>

definition bundle_fits :: "key_bundle \<Rightarrow> bool" where
  "bundle_fits b \<longleftrightarrow> (case b of (x, y, d, s) \<Rightarrow>
     length x = 32 \<and> length y = 1184 \<and> length d = 1952 \<and> length s = 3309)"

lemma bundle_row_fits:
  "bundle_fits b \<Longrightarrow> length (k_x25519 (bundle_row u b t t')) = 32 \<and> length (k_kyber (bundle_row u b t t')) = 1184 \<and>
     length (k_dilithium (bundle_row u b t t')) = 1952 \<and> length (k_signature (bundle_row u b t t')) = 3309"
  by (cases b) (simp add: bundle_fits_def)

lemma wf_upsert_keys:
  assumes "bundle_fits b"
  shows "wf_statement (upsert_keys now u b)"
  unfolding wf_statement_def
proof (intro allI impI)
  fix db assume db: "db_wf db"
  then have ok: "keys_ok (user_ids db) (user_keys db)" by (rule db_wfD)
  show "db_wf (apply_writes (snd (upsert_keys now u b db)) db)"
  proof (cases "keys_of u (user_keys db)")
    case None
    then have "\<forall>k \<in> set (user_keys db). k_user k \<noteq> u" by (auto simp: keys_of_def find_None_iff)
    then have "u \<in> user_ids db \<Longrightarrow> keys_ok (user_ids db) (user_keys db @ [bundle_row u b now now])"
      using ok bundle_row_fits [OF assms, of u now now] by (auto simp: keys_ok_def)
    then show ?thesis using None db by (simp add: upsert_keys_def db_wf_def)
  next
    case (Some k)
    then have k: "k \<in> set (user_keys db)" "k_user k = u"
      using find_SomeD by (fastforce simp: keys_of_def)+
    let ?r = "bundle_row u b (k_created_at k) now"
    have "map k_user (map (\<lambda>x. if k_user x = u then ?r else x) (user_keys db)) = map k_user (user_keys db)"
      using keys_map_put [of k_user ?r "user_keys db"] by simp
    then have "keys_ok (user_ids db) (map (\<lambda>x. if k_user x = u then ?r else x) (user_keys db))"
      using ok k bundle_row_fits [OF assms, of u "k_created_at k" now] unfolding keys_ok_def by (auto simp del: map_map)
    then show ?thesis using Some db by (simp add: upsert_keys_def db_wf_def)
  qed
qed

lemma wf_upsert_push:
  assumes "\<forall>db. gen db \<notin> row_ids db" and "token \<noteq> []"
  shows "wf_statement (upsert_push gen now token u)"
  unfolding wf_statement_def
proof (intro allI impI)
  fix db assume db: "db_wf db"
  then have ok: "pushes_ok (user_ids db) (push_tokens db)" by (rule db_wfD)
  show "db_wf (apply_writes (snd (upsert_push gen now token u db)) db)"
  proof (cases "push_of token (push_tokens db)")
    case None
    then have "token \<notin> p_token ` set (push_tokens db)" by (auto simp: push_of_def find_None_iff)
    moreover have "gen db \<notin> p_id ` set (push_tokens db)" using assms(1) by (auto simp: row_ids_def)
    ultimately have "u \<in> user_ids db \<Longrightarrow> pushes_ok (user_ids db)
        (push_tokens db @ [\<lparr>p_id = gen db, p_user = u, p_token = token, p_created_at = now\<rparr>])"
      using ok assms(2) by (auto simp: pushes_ok_def)
    then show ?thesis using None db by (simp add: upsert_push_def db_wf_def)
  next
    case (Some p)
    then have p: "p \<in> set (push_tokens db)" "p_token p = token"
      using find_SomeD by (fastforce simp: push_of_def)+
    let ?r = "p\<lparr>p_user := u\<rparr>"
    let ?ps = "map (\<lambda>x. if p_id x = p_id p then ?r else x) (push_tokens db)"
    have i: "map p_id ?ps = map p_id (push_tokens db)" by (induction "push_tokens db") auto
    have d: "distinct (map p_id (push_tokens db))" using ok by (simp add: pushes_ok_def)
    have t: "map p_token ?ps = map p_token (push_tokens db)"
      using distinct_map_inj [OF d _ p(1)] by auto
    have "pushes_ok (user_ids db) ?ps" if "u \<in> user_ids db"
      using ok that p i t unfolding pushes_ok_def by (auto simp del: map_map)
    then show ?thesis using Some db by (simp add: upsert_push_def db_wf_def)
  qed
qed

lemma upsert_keys_users: "user_ids (apply_writes (snd (upsert_keys now u b db)) db) = user_ids db"
  by (simp add: upsert_keys_def split: option.splits)

lemma upsert_push_users: "user_ids (apply_writes (snd (upsert_push gen now token u db)) db) = user_ids db"
  by (simp add: upsert_push_def split: option.splits)

text \<open>The model's two upserts have the contract.\<close>

interpretation keys: upsert_store "\<lambda>u b db. apply_writes (snd (upsert_keys now u b db)) db" bundle_of
  "\<lambda>u b db. u \<in> user_ids db \<and> bundle_fits b" db_wf for now
  by unfold_locales (auto simp: store_keys_lookup upsert_keys_users intro: wf_statementD wf_upsert_keys)

interpretation push: upsert_store "\<lambda>token u db. apply_writes (snd (upsert_push next_id now token u db)) db" owner_of
  "\<lambda>token u db. u \<in> user_ids db \<and> token \<noteq> []" db_wf for now
  by unfold_locales
     (auto simp: store_push_lookup upsert_push_users db_wfD next_id_fresh intro!: wf_statementD wf_upsert_push)

section \<open>Properties\<close>

lemma check_bundle_fits: "check_bundle L p = Inr b \<Longrightarrow> bundle_fits b"
  by (auto simp: check_bundle_def bundle_fits_def X25519_PUBLIC_KEY_LEN_def KYBER_PUBLIC_KEY_LEN_def
      DILITHIUM_PUBLIC_KEY_LEN_def PREKEY_SIGNATURE_LEN_def split: option.splits if_splits)

text \<open>
  An upload of keys stores the caller's bundle, exactly as decoded, or nothing: it is accepted
  only if all four fields decode and have their standard lengths, the decoding errors are reported
  before any length error and the lengths in order; after a 200 the caller's bundle is the uploaded
  one and everybody else's is unchanged, and the constraints of the database hold in every case.
\<close>

theorem upload_keys_stores_bundle:
  assumes "db_wf db" and "calm e" and "u_id user \<in> user_ids db"
  shows "(case check_bundle L p of
      Inr b \<Rightarrow> bundle_fits b \<and> status_of (fst (upload_keys e L user p db)) = 200 \<and>
        (\<forall>v. bundle_of v (snd (upload_keys e L user p db)) = (if v = u_id user then Some b else bundle_of v db))
    | Inl code \<Rightarrow> upload_keys e L user p db = (fail_with 400 code, db)) \<and>
    db_wf (snd (upload_keys e L user p db))"
proof (cases "check_bundle L p")
  case (Inl code)
  then show ?thesis using assms(1) by (simp add: upload_keys_def)
next
  case (Inr b)
  have fits: "bundle_fits b" by (rule check_bundle_fits [OF Inr])
  have r: "\<exists>t. fst (upsert_keys (clock e 0) (u_id user) b db) = Inr t"
    using assms(3) by (simp add: upsert_keys_def split: option.splits)
  then have "status_of (fst (upload_keys e L user p db)) = 200 \<and>
      snd (upload_keys e L user p db) = apply_writes (snd (upsert_keys (clock e 0) (u_id user) b db)) db"
    using Inr by (auto simp: upload_keys_def calm_simps [OF assms(2)])
  then show ?thesis
    using Inr fits keys.lookup_upsert [OF assms(1), of "u_id user" b] keys.valid_upsert [OF assms(1), of "u_id user" b] assms(3)
    by simp
qed

definition sample_bundle :: upload_keys_payload where
  "sample_bundle = \<lparr>uk_x25519 = Some (replicate 32 (CHR ''a'')), uk_kyber = Some (replicate 1184 (CHR ''b'')),
     uk_dilithium = Some (replicate 1952 (CHR ''c'')), uk_signature = Some (replicate 3309 (CHR ''d''))\<rparr>"

theorem upload_keys_stores_bundle_witness:
  "bundle_of (Uuid 1) (snd (upload_keys calm_env sample_lib ana sample_bundle empty_db)) =
     Some (replicate 32 (CHR ''a''), replicate 1184 (CHR ''b''), replicate 1952 (CHR ''c''), replicate 3309 (CHR ''d''))"
proof -
  have u: "u_id ana = Uuid 1" "u_id ana \<in> user_ids empty_db" by code_simp+
  have "check_bundle sample_lib sample_bundle =
      Inr (replicate 32 (CHR ''a''), replicate 1184 (CHR ''b''), replicate 1952 (CHR ''c''), replicate 3309 (CHR ''d''))"
    by (simp add: check_bundle_def sample_bundle_def decode_field_def sample_lib_def X25519_PUBLIC_KEY_LEN_def
        KYBER_PUBLIC_KEY_LEN_def DILITHIUM_PUBLIC_KEY_LEN_def PREKEY_SIGNATURE_LEN_def del: replicate.simps)
  then show ?thesis
    using upload_keys_stores_bundle [OF empty_db_wf _ u(2), of calm_env sample_lib sample_bundle] u(1) by simp
qed



end
