(* ===== verification/Api_Profile.thy ===== *)
theory Api_Profile
  imports Api_Upserts
begin

text \<open>
  Changing the username and deleting the account (\<open>apps/api/src/username.rs\<close>,
  \<open>apps/api/src/account.rs\<close>).
\<close>

section \<open>Username\<close>

definition USERNAME_UNIQUE_CONSTRAINT :: string where
  "USERNAME_UNIQUE_CONSTRAINT = ''users_username_key''"

text \<open>
  \<open>UPDATE users SET username = $1, updated_at = now() WHERE id = $2 RETURNING username\<close>: no row is
  \<open>None\<close>, a name that another row has violates the constraint.
\<close>

definition update_username :: "timestamp \<Rightarrow> uuid \<Rightarrow> string \<Rightarrow> string option statement" where
  "update_username now uid name db =
     (case find (\<lambda>u. u_id u = uid) (users db) of
        None \<Rightarrow> (Inr None, [])
      | Some u \<Rightarrow>
          if list_ex (\<lambda>v. u_id v \<noteq> uid \<and> u_username v = name) (users db)
          then (Inl (UniqueViolation USERNAME_UNIQUE_CONSTRAINT), [])
          else (Inr (Some name), [PutUser (u\<lparr>u_username := name, u_updated_at := now\<rparr>)]))"

definition is_username_unique_violation :: "sql_error \<Rightarrow> bool" where
  "is_username_unique_violation err \<longleftrightarrow> err = UniqueViolation USERNAME_UNIQUE_CONSTRAINT"

definition change_username ::
  "dbenv \<Rightarrow> lib \<Rightarrow> user_row \<Rightarrow> string option \<Rightarrow> database \<Rightarrow> response \<times> database" where
  "change_username e L user payload_username db =
     (let username = (case payload_username of None \<Rightarrow> [] | Some s \<Rightarrow> s)
      in if \<not> validate_username L username then (fail_with 400 ''invalid_username'', db)
         else
           (case autocommit e 0 (update_username (clock e 0) (u_id user) (normalize_username L username)) db of
              (Inr (Some name), db1) \<Rightarrow> (Reply 200 (JObj [(''username'', JStr name)]), db1)
            | (Inl err, db1) \<Rightarrow>
                if is_username_unique_violation err then (fail_with 409 ''username already taken'', db1)
                else (internal_error, db1)
            | (Inr None, db1) \<Rightarrow> (internal_error, db1)))"

section \<open>Account\<close>

definition delete_user_statement :: "uuid \<Rightarrow> unit statement" where
  "delete_user_statement uid db = (Inr (), [DelUser uid])"

definition delete_account :: "dbenv \<Rightarrow> user_row \<Rightarrow> database \<Rightarrow> response \<times> database" where
  "delete_account e user db =
     (case autocommit e 0 (delete_user_statement (u_id user)) db of
        (Inr _, db1) \<Rightarrow> (Bare 204, db1)
      | (Inl _, db1) \<Rightarrow> (internal_error, db1))"

section \<open>The username update\<close>

definition username_of :: "uuid \<Rightarrow> database \<Rightarrow> string option" where
  "username_of uid db = map_option u_username (find (\<lambda>u. u_id u = uid) (users db))"

definition rename_user :: "timestamp \<Rightarrow> uuid \<Rightarrow> string \<Rightarrow> user_row list \<Rightarrow> user_row list" where
  "rename_user now uid name us =
     map (\<lambda>x. if u_id x = uid then x\<lparr>u_username := name, u_updated_at := now\<rparr> else x) us"

lemma rename_user_keys:
  "map u_id (rename_user now uid name us) = map u_id us" "map u_email (rename_user now uid name us) = map u_email us"
  by (induction us) (auto simp: rename_user_def)

lemma rename_user_find:
  "map_option u_username (find (\<lambda>u. u_id u = v) (rename_user now uid name us)) =
     (if v = uid then map_option (\<lambda>_. name) (find (\<lambda>u. u_id u = v) us)
      else map_option u_username (find (\<lambda>u. u_id u = v) us))"
  by (induction us) (auto simp: rename_user_def)

lemma rename_user_distinct:
  "distinct (map u_id us) \<Longrightarrow> distinct (map u_username us) \<Longrightarrow>
     \<forall>v \<in> set us. u_id v \<noteq> uid \<longrightarrow> u_username v \<noteq> name \<Longrightarrow>
     distinct (map u_username (rename_user now uid name us))"
proof (induction us)
  case (Cons x xs)
  show ?case
  proof (cases "u_id x = uid")
    case True
    then have "\<forall>v \<in> set xs. u_id v \<noteq> uid" using Cons.prems(1) by (auto simp: image_iff)
    then have "rename_user now uid name xs = xs"
      unfolding rename_user_def by (intro map_idI) auto
    moreover have "name \<notin> u_username ` set xs"
      using Cons.prems(3) \<open>\<forall>v \<in> set xs. u_id v \<noteq> uid\<close> by auto
    ultimately show ?thesis using True Cons.prems(2) by (simp add: rename_user_def)
  next
    case False
    have s: "rename_user now uid name (x # xs) = x # rename_user now uid name xs"
      using False by (simp add: rename_user_def)
    have "u_username x \<notin> u_username ` set (rename_user now uid name xs)"
      using Cons.prems(2,3) False by (auto simp: rename_user_def)
    then show ?thesis unfolding s using False Cons by simp
  qed
qed (simp add: rename_user_def)

lemma put_renamed:
  assumes "distinct (map u_id us)" and "u \<in> set us" and "u_id u = uid"
  shows "map (\<lambda>x. if u_id x = uid then u\<lparr>u_username := name, u_updated_at := now\<rparr> else x) us = rename_user now uid name us"
  unfolding rename_user_def by (rule put_modified_user [OF assms])

lemma update_username_cases:
  assumes "users_ok (users db)"
  obtains (absent) "update_username now uid name db = (Inr None, [])" "find (\<lambda>u. u_id u = uid) (users db) = None"
  | (taken) v where "update_username now uid name db = (Inl (UniqueViolation USERNAME_UNIQUE_CONSTRAINT), [])"
      "v \<in> set (users db)" "u_id v \<noteq> uid" "u_username v = name"
  | (renamed) ws where "update_username now uid name db = (Inr (Some name), ws)"
      "apply_writes ws db = db\<lparr>users := rename_user now uid name (users db)\<rparr>"
      "\<forall>v \<in> set (users db). u_id v \<noteq> uid \<longrightarrow> u_username v \<noteq> name"
      "find (\<lambda>u. u_id u = uid) (users db) \<noteq> None"
proof (cases "find (\<lambda>u. u_id u = uid) (users db)")
  case None
  then show ?thesis by (intro absent) (simp_all add: update_username_def)
next
  case (Some u)
  then have u: "u \<in> set (users db)" "u_id u = uid" using find_SomeD by fastforce+
  have d: "distinct (map u_id (users db))" using assms by (simp add: users_ok_def)
  show ?thesis
  proof (cases "list_ex (\<lambda>v. u_id v \<noteq> uid \<and> u_username v = name) (users db)")
    case True
    then obtain v where "v \<in> set (users db)" "u_id v \<noteq> uid" "u_username v = name"
      by (auto simp: list_ex_iff)
    then show ?thesis using True Some by (intro taken) (simp_all add: update_username_def)
  next
    case False
    let ?w = "[PutUser (u\<lparr>u_username := name, u_updated_at := now\<rparr>)]"
    have "apply_writes ?w db = db\<lparr>users := rename_user now uid name (users db)\<rparr>"
      using put_renamed [OF d u, of now name] u(2) by simp
    then show ?thesis
      using False Some by (intro renamed [of ?w]) (auto simp: update_username_def list_ex_iff)
  qed
qed

lemma wf_rename:
  assumes "db_wf db" and "\<forall>v \<in> set (users db). u_id v \<noteq> uid \<longrightarrow> u_username v \<noteq> name"
  shows "db_wf (db\<lparr>users := rename_user now uid name (users db)\<rparr>)"
proof -
  have "user_ids (db\<lparr>users := rename_user now uid name (users db)\<rparr>) = user_ids db"
    using arg_cong [OF rename_user_keys(1) [of now uid name "users db"], of set] by (simp add: user_ids_def)
  moreover have "users_ok (rename_user now uid name (users db))"
    using db_wfD(1) [OF assms(1)] rename_user_distinct [of "users db" uid name now] assms(2)
    by (simp add: users_ok_def rename_user_keys)
  ultimately show ?thesis using assms(1) by (simp add: db_wf_def)
qed

text \<open>
  C22: changing the username answers 200 exactly when the name is valid and nobody else has its
  normalised form, and then the caller, and only the caller, has that form; 409 exactly when
  somebody else has it, and then nothing changes. Keeping one's own name is allowed. Uniqueness
  and all other constraints hold afterwards, without any check before the write.
\<close>

theorem change_username_outcome:
  assumes "db_wf db" and "calm e" and "u_id user \<in> user_ids db"
    and "change_username e L user (Some name) db = (resp, db')"
  shows "db_wf db' \<and>
    (status_of resp = 200 \<longleftrightarrow> validate_username L name \<and>
       (\<forall>v \<in> set (users db). u_id v \<noteq> u_id user \<longrightarrow> u_username v \<noteq> normalize_username L name)) \<and>
    (status_of resp = 200 \<longrightarrow> (\<forall>i. username_of i db' =
       (if i = u_id user then Some (normalize_username L name) else username_of i db))) \<and>
    (status_of resp \<noteq> 200 \<longrightarrow> db' = db \<and>
       resp = (if validate_username L name then fail_with 409 ''username already taken'' else fail_with 400 ''invalid_username''))"
proof (cases "validate_username L name")
  case False
  then show ?thesis using assms(1,4) by (auto simp: change_username_def)
next
  case True
  let ?n = "normalize_username L name"
  have h: "change_username e L user (Some name) db =
      (case update_username (clock e 0) (u_id user) ?n db of
         (Inr (Some n), ws) \<Rightarrow> (Reply 200 (JObj [(''username'', JStr n)]), apply_writes ws db)
       | (Inl err, ws) \<Rightarrow> (if is_username_unique_violation err then fail_with 409 ''username already taken'' else internal_error, apply_writes ws db)
       | (Inr None, ws) \<Rightarrow> (internal_error, apply_writes ws db))"
    using True by (simp add: change_username_def calm_simps [OF assms(2)] split: prod.splits sum.splits option.splits)
  have ex: "find (\<lambda>u. u_id u = u_id user) (users db) \<noteq> None"
    using assms(3) by (auto simp: user_ids_def find_None_iff)
  show ?thesis
  proof (rule update_username_cases [OF db_wfD(1) [OF assms(1)], of "clock e 0" "u_id user" ?n])
    assume "find (\<lambda>u. u_id u = u_id user) (users db) = None"
    then show ?thesis using ex by simp
  next
    fix v
    assume "update_username (clock e 0) (u_id user) ?n db = (Inl (UniqueViolation USERNAME_UNIQUE_CONSTRAINT), [])"
      "v \<in> set (users db)" "u_id v \<noteq> u_id user" "u_username v = ?n"
    then show ?thesis
      using assms(1,4) h True by (auto simp: is_username_unique_violation_def)
  next
    fix ws
    assume renamed: "update_username (clock e 0) (u_id user) ?n db = (Inr (Some ?n), ws)"
      "apply_writes ws db = db\<lparr>users := rename_user (clock e 0) (u_id user) ?n (users db)\<rparr>"
      "\<forall>v \<in> set (users db). u_id v \<noteq> u_id user \<longrightarrow> u_username v \<noteq> ?n"
      "find (\<lambda>u. u_id u = u_id user) (users db) \<noteq> None"
    then obtain u where "find (\<lambda>u. u_id u = u_id user) (users db) = Some u" by auto
    moreover have "resp = Reply 200 (JObj [(''username'', JStr ?n)])"
      "db' = db\<lparr>users := rename_user (clock e 0) (u_id user) ?n (users db)\<rparr>"
      using assms(4) h renamed(1,2) by simp_all
    ultimately show ?thesis
      using True renamed(3) wf_rename [OF assms(1) renamed(3)]
        rename_user_find [of _ "clock e 0" "u_id user" ?n "users db"]
      by (auto simp: username_of_def)
  qed
qed

theorem change_username_outcome_witness:
  "username_of (Uuid 1) (snd (change_username calm_env sample_lib ana (Some ''Ana2'') empty_db)) = Some ''ana2''"
proof -
  have u: "u_id ana = Uuid 1" "u_id ana \<in> user_ids empty_db" by code_simp+
  have "status_of (fst (change_username calm_env sample_lib ana (Some ''Ana2'') empty_db)) = 200" by code_simp
  moreover have "normalize_username sample_lib ''Ana2'' = ''ana2''" by code_simp
  ultimately show ?thesis
    using change_username_outcome [OF empty_db_wf _ u(2), of calm_env sample_lib "''Ana2''"
        "fst (change_username calm_env sample_lib ana (Some ''Ana2'') empty_db)"
        "snd (change_username calm_env sample_lib ana (Some ''Ana2'') empty_db)"] u(1)
    by simp
qed

section \<open>Deleting\<close>

definition mentions :: "uuid \<Rightarrow> database \<Rightarrow> bool" where
  "mentions uid db \<longleftrightarrow> uid \<in> user_ids db \<or>
     (\<exists>s \<in> set (sessions db). s_user_id s = uid) \<or> (\<exists>a \<in> set (accounts db). a_user_id a = uid) \<or>
     (\<exists>c \<in> set (contacts db). c_owner c = uid \<or> c_contact c = uid) \<or>
     (\<exists>r \<in> set (requests db). r_requester r = uid \<or> r_recipient r = uid) \<or>
     (\<exists>k \<in> set (user_keys db). k_user k = uid) \<or> (\<exists>p \<in> set (push_tokens db). p_user p = uid)"

text \<open>
  C23: deleting the account is complete and hits nobody else: after a 204 no table mentions the
  user any more, in either column of contacts and requests, every row that never did is still
  there, and the constraints hold; an error means the connection was lost, before or after the
  deletion took effect.
\<close>

theorem delete_account_forgets:
  assumes "db_wf db" and "alone e" and "delete_account e user db = (resp, db')"
  shows "db_wf db' \<and> (db' = db \<and> resp = internal_error \<or> db' = delete_user (u_id user) db) \<and>
    (resp = Bare 204 \<longrightarrow> \<not> mentions (u_id user) db') \<and>
    (\<forall>c \<in> set (contacts db). c_owner c \<noteq> u_id user \<and> c_contact c \<noteq> u_id user \<longrightarrow> c \<in> set (contacts db')) \<and>
    (\<forall>v \<in> set (users db). u_id v \<noteq> u_id user \<longrightarrow> v \<in> set (users db'))"
proof -
  have d: "db' = db \<and> resp = internal_error \<or> db' = delete_user (u_id user) db"
    and n: "resp = Bare 204 \<longrightarrow> db' = delete_user (u_id user) db"
    using assms(3)
    by (auto simp: delete_account_def delete_user_statement_def alone_def autocommit_def Let_def internal_error_def fail_with_def
        assms(2) [unfolded alone_def] split: link.splits)
  have "\<not> mentions uid (delete_user uid db)" for uid
    by (auto simp: mentions_def user_ids_delete_user) (auto simp: delete_user_def)
  then show ?thesis
    using d n assms(1) wf_delete_user [OF assms(1), of "u_id user"] by (auto simp: delete_user_def)
qed

theorem delete_account_forgets_witness:
  "\<not> mentions (Uuid 1) (snd (delete_account calm_env ana empty_db)) \<and> mentions (Uuid 1) empty_db"
proof -
  have f: "fst (delete_account calm_env ana empty_db) = Bare 204" "u_id ana = Uuid 1" "mentions (Uuid 1) empty_db"
    by code_simp+
  have "delete_account calm_env ana empty_db = (Bare 204, snd (delete_account calm_env ana empty_db))"
    using f(1) by (simp add: prod_eq_iff)
  from delete_account_forgets [OF empty_db_wf _ this] show ?thesis
    using f(2,3) by simp
qed

end
