(* ===== verification/Api_Avatars.thy ===== *)
theory Api_Avatars
  imports Api_Profile Api_Naming
begin

text \<open>
  Avatars (\<open>apps/api/src/avatars.rs\<close>): the configuration of the store, the four operations on it and
  the three handlers. The S3 client (\<open>aws_sdk_s3\<close> talking to SeaweedFS) is the record \<open>s3\<close> of
  functions on the state of the object store; \<open>valid_header\<close> is \<open>HeaderValue::from_str\<close>.
\<close>

section \<open>Configuration\<close>

definition AWS_REGION :: string where "AWS_REGION = ''us-east-1''"
definition PRESIGNED_URL_EXPIRY :: nat where "PRESIGNED_URL_EXPIRY = 5 * 60"
definition MAX_AVATAR_BYTES :: int where "MAX_AVATAR_BYTES = 5 * 1024 * 1024"
definition ALLOWED_CONTENT_TYPES :: "string list" where
  "ALLOWED_CONTENT_TYPES = [''image/png'', ''image/jpeg'']"

definition SEAWEEDFS_INTERNAL_ENDPOINT_VAR :: string where
  "SEAWEEDFS_INTERNAL_ENDPOINT_VAR = ''SEAWEEDFS_INTERNAL_ENDPOINT''"
definition SEAWEEDFS_PUBLIC_ENDPOINT_VAR :: string where
  "SEAWEEDFS_PUBLIC_ENDPOINT_VAR = ''SEAWEEDFS_PUBLIC_ENDPOINT''"
definition SEAWEEDFS_S3_ACCESS_KEY_VAR :: string where
  "SEAWEEDFS_S3_ACCESS_KEY_VAR = ''SEAWEEDFS_S3_ACCESS_KEY''"
definition SEAWEEDFS_S3_SECRET_KEY_VAR :: string where
  "SEAWEEDFS_S3_SECRET_KEY_VAR = ''SEAWEEDFS_S3_SECRET_KEY''"
definition AVATAR_BUCKET_NAME_VAR :: string where
  "AVATAR_BUCKET_NAME_VAR = ''AVATAR_BUCKET_NAME''"
definition DEFAULT_AVATAR_BUCKET_NAME :: string where
  "DEFAULT_AVATAR_BUCKET_NAME = ''avatars''"

definition object_key :: "lib \<Rightarrow> uuid \<Rightarrow> string" where
  "object_key L user_id = ''avatars/'' @ show_uuid L user_id"

definition serving_path :: "lib \<Rightarrow> uuid \<Rightarrow> string" where
  "serving_path L user_id = ''/api/avatar/'' @ show_uuid L user_id"

datatype avatar_store_error = AvatarStoreError string

definition show_avatar_store_error :: "avatar_store_error \<Rightarrow> string" where
  "show_avatar_store_error err =
     (case err of AvatarStoreError msg \<Rightarrow> ''SeaweedFS S3 operation failed: '' @ msg)"

datatype avatar_store_config_error = AvatarStoreConfigError string

definition show_avatar_store_config_error :: "avatar_store_config_error \<Rightarrow> string" where
  "show_avatar_store_config_error err = (case err of AvatarStoreConfigError msg \<Rightarrow> msg)"

text \<open>What \<open>build_client\<close> configures; the two clients differ in the endpoint.\<close>

record s3_client =
  cl_region :: string
  cl_endpoint :: string
  cl_access_key :: string
  cl_secret_key :: string
  cl_path_style :: bool

definition build_client :: "string \<Rightarrow> string \<Rightarrow> string \<Rightarrow> s3_client" where
  "build_client endpoint access_key secret_key =
     \<lparr>cl_region = AWS_REGION, cl_endpoint = endpoint, cl_access_key = access_key,
      cl_secret_key = secret_key, cl_path_style = True\<rparr>"

record avatar_store =
  internal_client :: s3_client
  public_client :: s3_client
  bucket :: string

definition avatar_store_new :: "string \<Rightarrow> string \<Rightarrow> string \<Rightarrow> string \<Rightarrow> string \<Rightarrow> avatar_store" where
  "avatar_store_new internal_endpoint public_endpoint access_key secret_key bucket_name =
     \<lparr>internal_client = build_client internal_endpoint access_key secret_key,
      public_client = build_client public_endpoint access_key secret_key,
      bucket = bucket_name\<rparr>"

definition required_var :: "host \<Rightarrow> string \<Rightarrow> avatar_store_config_error + string" where
  "required_var h var =
     (case env_var h var of
        None \<Rightarrow> Inl (AvatarStoreConfigError (var @ '' must be set''))
      | Some v \<Rightarrow> Inr v)"

definition avatar_store_from_env :: "host \<Rightarrow> avatar_store_config_error + avatar_store" where
  "avatar_store_from_env h =
     (case required_var h SEAWEEDFS_INTERNAL_ENDPOINT_VAR of Inl err \<Rightarrow> Inl err
      | Inr internal_endpoint \<Rightarrow>
     (case required_var h SEAWEEDFS_PUBLIC_ENDPOINT_VAR of Inl err \<Rightarrow> Inl err
      | Inr public_endpoint \<Rightarrow>
     (case required_var h SEAWEEDFS_S3_ACCESS_KEY_VAR of Inl err \<Rightarrow> Inl err
      | Inr access_key \<Rightarrow>
     (case required_var h SEAWEEDFS_S3_SECRET_KEY_VAR of Inl err \<Rightarrow> Inl err
      | Inr secret_key \<Rightarrow>
          Inr (avatar_store_new internal_endpoint public_endpoint access_key secret_key
                 (or_default DEFAULT_AVATAR_BUCKET_NAME (env_var h AVATAR_BUCKET_NAME_VAR)))))))"

section \<open>The store\<close>

text \<open>
  The answers of \<open>aws_sdk_s3\<close>. A presigned URL is computed from client, bucket, key, content type and
  lifetime in seconds; \<open>HeadObject\<close> finds an object (with a length, if the answer has one), does not
  find it, or fails.
\<close>

datatype head_answer =
    HeadFound "int option"
  | HeadNotFound
  | HeadFailed string

record 's s3 =
  s3_presign_put :: "s3_client \<Rightarrow> string \<Rightarrow> string \<Rightarrow> string \<Rightarrow> nat \<Rightarrow> 's \<Rightarrow> (string + string) \<times> 's"
  s3_presign_get :: "s3_client \<Rightarrow> string \<Rightarrow> string \<Rightarrow> nat \<Rightarrow> 's \<Rightarrow> (string + string) \<times> 's"
  s3_head :: "s3_client \<Rightarrow> string \<Rightarrow> string \<Rightarrow> 's \<Rightarrow> head_answer \<times> 's"
  s3_delete :: "s3_client \<Rightarrow> string \<Rightarrow> string \<Rightarrow> 's \<Rightarrow> (string + unit) \<times> 's"

fun store_result :: "(string + 'x) \<times> 's \<Rightarrow> (avatar_store_error + 'x) \<times> 's" where
  "store_result (Inl msg, s) = (Inl (AvatarStoreError msg), s)"
| "store_result (Inr v, s) = (Inr v, s)"

definition presigned_put_url ::
  "'s s3 \<Rightarrow> lib \<Rightarrow> avatar_store \<Rightarrow> uuid \<Rightarrow> string \<Rightarrow> 's \<Rightarrow> (avatar_store_error + string) \<times> 's" where
  "presigned_put_url S L store user_id content_type s =
     store_result (s3_presign_put S (public_client store) (bucket store) (object_key L user_id)
                     content_type PRESIGNED_URL_EXPIRY s)"

definition presigned_get_url ::
  "'s s3 \<Rightarrow> lib \<Rightarrow> avatar_store \<Rightarrow> uuid \<Rightarrow> 's \<Rightarrow> (avatar_store_error + string) \<times> 's" where
  "presigned_get_url S L store user_id s =
     store_result (s3_presign_get S (public_client store) (bucket store) (object_key L user_id)
                     PRESIGNED_URL_EXPIRY s)"

definition object_content_length ::
  "'s s3 \<Rightarrow> lib \<Rightarrow> avatar_store \<Rightarrow> uuid \<Rightarrow> 's \<Rightarrow> (avatar_store_error + int option) \<times> 's" where
  "object_content_length S L store user_id s =
     (case s3_head S (internal_client store) (bucket store) (object_key L user_id) s of
        (HeadFound n, s') \<Rightarrow> (Inr (Some (or_default 0 n)), s')
      | (HeadNotFound, s') \<Rightarrow> (Inr None, s')
      | (HeadFailed msg, s') \<Rightarrow> (Inl (AvatarStoreError msg), s'))"

definition delete_object ::
  "'s s3 \<Rightarrow> lib \<Rightarrow> avatar_store \<Rightarrow> uuid \<Rightarrow> 's \<Rightarrow> (avatar_store_error + unit) \<times> 's" where
  "delete_object S L store user_id s =
     store_result (s3_delete S (internal_client store) (bucket store) (object_key L user_id) s)"

section \<open>Handlers\<close>

definition bad_request :: "string \<Rightarrow> response" where
  "bad_request code = fail_with 400 code"

definition not_found :: response where
  "not_found = fail_with 404 ''not_found''"

text \<open>\<open>UPDATE users SET image = $1 WHERE id = $2\<close>.\<close>

definition update_image :: "uuid \<Rightarrow> string \<Rightarrow> nat statement" where
  "update_image uid path db =
     (case find (\<lambda>u. u_id u = uid) (users db) of
        None \<Rightarrow> (Inr 0, [])
      | Some u \<Rightarrow> (Inr 1, [PutUser (u\<lparr>u_image := Some path\<rparr>)]))"

text \<open>\<open>SELECT image FROM users WHERE id = $1\<close>.\<close>

definition image_of :: "uuid \<Rightarrow> database \<Rightarrow> string option option" where
  "image_of uid db = map_option u_image (find (\<lambda>u. u_id u = uid) (users db))"

definition request_upload_url ::
  "'s s3 \<Rightarrow> lib \<Rightarrow> avatar_store \<Rightarrow> user_row \<Rightarrow> string option \<Rightarrow> 's \<Rightarrow> response \<times> 's" where
  "request_upload_url S L store user payload_content_type s =
     (let content_type = or_default [] payload_content_type
      in if content_type \<notin> set ALLOWED_CONTENT_TYPES then (bad_request ''invalid_content_type'', s)
         else (case presigned_put_url S L store (u_id user) content_type s of
                 (Inr upload_url, s') \<Rightarrow>
                   (Reply 200 (JObj [(''uploadUrl'', JStr upload_url), (''contentType'', JStr content_type)]), s')
               | (Inl _, s') \<Rightarrow> (internal_error, s')))"

definition confirm_upload ::
  "'s s3 \<Rightarrow> dbenv \<Rightarrow> lib \<Rightarrow> avatar_store \<Rightarrow> user_row \<Rightarrow> database \<times> 's \<Rightarrow> response \<times> database \<times> 's" where
  "confirm_upload S e L store user st =
     (case object_content_length S L store (u_id user) (snd st) of
        (Inl _, s1) \<Rightarrow> (internal_error, fst st, s1)
      | (Inr None, s1) \<Rightarrow> (not_found, fst st, s1)
      | (Inr (Some content_length), s1) \<Rightarrow>
          if content_length > MAX_AVATAR_BYTES
          then (bad_request ''file_too_large'', fst st, snd (delete_object S L store (u_id user) s1))
          else
            (let path = serving_path L (u_id user)
             in (case autocommit e 0 (update_image (u_id user) path) (fst st) of
                   (Inr _, db1) \<Rightarrow> (Reply 200 (JObj [(''image'', JStr path)]), db1, s1)
                 | (Inl _, db1) \<Rightarrow> (internal_error, db1, s1))))"

definition get_avatar ::
  "'s s3 \<Rightarrow> (string \<Rightarrow> bool) \<Rightarrow> dbenv \<Rightarrow> lib \<Rightarrow> avatar_store \<Rightarrow> uuid \<Rightarrow> database \<times> 's \<Rightarrow> response \<times> database \<times> 's" where
  "get_avatar S valid_header e L store user_id st =
     (case autocommit e 0 (query (image_of user_id)) (fst st) of
        (Inl _, db1) \<Rightarrow> (internal_error, db1, snd st)
      | (Inr row, db1) \<Rightarrow>
          (let has_avatar = (case row of Some (Some _) \<Rightarrow> True | Some None \<Rightarrow> False | None \<Rightarrow> False)
           in if \<not> has_avatar then (not_found, db1, snd st)
              else (case presigned_get_url S L store user_id (snd st) of
                      (Inr url, s1) \<Rightarrow>
                        if valid_header url then (Redirect 302 url, db1, s1) else (internal_error, db1, s1)
                    | (Inl _, s1) \<Rightarrow> (internal_error, db1, s1))))"

datatype avatar_call =
    UploadUrl "string option"
  | ConfirmUpload
  | GetAvatar uuid

fun avatars_router ::
  "'s s3 \<Rightarrow> (string \<Rightarrow> bool) \<Rightarrow> dbenv \<Rightarrow> lib \<Rightarrow> avatar_store \<Rightarrow> user_row \<Rightarrow> avatar_call \<Rightarrow> database \<times> 's
     \<Rightarrow> response \<times> database \<times> 's" where
  "avatars_router S valid_header e L store user (UploadUrl ct) st =
     (let (r, s') = request_upload_url S L store user ct (snd st) in (r, fst st, s'))"
| "avatars_router S valid_header e L store user ConfirmUpload st = confirm_upload S e L store user st"
| "avatars_router S valid_header e L store user (GetAvatar uid) st = get_avatar S valid_header e L store uid st"

section \<open>Only confirmed images, only one's own\<close>

definition own_images :: "lib \<Rightarrow> database \<Rightarrow> bool" where
  "own_images L db \<longleftrightarrow>
     (\<forall>u \<in> set (users db). u_image u = None \<or> u_image u = Some (serving_path L (u_id u)))"

definition set_image :: "uuid \<Rightarrow> string \<Rightarrow> database \<Rightarrow> database" where
  "set_image uid path db =
     db\<lparr>users := map (\<lambda>u. if u_id u = uid then u\<lparr>u_image := Some path\<rparr> else u) (users db)\<rparr>"

lemma apply_update_image:
  assumes "distinct (map u_id (users db))"
  shows "apply_writes (snd (update_image uid path db)) db = set_image uid path db"
proof (cases "find (\<lambda>u. u_id u = uid) (users db)")
  case None
  then have "map (\<lambda>u. if u_id u = uid then u\<lparr>u_image := Some path\<rparr> else u) (users db) = users db"
    by (intro map_idI) (auto simp: find_None_iff)
  then show ?thesis using None by (simp add: update_image_def set_image_def)
next
  case (Some u)
  then have "u \<in> set (users db)" "u_id u = uid" using find_SomeD by fastforce+
  then show ?thesis
    using Some put_modified_user [OF assms, of u uid "\<lambda>u. u\<lparr>u_image := Some path\<rparr>"]
    by (simp add: update_image_def set_image_def)
qed

lemma set_image_keys:
  "map u_id (users (set_image uid path db)) = map u_id (users db)"
  "map u_email (users (set_image uid path db)) = map u_email (users db)"
  "map u_username (users (set_image uid path db)) = map u_username (users db)"
  by (auto simp: set_image_def)

lemma wf_set_image: "db_wf db \<Longrightarrow> db_wf (set_image uid path db)"
proof -
  assume w: "db_wf db"
  have "user_ids (set_image uid path db) = user_ids db"
    using arg_cong [OF set_image_keys(1) [of uid path db], of set] by (simp add: user_ids_def)
  moreover have "users_ok (users (set_image uid path db))"
    using db_wfD(1) [OF w] by (simp add: users_ok_def set_image_keys)
  ultimately show ?thesis using w by (simp add: db_wf_def) (simp add: set_image_def)
qed

lemma own_set_image: "own_images L db \<Longrightarrow> own_images L (set_image uid (serving_path L uid) db)"
  by (auto simp: own_images_def set_image_def)

lemma find_set_image:
  "find (\<lambda>u. u_id u = i) (map (\<lambda>u. if u_id u = i then u\<lparr>u_image := Some p\<rparr> else u) us) =
     map_option (\<lambda>u. u\<lparr>u_image := Some p\<rparr>) (find (\<lambda>u. u_id u = i) us)"
  by (induction us) auto

lemma image_of_set_image:
  assumes "uid \<in> user_ids db"
  shows "image_of uid (set_image uid path db) = Some (Some path)"
proof -
  obtain u where "find (\<lambda>u. u_id u = uid) (users db) = Some u"
    using assms by (fastforce simp: user_ids_def find_None_iff)
  then show ?thesis by (simp add: image_of_def set_image_def find_set_image)
qed

lemma confirm_upload_cases:
  assumes "alone e" and "db_wf db"
    and "confirm_upload S e L store user (db, s) = (resp, db', s')"
  obtains (stored) n s1 where "s3_head S (internal_client store) (bucket store) (object_key L (u_id user)) s = (HeadFound n, s1)"
      "or_default 0 n \<le> MAX_AVATAR_BYTES" "s' = s1"
      "db' = set_image (u_id user) (serving_path L (u_id user)) db"
      "resp = Reply 200 (JObj [(''image'', JStr (serving_path L (u_id user)))]) \<or> resp = internal_error"
  | (kept) "db' = db" "status_of resp \<noteq> 200"
proof -
  obtain h s1 where h: "object_content_length S L store (u_id user) s = (h, s1)" by (rule prod.exhaust)
  show ?thesis
  proof (cases "\<exists>n. h = Inr (Some n) \<and> n \<le> MAX_AVATAR_BYTES")
    case False
    then have "db' = db \<and> status_of resp \<noteq> 200"
      using assms(3) h
      by (auto simp: confirm_upload_def internal_error_def not_found_def bad_request_def
          split: sum.splits option.splits if_splits)
    then show ?thesis using kept by blast
  next
    case True
    then obtain n where n: "h = Inr (Some n)" "n \<le> MAX_AVATAR_BYTES" by blast
    obtain a s2 where a: "s3_head S (internal_client store) (bucket store) (object_key L (u_id user)) s = (a, s2)"
      by (rule prod.exhaust)
    obtain m where m: "a = HeadFound m" "or_default 0 m = n" "s2 = s1"
      using h n(1) a by (cases a) (auto simp: object_content_length_def)
    obtain r db1 where u: "autocommit e 0 (update_image (u_id user) (serving_path L (u_id user))) db = (r, db1)"
      by (rule prod.exhaust)
    have d: "distinct (map u_id (users db))" using db_wfD(1) [OF assms(2)] by (simp add: users_ok_def)
    have i: "\<exists>k. fst (update_image (u_id user) (serving_path L (u_id user)) db) = Inr k"
      by (auto simp: update_image_def split: option.splits)
    have c: "resp = (case r of Inr _ \<Rightarrow> Reply 200 (JObj [(''image'', JStr (serving_path L (u_id user)))]) | Inl _ \<Rightarrow> internal_error)"
      "db' = db1" "s' = s1"
      using assms(3) h n u by (auto simp: confirm_upload_def Let_def split: sum.splits)
    have "db1 = set_image (u_id user) (serving_path L (u_id user)) db \<or> (db1 = db \<and> r = Inl Unavailable)"
      using u assms(1) apply_update_image [OF d]
      by (auto simp: autocommit_def alone_def Let_def split: link.splits)
    then show ?thesis
    proof
      assume "db1 = set_image (u_id user) (serving_path L (u_id user)) db"
      then show ?thesis using stored [of m s1] a m n c by (auto split: sum.splits)
    next
      assume "db1 = db \<and> r = Inl Unavailable"
      then show ?thesis using kept c by (simp add: internal_error_def)
    qed
  qed
qed

lemma get_avatar_keeps:
  "alone e \<Longrightarrow> get_avatar S valid_header e L store uid (db, s) = (resp, db', s') \<Longrightarrow> db' = db"
  by (auto simp: get_avatar_def autocommit_def alone_def query_def Let_def
      split: link.splits sum.splits option.splits if_splits prod.splits)

text \<open>
  C25: The avatar routes keep every image column either empty or the row's own serving path, together
  with all constraints of the database, whatever the store answers and whichever round trip is lost.
  They change the database only in confirming the caller's own upload, which the store had reported
  as present and within five MiB, and a confirmation answered 200 has set the caller's image.
\<close>

theorem avatars_only_own_confirmed:
  assumes "alone e" and "db_wf db" and "own_images L db"
    and "avatars_router S valid_header e L store user call (db, s) = (resp, db', s')"
  shows "db_wf db' \<and> own_images L db' \<and>
    (db' \<noteq> db \<longrightarrow> call = ConfirmUpload \<and> db' = set_image (u_id user) (serving_path L (u_id user)) db \<and>
       (\<exists>n. s3_head S (internal_client store) (bucket store) (object_key L (u_id user)) s = (HeadFound n, s') \<and>
            or_default 0 n \<le> 5 * 1024 * 1024)) \<and>
    (call = ConfirmUpload \<and> status_of resp = 200 \<and> u_id user \<in> user_ids db \<longrightarrow>
       image_of (u_id user) db' = Some (Some (serving_path L (u_id user))))"
proof (cases call)
  case (UploadUrl ct)
  then show ?thesis using assms by (auto split: prod.splits)
next
  case (GetAvatar uid)
  then have "db' = db" using assms(1,4) get_avatar_keeps by simp
  then show ?thesis using assms(2,3) GetAvatar by simp
next
  case ConfirmUpload
  then have c: "confirm_upload S e L store user (db, s) = (resp, db', s')" using assms(4) by simp
  show ?thesis
  proof (rule confirm_upload_cases [OF assms(1,2) c])
    fix n s1
    assume stored: "s3_head S (internal_client store) (bucket store) (object_key L (u_id user)) s = (HeadFound n, s1)"
      "or_default 0 n \<le> MAX_AVATAR_BYTES" "s' = s1"
      "db' = set_image (u_id user) (serving_path L (u_id user)) db"
    have "image_of (u_id user) db' = Some (Some (serving_path L (u_id user)))" if "u_id user \<in> user_ids db"
      using that stored(4) by (simp add: image_of_set_image)
    then show ?thesis
      using stored wf_set_image [OF assms(2)] own_set_image [OF assms(3)] ConfirmUpload
      by (auto simp: MAX_AVATAR_BYTES_def)
  next
    assume "db' = db" "status_of resp \<noteq> 200"
    then show ?thesis using assms(2,3) by simp
  qed
qed

definition delete_removes :: "'s s3 \<Rightarrow> bool" where
  "delete_removes S \<longleftrightarrow> (\<forall>c b k s. fst (s3_head S c b k (snd (s3_delete S c b k s))) = HeadNotFound)"

definition signs_blindly :: "'s s3 \<Rightarrow> (string \<Rightarrow> bool) \<Rightarrow> bool" where
  "signs_blindly S valid_header \<longleftrightarrow>
     (\<forall>c b k t s. \<exists>url. s3_presign_get S c b k t s = (Inr url, s) \<and> valid_header url)"

text \<open>
  C39: A refused upload takes the accepted avatar with it. When a user whose image is set uploads an
  object over five MiB and confirms, the answer is 400, the object, which had replaced the accepted
  one under the same key, is deleted, and the image column stays set: fetching the avatar still
  redirects, to an object that the store no longer has. What is used of the store: a deletion removes
  the object, and signing a URL does not look at it.
\<close>

theorem refused_upload_leaves_dangling_image:
  assumes "calm e" and "delete_removes S" and "signs_blindly S valid_header"
    and "image_of (u_id user) db = Some (Some path)"
    and "s3_head S (internal_client store) (bucket store) (object_key L (u_id user)) s = (HeadFound (Some n), s1)"
    and "5 * 1024 * 1024 < n"
  shows "\<exists>s2 url. confirm_upload S e L store user (db, s) = (fail_with 400 ''file_too_large'', db, s2) \<and>
    get_avatar S valid_header e L store (u_id user) (db, s2) = (Redirect 302 url, db, s2) \<and>
    fst (s3_head S (internal_client store) (bucket store) (object_key L (u_id user)) s2) = HeadNotFound"
proof -
  obtain r s2 where d: "s3_delete S (internal_client store) (bucket store) (object_key L (u_id user)) s1 = (r, s2)"
    by (rule prod.exhaust)
  have s2: "snd (delete_object S L store (u_id user) s1) = s2"
    using d by (cases r) (simp_all add: delete_object_def)
  have c: "confirm_upload S e L store user (db, s) = (fail_with 400 ''file_too_large'', db, s2)"
    using assms(5,6) s2
    by (simp add: confirm_upload_def object_content_length_def or_default_def MAX_AVATAR_BYTES_def bad_request_def)
  obtain url where u: "s3_presign_get S (public_client store) (bucket store) (object_key L (u_id user)) PRESIGNED_URL_EXPIRY s2 = (Inr url, s2)"
    "valid_header url"
    using assms(3) unfolding signs_blindly_def by blast
  have g: "get_avatar S valid_header e L store (u_id user) (db, s2) = (Redirect 302 url, db, s2)"
    using assms(4) u by (simp add: get_avatar_def calm_simps [OF assms(1)] presigned_get_url_def Let_def)
  have "fst (s3_head S (internal_client store) (bucket store) (object_key L (u_id user)) s2) = HeadNotFound"
    using assms(2) d unfolding delete_removes_def by (metis snd_conv)
  then show ?thesis using c g by blast
qed

text \<open>A store that keeps the length of each object under bucket and key.\<close>

definition sample_s3 :: "(string \<times> string \<Rightarrow> int option) s3" where
  "sample_s3 =
     \<lparr>s3_presign_put = (\<lambda>c b k ct t s. (Inr (cl_endpoint c @ b @ ''/'' @ k), s)),
      s3_presign_get = (\<lambda>c b k t s. (Inr (cl_endpoint c @ b @ ''/'' @ k), s)),
      s3_head = (\<lambda>c b k s. (case s (b, k) of None \<Rightarrow> HeadNotFound | Some n \<Rightarrow> HeadFound (Some n), s)),
      s3_delete = (\<lambda>c b k s. (Inr (), s((b, k) := None)))\<rparr>"

lemma sample_s3_laws: "delete_removes sample_s3" "signs_blindly sample_s3 (\<lambda>_. True)"
  by (simp_all add: delete_removes_def signs_blindly_def sample_s3_def)

definition sample_store :: avatar_store where
  "sample_store = avatar_store_new ''http://in/'' ''http://out/'' ''k'' ''s'' ''avatars''"

definition pictured_db :: database where
  "pictured_db = set_image (u_id ana) (serving_path sample_lib (u_id ana)) empty_db"

theorem avatars_only_own_confirmed_witness:
  "own_images sample_lib (fst (snd (avatars_router sample_s3 (\<lambda>_. True) calm_env sample_lib sample_store ana
     ConfirmUpload (empty_db, \<lambda>_. Some 1000))))"
proof -
  have o: "own_images sample_lib empty_db" by code_simp
  have w: "db_wf empty_db" by (rule empty_db_wf)
  obtain resp db' s' where c: "avatars_router sample_s3 (\<lambda>_. True) calm_env sample_lib sample_store ana
     ConfirmUpload (empty_db, \<lambda>_. Some 1000) = (resp, db', s')" by (rule prod_cases3)
  have "own_images sample_lib db'"
    using avatars_only_own_confirmed [OF calm_env_ok(4) w o c] by blast
  then show ?thesis using c by simp
qed

theorem refused_upload_leaves_dangling_image_witness:
  "\<exists>s2 url. confirm_upload sample_s3 calm_env sample_lib sample_store ana (pictured_db, \<lambda>_. Some 6000000) =
      (fail_with 400 ''file_too_large'', pictured_db, s2) \<and>
    get_avatar sample_s3 (\<lambda>_. True) calm_env sample_lib sample_store (u_id ana) (pictured_db, s2) =
      (Redirect 302 url, pictured_db, s2) \<and>
    fst (s3_head sample_s3 (internal_client sample_store) (bucket sample_store) (object_key sample_lib (u_id ana)) s2) =
      HeadNotFound"
proof (rule refused_upload_leaves_dangling_image [OF calm_env_ok(3) sample_s3_laws])
  show "image_of (u_id ana) pictured_db = Some (Some (serving_path sample_lib (u_id ana)))" by code_simp
  show "s3_head sample_s3 (internal_client sample_store) (bucket sample_store) (object_key sample_lib (u_id ana))
      (\<lambda>_. Some 6000000) = (HeadFound (Some 6000000), \<lambda>_. Some 6000000)"
    by (simp add: sample_s3_def)
qed simp

end
