(* ===== verification/Api_Main.thy ===== *)
theory Api_Main
  imports Api_Worktrees Api_Transport Api_Search Api_Avatars
begin

text \<open>
  Start-up of the API (\<open>apps/api/src/main.rs\<close>): the pool of \<open>db.rs\<close>, the other connections, the stream, the secret, the avatar
  store and the QUIC listener, each a reason to exit before anything is served. The services are the
  record \<open>services\<close> of functions on their state; an error is its text.
\<close>

definition NATS_URL_VAR :: string where "NATS_URL_VAR = ''NATS_URL''"
definition AUTH_SECRET_VAR :: string where "AUTH_SECRET_VAR = ''AUTH_SECRET''"

record ('addr, 'w) services =
  sv_connect_db :: "nat \<Rightarrow> nat \<Rightarrow> string \<Rightarrow> 'w \<Rightarrow> (string + unit) \<times> 'w"
  sv_connect_nats :: "string \<Rightarrow> 'w \<Rightarrow> (string + unit) \<times> 'w"
  sv_jetstream :: "'w jetstream_admin"
  sv_stream_error :: "'w \<Rightarrow> string"
  sv_connect_auth :: "string \<Rightarrow> 'w \<Rightarrow> (string + unit) \<times> 'w"
  sv_build_auth :: "string \<Rightarrow> 'w \<Rightarrow> (string + unit) \<times> 'w"
  sv_quic :: "('addr, 'w) quic_stack"
  sv_debug :: "string \<Rightarrow> string"
  sv_listen :: "string \<Rightarrow> 'w \<Rightarrow> (string + unit) \<times> 'w"

section \<open>The texts of the errors\<close>

text \<open>The ellipsis of the message, in UTF-8.\<close>

definition ellipsis :: string where "ellipsis = [CHR 0xE2, CHR 0x80, CHR 0xA6]"

text \<open>\<open>cause\<close> is the text of the error of sqlx that two of the variants carry.\<close>

fun show_db_error :: "string \<Rightarrow> db_error \<Rightarrow> string" where
  "show_db_error cause MissingDatabaseUrl = DATABASE_URL_VAR @ '' must be set to connect to Postgres''"
| "show_db_error cause InvalidDatabaseUrl =
     DATABASE_URL_VAR @ '' could not be parsed (expected postgres://'' @ ellipsis @ ''/dbname)''"
| "show_db_error cause ConnectError = ''failed to connect to Postgres: '' @ cause"
| "show_db_error cause DbOp = ''database operation failed: '' @ cause"
| "show_db_error cause NoWorktreeSlug =
     ''drop_worktree_db refuses to drop the base DB; set EPISTL_WORKTREE_SLUG or run inside a .claude/worktrees/<name> tree''"
| "show_db_error cause Panicked = cause"

text \<open>What \<open>Error::source\<close> answers: the error of the crate below, if there is one.\<close>

fun db_error_source :: "string \<Rightarrow> db_error \<Rightarrow> string option" where
  "db_error_source cause ConnectError = Some cause"
| "db_error_source cause DbOp = Some cause"
| "db_error_source cause _ = None"

datatype nats_error =
    MissingNatsUrl
  | NatsConnect string
  | CreateStream string

definition show_nats_error :: "host \<Rightarrow> nats_error \<Rightarrow> string" where
  "show_nats_error h err =
     (case err of
        MissingNatsUrl \<Rightarrow> NATS_URL_VAR @ '' must be set to connect to NATS''
      | NatsConnect cause \<Rightarrow> ''failed to connect to NATS: '' @ cause
      | CreateStream cause \<Rightarrow> ''failed to create/fetch '' @ effective_stream_name h @ '' stream: '' @ cause)"

fun nats_error_source :: "nats_error \<Rightarrow> string option" where
  "nats_error_source MissingNatsUrl = None"
| "nats_error_source (NatsConnect cause) = Some cause"
| "nats_error_source (CreateStream cause) = Some cause"

fun quic_error_source :: "quic_listen_error \<Rightarrow> string option" where
  "quic_error_source (InvalidAddr _ cause) = Some cause"
| "quic_error_source (GenerateCert cause) = Some cause"
| "quic_error_source (BuildTlsConfig cause) = Some cause"
| "quic_error_source (BuildQuicConfig cause) = Some cause"
| "quic_error_source (Bind _ cause) = Some cause"

text \<open>
  A start-up error ends in the words of the error it wraps, so nothing is lost when only its own text
  goes to standard error.
\<close>

lemma errors_end_with_cause:
  "db_error_source cause err = Some c \<Longrightarrow> \<exists>s. show_db_error cause err = s @ c"
  "nats_error_source nerr = Some c \<Longrightarrow> \<exists>s. show_nats_error h nerr = s @ c"
  "quic_error_source qerr = Some c \<Longrightarrow> \<exists>s. show_quic_listen_error debug qerr = s @ c"
proof -
  have e: "\<exists>s. a @ t = s @ c" if "\<exists>s. t = s @ c" for a t using that by (metis append.assoc)
  have r: "\<exists>s. c = s @ c" by simp
  show "db_error_source cause err = Some c \<Longrightarrow> \<exists>s. show_db_error cause err = s @ c"
    by (cases err) (simp_all only: db_error_source.simps show_db_error.simps option.inject option.distinct, blast+)
  show "nats_error_source nerr = Some c \<Longrightarrow> \<exists>s. show_nats_error h nerr = s @ c"
    by (cases nerr) (simp_all only: nats_error_source.simps show_nats_error_def nats_error.case option.inject
        option.distinct, (intro e r)+)
  show "quic_error_source qerr = Some c \<Longrightarrow> \<exists>s. show_quic_listen_error debug qerr = s @ c"
    by (cases qerr) (simp_all only: quic_error_source.simps show_quic_listen_error_def quic_listen_error.case
        option.inject, (intro e r)+)
qed

text \<open>The pool: five connections at most, and five seconds to wait for one.\<close>

definition CONNECT_TIMEOUT :: nat where "CONNECT_TIMEOUT = 5"

definition connect_with :: "('addr, 'w) services \<Rightarrow> string \<Rightarrow> 'w \<Rightarrow> ((db_error \<times> string) + unit) \<times> 'w" where
  "connect_with S database_url = map_err (\<lambda>cause. (ConnectError, cause)) (sv_connect_db S 5 CONNECT_TIMEOUT database_url)"

definition db_connect :: "('addr, 'w) services \<Rightarrow> host \<Rightarrow> 'w \<Rightarrow> ((db_error \<times> string) + unit) \<times> 'w" where
  "db_connect S h =
     and_then (map_err (\<lambda>err. (err, '''')) (\<lambda>w. (effective_database_url h, w))) (connect_with S)"

definition nats_connect :: "('addr, 'w) services \<Rightarrow> host \<Rightarrow> 'w \<Rightarrow> (nats_error + unit) \<times> 'w" where
  "nats_connect S h =
     (case env_var h NATS_URL_VAR of
        None \<Rightarrow> fails MissingNatsUrl
      | Some url \<Rightarrow> map_err NatsConnect (sv_connect_nats S url))"

datatype auth_build_error =
    AuthConnect string
  | AuthBuild string

definition show_auth_build_error :: "auth_build_error \<Rightarrow> string" where
  "show_auth_build_error err =
     (case err of
        AuthConnect cause \<Rightarrow> ''failed to connect to Postgres: '' @ cause
      | AuthBuild cause \<Rightarrow> ''failed to build BetterAuth: '' @ cause)"

text \<open>\<open>sv_build_auth\<close> gets the secret; base URL, password length and plugins are constants.\<close>

definition build_auth :: "('addr, 'w) services \<Rightarrow> string \<Rightarrow> string \<Rightarrow> 'w \<Rightarrow> (auth_build_error + unit) \<times> 'w" where
  "build_auth S database_url secret =
     and_then (map_err AuthConnect (sv_connect_auth S database_url)) (\<lambda>_.
       map_err AuthBuild (sv_build_auth S secret))"

section \<open>The sequence\<close>

text \<open>What the handlers start from, next to the handles of the services.\<close>

record app_state =
  as_registry :: live
  as_limiter :: window
  as_avatars :: avatar_store

definition no_connections :: live where
  "no_connections = \<lparr>registry = (\<lambda>_. None), inbox = (\<lambda>_. []), receiving = (\<lambda>_. False)\<rparr>"

definition pure_step :: "string + 'x \<Rightarrow> 'w \<Rightarrow> (string + 'x) \<times> 'w" where
  "pure_step r w = (r, w)"

definition ensure_stream_step :: "('addr, 'w) services \<Rightarrow> host \<Rightarrow> 'w \<Rightarrow> (string + unit) \<times> 'w" where
  "ensure_stream_step S h w =
     (case ensure_offline_stream (sv_jetstream S) h w of
        (True, w') \<Rightarrow> (Inr (), w')
      | (False, w') \<Rightarrow> (Inl (show_nats_error h (CreateStream (sv_stream_error S w'))), w'))"

text \<open>The steps up to the listener; the error is what \<open>startup failed:\<close> is followed by.\<close>

definition configure :: "('addr, 'w) services \<Rightarrow> host \<Rightarrow> nat \<Rightarrow> 'w \<Rightarrow> (string + app_state) \<times> 'w" where
  "configure S h now =
     and_then (map_err (show_db_error '''') (\<lambda>w. (effective_database_url h, w))) (\<lambda>database_url.
     and_then (map_err (\<lambda>(err, cause). show_db_error cause err) (connect_with S database_url)) (\<lambda>_.
     and_then (map_err (show_nats_error h) (nats_connect S h)) (\<lambda>_.
     and_then (ensure_stream_step S h) (\<lambda>_.
     and_then (pure_step (case env_var h AUTH_SECRET_VAR of
                 None \<Rightarrow> Inl (AUTH_SECRET_VAR @ '' must be set (at least 32 bytes)'')
               | Some secret \<Rightarrow> Inr secret)) (\<lambda>secret.
     and_then (map_err show_auth_build_error (build_auth S database_url secret)) (\<lambda>_.
     and_then (pure_step (case avatar_store_from_env h of
                 Inl err \<Rightarrow> Inl (show_avatar_store_config_error err)
               | Inr store \<Rightarrow> Inr store)) (\<lambda>store.
     and_then (map_err (show_quic_listen_error (sv_debug S)) (maybe_spawn (sv_quic S) h)) (\<lambda>_.
       yields \<lparr>as_registry = no_connections, as_limiter = new_limiter now, as_avatars = store\<rparr>))))))))"

datatype startup =
    ExitFailure string
  | ListenPanic string
  | Serving app_state

definition api_main :: "('addr, 'w) services \<Rightarrow> host \<Rightarrow> nat \<Rightarrow> 'w \<Rightarrow> startup \<times> 'w" where
  "api_main S h now w =
     (case configure S h now w of
        (Inl err, w') \<Rightarrow> (ExitFailure (''startup failed: '' @ err), w')
      | (Inr state, w') \<Rightarrow>
          (case sv_listen S ''0.0.0.0:3000'' w' of
             (Inl err, w'') \<Rightarrow> (ListenPanic (''failed to bind listener: '' @ err), w'')
           | (Inr _, w'') \<Rightarrow> (Serving state, w'')))"

section \<open>Nothing is served half configured\<close>

text \<open>
  An API that serves has found all its configuration, holds no connection and has spent nothing of
  the search budget.
\<close>

lemma map_err_pure_Inr: "map_err g (\<lambda>w. (r, w)) w = (Inr x, w') \<Longrightarrow> r = Inr x"
  by (auto simp: map_err_def split: sum.splits)

lemma serving_is_configured:
  assumes "api_main S h now w = (Serving st, w')"
  shows "(\<exists>url. effective_database_url h = Inr url) \<and> env_var h NATS_URL_VAR \<noteq> None \<and>
    env_var h AUTH_SECRET_VAR \<noteq> None \<and> avatar_store_from_env h = Inr (as_avatars st) \<and>
    (\<exists>addr. resolve_listen_addr (parse_addr (sv_quic S)) h = Inr addr) \<and>
    as_registry st = no_connections \<and> as_limiter st = new_limiter now"
proof -
  obtain w1 where c: "configure S h now w = (Inr st, w1)"
    using assms by (auto simp: api_main_def split: prod.splits sum.splits)
  from c show ?thesis
    unfolding configure_def
  proof (elim and_then_Inr, goal_cases)
    case (1 url wa ua wb ub wc uc wd secret we ud wf store wg up wh)
    have "effective_database_url h = Inr url"
      using 1(1) by (rule map_err_pure_Inr)
    moreover have "env_var h NATS_URL_VAR \<noteq> None"
      using 1(3) by (cases "env_var h NATS_URL_VAR") (auto simp: nats_connect_def map_err_def fails_def)
    moreover have "env_var h AUTH_SECRET_VAR \<noteq> None"
      using 1(5) by (auto simp: pure_step_def split: option.splits)
    moreover have "avatar_store_from_env h = Inr store"
      using 1(7) by (auto simp: pure_step_def split: sum.splits)
    moreover have "\<exists>addr. resolve_listen_addr (parse_addr (sv_quic S)) h = Inr addr"
      using 1(8) by (auto simp: map_err_def maybe_spawn_def fails_def split: sum.splits)
    moreover have "st = \<lparr>as_registry = no_connections, as_limiter = new_limiter now, as_avatars = store\<rparr>"
      using 1(9) by (simp add: yields_def)
    ultimately show ?case
      by auto
  qed
qed

end
