(* ===== verification/Api_App.thy ===== *)
theory Api_App
  imports Api_Contacts_Live Api_Profile Api_Avatars Api_Search Api_Transport
begin

text \<open>
  The whole API (\<open>app\<close> of \<open>apps/api/src/lib.rs\<close>): the routers of all modules merged into one, over
  the state they share. A request is what its route and the extractors make of it: the handler and
  its parsed arguments, next to the \<open>Authorization\<close> header.
\<close>

section \<open>Routes\<close>

datatype http_method = GET | POST | DELETE | PATCH

text \<open>A path template is its segments; a parameter stands in braces.\<close>

type_synonym route = "http_method \<times> string list"

definition contacts_routes :: "route list" where
  "contacts_routes =
     [(GET, [''api'', ''contacts'']), (POST, [''api'', ''contacts'']),
      (DELETE, [''api'', ''contacts'', ''{user_id}'']),
      (GET, [''api'', ''contacts'', ''requests'']), (POST, [''api'', ''contacts'', ''requests'']),
      (POST, [''api'', ''contacts'', ''requests'', ''{id}'', ''accept'']),
      (POST, [''api'', ''contacts'', ''requests'', ''{id}'', ''decline'']),
      (POST, [''api'', ''contacts'', ''requests'', ''{id}'', ''cancel''])]"

definition avatar_routes :: "route list" where
  "avatar_routes =
     [(POST, [''api'', ''avatar'', ''upload-url'']), (POST, [''api'', ''avatar'', ''confirm'']),
      (GET, [''api'', ''avatar'', ''{user_id}''])]"

definition auth_routes :: "route list" where
  "auth_routes = [(POST, [''signup'']), (POST, [''login''])]"

definition keys_routes :: "route list" where
  "keys_routes = [(POST, [''api'', ''keys''])]"

definition messages_routes :: "route list" where
  "messages_routes = [(GET, [''api'', ''messages'', ''queued'', ''{from_user_id}''])]"

definition account_routes :: "route list" where
  "account_routes = [(DELETE, [''api'', ''account''])]"

definition search_routes :: "route list" where
  "search_routes = [(GET, [''api'', ''users'', ''search''])]"

definition push_token_routes :: "route list" where
  "push_token_routes = [(POST, [''api'', ''push-tokens''])]"

definition username_routes :: "route list" where
  "username_routes = [(PATCH, [''api'', ''username''])]"

definition ws_routes :: "route list" where
  "ws_routes = [(GET, [''ws''])]"

text \<open>In the order in which \<open>app\<close> merges the routers.\<close>

definition app_routes :: "route list" where
  "app_routes =
     [(GET, [''health''])] @ auth_routes @ contacts_routes @ keys_routes @ messages_routes @ account_routes @
     search_routes @ push_token_routes @ avatar_routes @ username_routes @ ws_routes"

lemmas route_tables = auth_routes_def contacts_routes_def keys_routes_def messages_routes_def account_routes_def
  search_routes_def push_token_routes_def avatar_routes_def username_routes_def ws_routes_def

section \<open>Requests\<close>

datatype api_call =
    ContactsCall contact_call
  | UploadKeys upload_keys_payload
  | PeekQueued uuid
  | DeleteAccount
  | RegisterPushToken "string option"
  | AvatarCall avatar_call
  | ChangeUsername "string option"

datatype request =
    Health
  | Signup signup_payload
  | Login login_payload
  | Search "string option"
  | Protected api_call

fun contacts_route :: "contact_call \<Rightarrow> route" where
  "contacts_route ListContacts = contacts_routes ! 0"
| "contacts_route (AddContact _) = contacts_routes ! 1"
| "contacts_route (RemoveContact _) = contacts_routes ! 2"
| "contacts_route ListRequests = contacts_routes ! 3"
| "contacts_route (CreateRequest _) = contacts_routes ! 4"
| "contacts_route (AcceptRequest _) = contacts_routes ! 5"
| "contacts_route (DeclineRequest _) = contacts_routes ! 6"
| "contacts_route (CancelRequest _) = contacts_routes ! 7"

section \<open>Dispatch\<close>

text \<open>The services that \<open>AppState\<close> holds, with what the crates behind them do.\<close>

record ('a, 'k, 'q, 'h, 's) site =
  si_auth :: "'a better_auth"
  si_app :: "('q, 'h) app"
  si_search :: "'k search_db"
  si_s3 :: "'s s3"
  si_valid_header :: "string \<Rightarrow> bool"
  si_avatars :: avatar_store

text \<open>The state: the store of \<open>better-auth\<close>, the limiter, the node and the bucket.\<close>

record ('a, 'q, 'h, 's) world =
  w_auth :: 'a
  w_window :: window
  w_node :: "('q, 'h) node"
  w_store :: 's

abbreviation site_lib :: "('a, 'k, 'q, 'h, 's) site \<Rightarrow> lib" where
  "site_lib X \<equiv> app_lib (si_app X)"

definition health :: response where
  "health = Plain 200 ''ok''"

definition on_db :: "(database \<Rightarrow> response \<times> database) \<Rightarrow> ('q, 'h) node \<times> 's \<Rightarrow> response \<times> ('q, 'h) node \<times> 's" where
  "on_db run st = (let (resp, db) = run (nd_db (fst st)) in (resp, (fst st)\<lparr>nd_db := db\<rparr>, snd st))"

fun call_handler ::
  "('a, 'k, 'q, 'h, 's) site \<Rightarrow> dbenv \<Rightarrow> api_call \<Rightarrow> user_row \<Rightarrow> ('q, 'h) node \<times> 's \<Rightarrow> response \<times> ('q, 'h) node \<times> 's" where
  "call_handler X e (ContactsCall c) user st =
     (let (resp, l, db) = contacts_router e (site_lib X) user c (nd_live (fst st)) (nd_db (fst st))
      in (resp, (fst st)\<lparr>nd_live := l, nd_db := db\<rparr>, snd st))"
| "call_handler X e (UploadKeys p) user st = on_db (upload_keys e (site_lib X) user p) st"
| "call_handler X e (PeekQueued from) user st =
     (get_queued (si_app X) (u_id user) from (nd_queue (fst st)), st)"
| "call_handler X e DeleteAccount user st = on_db (delete_account e user) st"
| "call_handler X e (RegisterPushToken t) user st = on_db (register_push_token e (site_lib X) user t) st"
| "call_handler X e (AvatarCall c) user st =
     (let (resp, db, s) = avatars_router (si_s3 X) (si_valid_header X) e (site_lib X) (si_avatars X) user c
                            (nd_db (fst st), snd st)
      in (resp, (fst st)\<lparr>nd_db := db\<rparr>, s))"
| "call_handler X e (ChangeUsername name) user st = on_db (change_username e (site_lib X) user name) st"

text \<open>The search route has the limiter in front of the authentication.\<close>

fun app_dispatch ::
  "('a, 'k::linorder, 'q, 'h, 's) site \<Rightarrow> dbenv \<Rightarrow> nat \<Rightarrow> string option \<Rightarrow> request
     \<Rightarrow> ('a, 'q, 'h, 's) world \<Rightarrow> response \<times> ('a, 'q, 'h, 's) world" where
  "app_dispatch X e now header Health w = (health, w)"
| "app_dispatch X e now header (Signup p) w =
     (let (resp, a, db) = signup (si_auth X) (site_lib X) e p (w_auth w, nd_db (w_node w))
      in (resp, w\<lparr>w_auth := a, w_node := (w_node w)\<lparr>nd_db := db\<rparr>\<rparr>))"
| "app_dispatch X e now header (Login p) w =
     (let (resp, a) = login (si_auth X) (site_lib X) p (w_auth w) in (resp, w\<lparr>w_auth := a\<rparr>))"
| "app_dispatch X e now header (Search q) w =
     (let (resp, win, a, db) = search_router (si_auth X) e (site_lib X) (si_search X) now header q
                                 (w_window w, w_auth w, nd_db (w_node w))
      in (resp, w\<lparr>w_auth := a, w_window := win, w_node := (w_node w)\<lparr>nd_db := db\<rparr>\<rparr>))"
| "app_dispatch X e now header (Protected c) w =
     (let (resp, a, n, s) = protected (si_auth X) (site_lib X) header (call_handler X e c)
                              (w_auth w, w_node w, w_store w)
      in (resp, w\<lparr>w_auth := a, w_node := n, w_store := s\<rparr>))"

text \<open>The route a request arrives on.\<close>

fun route_of :: "request \<Rightarrow> route" where
  "route_of Health = (GET, [''health''])"
| "route_of (Signup _) = (POST, [''signup''])"
| "route_of (Login _) = (POST, [''login''])"
| "route_of (Search _) = (GET, [''api'', ''users'', ''search''])"
| "route_of (Protected (ContactsCall c)) = contacts_route c"
| "route_of (Protected (UploadKeys _)) = (POST, [''api'', ''keys''])"
| "route_of (Protected (PeekQueued _)) = (GET, [''api'', ''messages'', ''queued'', ''{from_user_id}''])"
| "route_of (Protected DeleteAccount) = (DELETE, [''api'', ''account''])"
| "route_of (Protected (RegisterPushToken _)) = (POST, [''api'', ''push-tokens''])"
| "route_of (Protected (AvatarCall (UploadUrl _))) = avatar_routes ! 0"
| "route_of (Protected (AvatarCall ConfirmUpload)) = avatar_routes ! 1"
| "route_of (Protected (AvatarCall (GetAvatar _))) = avatar_routes ! 2"
| "route_of (Protected (ChangeUsername _)) = (PATCH, [''api'', ''username''])"

section \<open>The routers do not collide\<close>

text \<open>
  Merging routers panics when two of them have the same method on the same path, or when two
  templates differ in the name of a parameter only.
\<close>

definition unnamed :: "string list \<Rightarrow> string list" where
  "unnamed = map (\<lambda>s. if take 1 s = ''{'' then ''{}'' else s)"

lemma app_routes_merge:
  "distinct app_routes \<and>
   list_all (\<lambda>r. list_all (\<lambda>r'. unnamed (snd r) = unnamed (snd r') \<longrightarrow> snd r = snd r') app_routes) app_routes"
  by code_simp

lemma contacts_route_in: "contacts_route c \<in> set app_routes"
  by (cases c) (simp_all add: app_routes_def route_tables)

lemma request_has_route: "route_of req \<in> set app_routes"
  by (cases req rule: route_of.cases)
     (simp_all add: contacts_route_in, simp_all add: app_routes_def route_tables)

section \<open>What the handlers leave of the database and the live connections\<close>

lemma wf_update_username: "wf_statement (update_username now uid name)"
  unfolding wf_statement_def
proof (intro allI impI)
  fix db assume db: "db_wf db"
  have u: "users_ok (users db)" using db by (rule db_wfD(1))
  show "db_wf (apply_writes (snd (update_username now uid name db)) db)"
    using u
  proof (cases rule: update_username_cases [where db = db and now = now and uid = uid and name = name])
    case (renamed ws)
    then show ?thesis using wf_rename [OF db renamed(3)] by simp
  qed (use db in simp_all)
qed

lemma wf_update_image: "wf_statement (update_image uid path)"
  unfolding wf_statement_def
proof (intro allI impI)
  fix db assume db: "db_wf db"
  have "distinct (map u_id (users db))" using db_wfD(1) [OF db] by (simp add: users_ok_def)
  then show "db_wf (apply_writes (snd (update_image uid path db)) db)"
    using wf_set_image [OF db] by (simp add: apply_update_image)
qed

lemma wf_delete_statement: "wf_statement (delete_user_statement uid)"
  by (simp add: wf_statement_def delete_user_statement_def wf_delete_user)


lemma wf_upload_keys:
  assumes env: "peers_ok e" "fresh_ids e" and db: "db_wf db"
  shows "db_wf (snd (upload_keys e L user p db))"
proof (cases "check_bundle L p")
  case (Inr b)
  have "db_wf (snd (autocommit e 0 (upsert_keys (clock e 0) (u_id user) b) db))"
    by (rule wf_autocommit [OF wf_upsert_keys [OF check_bundle_fits [OF Inr]] env(1) db])
  then show ?thesis using Inr by (simp add: upload_keys_def case_prod_beta split: sum.splits)
qed (simp add: upload_keys_def db)

lemma wf_register_push_token:
  assumes env: "peers_ok e" "fresh_ids e" and db: "db_wf db"
  shows "db_wf (snd (register_push_token e L user t db))"
proof -
  have "db_wf (snd (autocommit e 0 (upsert_push (gen_id e) (clock e 0) token (u_id user)) db))" if "token \<noteq> []" for token
    using env(2) that by (intro wf_autocommit [OF wf_upsert_push env(1) db]) (simp_all add: fresh_ids_def)
  then show ?thesis
    using db by (simp add: register_push_token_def Let_def case_prod_beta split: sum.splits option.splits)
qed

lemma wf_change_username:
  assumes env: "peers_ok e" "fresh_ids e" and db: "db_wf db"
  shows "db_wf (snd (change_username e L user name db))"
proof -
  have "db_wf (snd (autocommit e 0 (update_username (clock e 0) (u_id user) nm) db))" for nm
    by (rule wf_autocommit [OF wf_update_username env(1) db])
  then show ?thesis
    using db by (simp add: change_username_def Let_def case_prod_beta split: sum.splits option.splits)
qed

lemma wf_delete_account:
  assumes env: "peers_ok e" "fresh_ids e" and db: "db_wf db"
  shows "db_wf (snd (delete_account e user db))"
  using wf_autocommit [OF wf_delete_statement env(1) db, of 0 "u_id user"]
  by (simp add: delete_account_def case_prod_beta split: sum.splits)

lemma wf_read: "peers_ok e \<Longrightarrow> db_wf db \<Longrightarrow> db_wf (snd (autocommit e i (query f) db))"
  by (rule wf_autocommit [OF wf_query])

lemma wf_avatars:
  assumes env: "peers_ok e" "fresh_ids e" and db: "db_wf db"
  shows "db_wf (fst (snd (avatars_router S valid_header e L store user c (db, s))))"
proof (cases c)
  case ConfirmUpload
  have "db_wf (snd (autocommit e 0 (update_image (u_id user) path) db))" for path
    by (rule wf_autocommit [OF wf_update_image env(1) db])
  then show ?thesis
    using db ConfirmUpload by (simp add: confirm_upload_def Let_def case_prod_beta split: sum.splits option.splits)
next
  case (GetAvatar uid)
  then show ?thesis
    by (simp add: wf_read [OF env(1) db] get_avatar_def Let_def case_prod_beta split: sum.splits option.splits)
qed (simp add: db case_prod_beta)

lemma wf_search:
  assumes env: "peers_ok e" "fresh_ids e" and db: "db_wf db"
  shows "db_wf (snd (search_users e L S user q db))"
  by (simp add: wf_read [OF env(1) db] db search_users_def Let_def case_prod_beta split: sum.splits)

lemma wf_signup:
  assumes env: "peers_ok e" "fresh_ids e" and db: "db_wf db"
  shows "db_wf (snd (snd (signup B L e p (a, db))))"
  by (simp add: wf_read [OF env(1) db] db signup_def Let_def case_prod_beta split: sum.splits bool.splits)

section \<open>The contract of a handler\<close>

text \<open>
  A handler keeps the constraints, whatever is lost and whatever others commit; so does the node
  around it, and so does its route behind the authentication.
\<close>

locale sound_handler =
  fixes run :: "dbenv \<Rightarrow> user_row \<Rightarrow> database \<Rightarrow> response \<times> database"
  assumes keeps_wf: "peers_ok e \<Longrightarrow> fresh_ids e \<Longrightarrow> db_wf db \<Longrightarrow> db_wf (snd (run e user db))"
begin

lemma node_wf:
  "peers_ok e \<Longrightarrow> fresh_ids e \<Longrightarrow> db_wf (nd_db (fst st)) \<Longrightarrow> db_wf (nd_db (fst (snd (on_db (run e user) st))))"
  by (simp add: on_db_def case_prod_beta keeps_wf)

lemma route_wf:
  assumes "peers_ok e" and "fresh_ids e" and "db_wf db"
  shows "db_wf (snd (snd (protected B L header (run e) (a, db))))"
  using protected_runs_only_authenticated [of header B a L "run e" db] keeps_wf [OF assms] assms(3) by auto

end

interpretation upload: sound_handler "\<lambda>e user. upload_keys e L user p" for L p
  by unfold_locales (rule wf_upload_keys)

interpretation account: sound_handler delete_account
  by unfold_locales (rule wf_delete_account)

interpretation token: sound_handler "\<lambda>e user. register_push_token e L user t" for L t
  by unfold_locales (rule wf_register_push_token)

interpretation username: sound_handler "\<lambda>e user. change_username e L user name" for L name
  by unfold_locales (rule wf_change_username)

interpretation search: sound_handler "\<lambda>e user. search_users e L S user q" for L and S :: "'k::linorder search_db" and q
  by unfold_locales (rule wf_search)

lemma wf_call:
  assumes "peers_ok e" and "fresh_ids e" and "db_wf (nd_db (fst st))"
  shows "db_wf (nd_db (fst (snd (call_handler X e c user st))))"
proof (cases c)
  case (ContactsCall k)
  obtain r l d where k: "contacts_router e (site_lib X) user k (nd_live (fst st)) (nd_db (fst st)) = (r, l, d)"
    by (metis prod.exhaust)
  show ?thesis using contacts_router_wf [OF assms(3,1,2) k] ContactsCall k by simp
next
  case (AvatarCall k)
  show ?thesis
    using wf_avatars [OF assms, of "si_s3 X" "si_valid_header X" "site_lib X" "si_avatars X" user k "snd st"] AvatarCall
    by (simp add: case_prod_beta)
qed (use assms in \<open>simp_all add: upload.node_wf account.node_wf token.node_wf username.node_wf\<close>)

text \<open>What a contacts request does to the live connections: it may append frames.\<close>

definition frames_added :: "live \<Rightarrow> live \<Rightarrow> bool" where
  "frames_added l l' \<longleftrightarrow> registry l' = registry l \<and> receiving l' = receiving l \<and>
     (\<forall>c. \<exists>fs. inbox l' c = inbox l c @ fs)"

lemma frames_added_same [simp]: "frames_added l l"
  by (simp add: frames_added_def)

lemma frames_added_push [simp]: "frames_added l (push_frame L u v l)"
  by (auto simp: frames_added_def push_frame_def send_frame_def split: option.splits)

lemma frames_added_remove: "remove_contact e L user c l db = (resp, l', db') \<Longrightarrow> frames_added l l'"
  unfolding remove_contact_def by (auto split: prod.splits sum.splits if_splits)

lemma frames_added_accept: "accept_contact_request e L user rid l db = (resp, l', db') \<Longrightarrow> frames_added l l'"
  unfolding accept_contact_request_def by (auto split: prod.splits sum.splits if_splits)

lemma frames_added_insert: "insert_and_notify e L user t l db = (resp, l', db') \<Longrightarrow> frames_added l l'"
  unfolding insert_and_notify_def by (auto split: prod.splits sum.splits option.splits)

lemma frames_added_create: "create_contact_request e L user p l db = (resp, l', db') \<Longrightarrow> frames_added l l'"
  unfolding create_contact_request_def
  by (auto dest: frames_added_insert split: prod.splits sum.splits option.splits if_splits bool.splits)

lemma frames_added_contacts:
  "contacts_router e L user call l db = (resp, l', db') \<Longrightarrow> frames_added l l'"
  using frames_added_remove frames_added_accept frames_added_create
  by (cases call) (auto split: prod.splits)

text \<open>No request touches the queue or the spawned tasks.\<close>

definition quiet :: "('q, 'h) node \<Rightarrow> ('q, 'h) node \<Rightarrow> bool" where
  "quiet n n' \<longleftrightarrow> nd_queue n' = nd_queue n \<and> nd_tasks n' = nd_tasks n \<and> frames_added (nd_live n) (nd_live n')"

lemma quiet_simps [simp]: "quiet n n" "quiet n (n\<lparr>nd_db := db\<rparr>)"
  by (simp_all add: quiet_def)

lemma quiet_call: "quiet (fst st) (fst (snd (call_handler X e c user st)))"
proof (cases c)
  case (ContactsCall k)
  obtain r l d where k: "contacts_router e (site_lib X) user k (nd_live (fst st)) (nd_db (fst st)) = (r, l, d)"
    by (metis prod.exhaust)
  show ?thesis using frames_added_contacts [OF k] k ContactsCall by (simp add: quiet_def)
qed (simp_all add: on_db_def case_prod_beta)

lemma protected_handler:
  "(\<exists>user a'. protected B L header handler (a, s) = (fst (handler user s), a', snd (handler user s))) \<or>
   (\<exists>a'. protected B L header handler (a, s) = (unauthorized, a', s))"
  using protected_runs_only_authenticated [of header B a L handler s] by blast

lemma quiet_app: "quiet (w_node w) (w_node (snd (app_dispatch X e now header req w)))"
proof (cases req)
  case (Protected c)
  show ?thesis
    using protected_handler [of "si_auth X" "site_lib X" header "call_handler X e c" "w_auth w" "(w_node w, w_store w)"]
      quiet_call [of "(w_node w, w_store w)" X e c] Protected
    by (auto simp: case_prod_beta)
qed (simp_all add: case_prod_beta)

lemma app_wf:
  assumes "peers_ok e" and "fresh_ids e" and "db_wf (nd_db (w_node w))"
  shows "db_wf (nd_db (w_node (snd (app_dispatch X e now header req w))))"
proof (cases req)
  case (Protected c)
  show ?thesis
    using protected_handler [of "si_auth X" "site_lib X" header "call_handler X e c" "w_auth w" "(w_node w, w_store w)"]
      wf_call [of e "(w_node w, w_store w)" X c] assms Protected
    by (auto simp: case_prod_beta)
next
  case (Search q)
  obtain ok win where t: "try_acquire now (w_window w) = (ok, win)" by (rule prod.exhaust)
  show ?thesis
    using search.route_wf [OF assms, of "si_auth X" "site_lib X" header "site_lib X" "si_search X" q "w_auth w"] assms(3) Search t
    by (simp add: search_router_def rate_limit_def case_prod_beta)
next
  case (Signup p)
  then show ?thesis using wf_signup [OF assms] by (simp add: case_prod_beta)
qed (use assms(3) in \<open>simp_all add: case_prod_beta\<close>)

end
