(* ===== verification/Api_System.thy ===== *)
theory Api_System
  imports Api_App Api_Relay_Examples
begin

text \<open>
  The API at work: HTTP requests, frames of clients, connects, disconnects, spawned tasks and the
  commits of other sessions in any order, and what holds of the whole whatever the order is.
\<close>

section \<open>Events\<close>

text \<open>A channel belongs to one connection, and \<open>owner\<close> is the user it was opened for.\<close>

datatype event =
    Request dbenv nat "string option" request
  | ClientFrame dbenv "nat \<Rightarrow> timestamp" sender string
  | Connect sender
  | CatchUp sender
  | Disconnect sender
  | RunTask dbenv task
  | Commit database

definition on_node ::
  "(('q, 'h) node \<Rightarrow> ('q, 'h) node) \<Rightarrow> ('a, 'q, 'h, 's) world \<Rightarrow> ('a, 'q, 'h, 's) world" where
  "on_node f w = w\<lparr>w_node := f (w_node w)\<rparr>"

fun serve ::
  "('a, 'k::linorder, 'q, 'h, 's) site \<Rightarrow> (sender \<Rightarrow> uuid) \<Rightarrow> event \<Rightarrow> ('a, 'q, 'h, 's) world \<Rightarrow> ('a, 'q, 'h, 's) world" where
  "serve X owner (Request e now header req) w = snd (app_dispatch X e now header req w)"
| "serve X owner (ClientFrame e now tx s) w =
     on_node (\<lambda>n. snd (handle_client_frame (si_app X) e now (owner tx) tx s n)) w"
| "serve X owner (Connect tx) w = on_node (\<lambda>n. n\<lparr>nd_live := register_connection (owner tx) tx (nd_live n)\<rparr>) w"
| "serve X owner (CatchUp tx) w = on_node (deliver_queued_messages (si_app X) (owner tx) tx) w"
| "serve X owner (Disconnect tx) w = on_node (\<lambda>n. n\<lparr>nd_live := close_connection (owner tx) tx (nd_live n)\<rparr>) w"
| "serve X owner (RunTask e t) w =
     (if t \<in> set (nd_tasks (w_node w))
      then on_node (\<lambda>n. run_task (si_app X) e t (n\<lparr>nd_tasks := remove1 t (nd_tasks n)\<rparr>)) w else w)"
| "serve X owner (Commit db) w = on_node (\<lambda>n. n\<lparr>nd_db := db\<rparr>) w"

fun run_events ::
  "('a, 'k::linorder, 'q, 'h, 's) site \<Rightarrow> (sender \<Rightarrow> uuid) \<Rightarrow> event list \<Rightarrow> ('a, 'q, 'h, 's) world \<Rightarrow> ('a, 'q, 'h, 's) world" where
  "run_events X owner [] w = w"
| "run_events X owner (ev # evs) w = run_events X owner evs (serve X owner ev w)"

text \<open>Every event that is no request is a step of the node, or nothing.\<close>

lemma serve_node:
  assumes "\<forall>e now header req. ev \<noteq> Request e now header req"
  shows "node_reach (si_app X) owner (w_node w) (w_node (serve X owner ev w))"
proof -
  let ?n = "w_node w" and ?n' = "w_node (serve X owner ev w)"
  have "?n' = ?n \<or> node_step (si_app X) owner ?n ?n'"
  proof (cases ev)
    case (ClientFrame e now tx s)
    obtain alive n' where h: "handle_client_frame (si_app X) e now (owner tx) tx s ?n = (alive, n')"
      by (rule prod.exhaust)
    have "node_step (si_app X) owner ?n n'"
      by (rule node_step.client [where owner = owner and tx = tx and u = "owner tx", OF refl h])
    then show ?thesis using ClientFrame h by (simp add: on_node_def)
  next
    case (RunTask e t)
    then show ?thesis by (simp add: on_node_def node_step.task)
  qed (use assms in \<open>auto simp: on_node_def intro: node_step.intros\<close>)
  then show ?thesis using node_reach.here node_reach.later by metis
qed

section \<open>Acknowledged messages\<close>

lemma quiet_safe:
  assumes "quiet n n'"
  shows "node_ok A V owner n' = node_ok A V owner n" and "due A V owner i u m n \<Longrightarrow> due A V owner i u m n'"
proof -
  have q: "nd_queue n' = nd_queue n" "nd_tasks n' = nd_tasks n" "registry (nd_live n') = registry (nd_live n)"
    and f: "\<And>c. \<exists>fs. inbox (nd_live n') c = inbox (nd_live n) c @ fs"
    using assms by (auto simp: quiet_def frames_added_def)
  show "node_ok A V owner n' = node_ok A V owner n" by (rule node_ok_cong) (use q in auto)
  show "due A V owner i u m n \<Longrightarrow> due A V owner i u m n'"
    by (erule due_mono) (use q f in \<open>auto, metis Un_iff set_append\<close>)
qed

lemma serve_safe:
  assumes "queue_laws (app_js (si_app X)) (stream_of (si_app X)) V" and "codec_laws (site_lib X)"
    and "node_ok (si_app X) V owner (w_node w)"
  shows "node_ok (si_app X) V owner (w_node (serve X owner ev w)) \<and>
    (due (si_app X) V owner i u m (w_node w) \<longrightarrow> due (si_app X) V owner i u m (w_node (serve X owner ev w)))"
proof (cases "\<exists>e now header req. ev = Request e now header req")
  case True
  then obtain e now header req where "ev = Request e now header req" by blast
  then have "quiet (w_node w) (w_node (serve X owner ev w))" using quiet_app by simp
  then show ?thesis using assms(3) quiet_safe(1) quiet_safe(2) by blast
next
  case False
  then show ?thesis using reach_safe [OF assms(1,2) serve_node assms(3)] by blast
qed

text \<open>
  C1: Once the API has acknowledged a message it is never lost. After any further events, requests to
  any route with any answers and failures, frames, connects, catch-ups, disconnects, spawned tasks
  and commits of others in any order, the message was handed to a channel of its recipient or still
  waits in the queue (the queue's own expiry aside, which the laws of the queue leave out).
\<close>

theorem api_never_loses_acknowledged:
  assumes "queue_laws (app_js (si_app X)) (stream_of (si_app X)) V" and "codec_laws (site_lib X)"
    and "node_ok (si_app X) V owner (w_node w)" and "kept (si_app X) V owner to message (w_node w)"
  shows "kept (si_app X) V owner to message (w_node (run_events X owner events w)) \<and>
    node_ok (si_app X) V owner (w_node (run_events X owner events w))"
  using assms(3,4)
proof (induction events arbitrary: w)
  case (Cons ev events)
  then show ?case using serve_safe [OF assms(1,2) Cons.prems(1)] unfolding kept_due by fastforce
qed simp

section \<open>The constraints of the database\<close>

text \<open>What is assumed of the other sessions and of random ids, event by event.\<close>

fun sound_event :: "event \<Rightarrow> bool" where
  "sound_event (Request e _ _ _) \<longleftrightarrow> peers_ok e \<and> fresh_ids e"
| "sound_event (ClientFrame e _ _ _) \<longleftrightarrow> peers_ok e"
| "sound_event (RunTask e _) \<longleftrightarrow> peers_ok e"
| "sound_event (Commit db) \<longleftrightarrow> db_wf db"
| "sound_event _ \<longleftrightarrow> True"

lemma send_error_db [simp]: "nd_db (snd (send_error A tx c m n)) = nd_db n"
  by (simp add: send_error_def)

lemma queue_db [simp]: "nd_db (snd (queue_for_offline_delivery A t from to b tx n)) = nd_db n"
  by (simp add: queue_for_offline_delivery_def Let_def case_prod_beta split: option.splits)

lemma frame_wf:
  assumes "peers_ok e" and "db_wf (nd_db n)"
  shows "db_wf (nd_db (snd (handle_client_frame A e now from tx s n)))"
proof -
  have "db_wf (snd (autocommit e 0 (query (has_contact from to)) (nd_db n)))" for to
    by (rule wf_autocommit [OF wf_query assms])
  then show ?thesis
    using assms(2)
    by (auto simp: handle_client_frame_def handle_send_def Let_def case_prod_beta split: option.splits)
qed

lemma deliver_messages_db [simp]: "nd_db (deliver_messages A tx ms n) = nd_db n"
proof (induction ms arbitrary: n)
  case (Cons m ms)
  then show ?case by (cases m) (simp add: deliver_messages.simps Let_def case_prod_beta split: option.splits)
qed simp

lemma catch_up_db [simp]: "nd_db (deliver_queued_messages A u tx n) = nd_db n"
  by (simp add: deliver_queued_messages_def Let_def case_prod_beta split: option.splits)

lemma task_wf:
  assumes "peers_ok e" and "db_wf (nd_db n)"
  shows "db_wf (nd_db (run_task A e t n))"
proof (cases t)
  case (Redeliver to k relay)
  then show ?thesis
    using assms(2) by (simp add: run_task_def redeliver_if_now_connected_def case_prod_beta split: option.splits)
next
  case (Notify to author)
  then show ?thesis
    using wf_autocommit [OF wf_query assms, of 0 "tokens_of to"]
    by (simp add: run_task_def notify_push_tokens_for_offline_message_def case_prod_beta Let_def)
qed

lemma serve_wf:
  assumes "sound_event ev" and "db_wf (nd_db (w_node w))"
  shows "db_wf (nd_db (w_node (serve X owner ev w)))"
  using assms by (cases ev) (simp_all add: on_node_def app_wf frame_wf task_wf)

text \<open>
  C9: No event breaks a constraint of the database: whatever requests, frames and tasks the API serves,
  in any order, with round trips lost at any point and other sessions committing in between (within
  the constraints Postgres enforces), ids, emails, usernames and pairs stay unique, at most one request
  is open per ordered pair, nobody is their own contact, every reference points at a user, and key
  bundles have their lengths.
\<close>

theorem api_keeps_constraints:
  assumes "db_wf (nd_db (w_node w))" and "list_all sound_event events"
  shows "db_wf (nd_db (w_node (run_events X owner events w)))"
  using assms
proof (induction events arbitrary: w)
  case (Cons ev events)
  then show ?case using serve_wf [of ev w X owner] by simp
qed simp

section \<open>Who may do what\<close>

fun public :: "request \<Rightarrow> bool" where
  "public Health = True"
| "public (Signup _) = True"
| "public (Login _) = True"
| "public _ = False"


section \<open>A concrete run\<close>

text \<open>A store that knows one session, Ana's, under the token \<open>t\<close>.\<close>

definition sample_session :: session_row where
  "sample_session = \<lparr>s_id = Uuid 30, s_user_id = Uuid 1, s_token = ''t'', s_expires_at = 100, s_ip_address = None,
     s_user_agent = None, s_active = True, s_created_at = 0, s_updated_at = 0\<rparr>"

definition sample_auth :: "unit better_auth" where
  "sample_auth =
     \<lparr>ba_handle_request = (\<lambda>path body a. (Inr \<lparr>ar_status = 200, ar_body = ''''\<rparr>, a)),
      ba_error_response = (\<lambda>err. \<lparr>ar_status = 500, ar_body = err\<rparr>),
      ba_get_session = (\<lambda>token a. (Inr (if token = ''t'' then Some sample_session else None), a)),
      ba_get_user_by_id = (\<lambda>uid a. (Inr (Some ana), a))\<rparr>"

definition sample_site :: "(unit, nat, sample_queue, string list, string \<times> string \<Rightarrow> int option) site" where
  "sample_site = \<lparr>si_auth = sample_auth, si_app = sample_app, si_search = sample_search, si_s3 = sample_s3,
     si_valid_header = (\<lambda>_. True), si_avatars = sample_store\<rparr>"

definition sample_world ::
  "(sample_queue, string list) node \<Rightarrow> (unit, sample_queue, string list, string \<times> string \<Rightarrow> int option) world" where
  "sample_world n = \<lparr>w_auth = (), w_window = new_limiter 0, w_node = n, w_store = (\<lambda>_. None)\<rparr>"

abbreviation as_ana :: "api_call \<Rightarrow> event" where
  "as_ana c \<equiv> Request calm_env 0 (Some ''Bearer t'') (Protected c)"

text \<open>Ana asks for her contacts, connects on channel 6 and catches up.\<close>

definition ana_returns :: "event list" where
  "ana_returns = [as_ana (ContactsCall ListContacts), Connect 6, CatchUp 6]"

theorem api_never_loses_acknowledged_witness:
  "kept sample_app sample_view channel_owner (Uuid 1) ana_message
     (w_node (run_events sample_site channel_owner ana_returns (sample_world after_send))) \<and>
   snd (nd_queue (w_node (run_events sample_site channel_owner ana_returns (sample_world after_send)))) = []"
proof -
  have s: "si_app sample_site = sample_app" "w_node (sample_world after_send) = after_send"
    by (simp_all add: sample_site_def sample_world_def)
  have k: "kept (si_app sample_site) sample_view channel_owner (Uuid 1) ana_message (w_node (sample_world after_send))"
    using after_send_waiting by (simp add: kept_def s)
  have "kept (si_app sample_site) sample_view channel_owner (Uuid 1) ana_message
      (w_node (run_events sample_site channel_owner ana_returns (sample_world after_send)))"
    by (rule conjunct1, rule api_never_loses_acknowledged [OF _ _ _ k]) (simp_all add: s sample_laws after_send_ok)
  moreover have "snd (nd_queue (w_node (run_events sample_site channel_owner ana_returns (sample_world after_send)))) = []"
    by code_simp
  ultimately show ?thesis by (simp add: s)
qed

text \<open>Ana adds Bob, deletes her account, and a commit of another session restores the friends.\<close>

definition busy_day :: "event list" where
  "busy_day = [as_ana (ContactsCall (AddContact (Some ''bob@x''))), as_ana DeleteAccount,
     ClientFrame calm_env (\<lambda>_. 0) 5 send_to_ana, Commit friends_db, as_ana (ContactsCall (AddContact (Some ''bob@x'')))]"

theorem api_keeps_constraints_witness:
  "db_wf (nd_db (w_node (run_events sample_site channel_owner busy_day (sample_world sample_node)))) \<and>
   length (contacts (nd_db (w_node (run_events sample_site channel_owner busy_day (sample_world sample_node))))) = 2"
proof -
  have "db_wf (nd_db (w_node (sample_world sample_node)))"
    by (simp add: sample_world_def sample_node_def friends_db_wf)
  moreover have "list_all sound_event busy_day"
    by (simp add: busy_day_def friends_db_wf)
  ultimately have "db_wf (nd_db (w_node (run_events sample_site channel_owner busy_day (sample_world sample_node))))"
    by (rule api_keeps_constraints)
  moreover have "length (contacts (nd_db (w_node (run_events sample_site channel_owner busy_day (sample_world sample_node))))) = 2"
    by code_simp
  ultimately show ?thesis ..
qed


end
