(* ===== verification/Api_Delivery.thy ===== *)
theory Api_Delivery
  imports Api_System Api_Transport
begin

text \<open>
  Progress of the offline queue: catching up often enough hands every message over, whatever the API
  does in between; and where a message that was handed over can still be lost.
\<close>

section \<open>When a catch-up gets somewhere\<close>

text \<open>
  JetStream answers a fetch with the oldest messages of the subject, as many as were asked for, and an
  acknowledgement removes its message. A catch-up that runs while the consumer cannot be created or
  the fetch fails does not count.
\<close>

definition acks_remove :: "'q jetstream \<Rightarrow> string \<Rightarrow> 'q queue_view \<Rightarrow> bool" where
  "acks_remove js st V \<longleftrightarrow> (\<forall>k q. queued V (js_ack js st k q) = without k (queued V q))"

definition catch_up_served :: "('q, 'h) app \<Rightarrow> 'q queue_view \<Rightarrow> uuid \<Rightarrow> ('q, 'h) node \<Rightarrow> bool" where
  "catch_up_served A V u n \<longleftrightarrow>
     (let (created, q1) = js_create_consumer (app_js A) (stream_of A) (subject_of A u) (nd_queue n)
      in created \<and>
         fst (js_fetch (app_js A) (stream_of A) (subject_of A u)
                MAX_QUEUED_MESSAGES_PER_FETCH QUEUED_MESSAGES_FETCH_TIMEOUT q1) =
           Some (take 256 (queued V (nd_queue n) (subject_of A u))))"

lemma parsable_all:
  "(\<forall>m \<in> set ms. parse_json L (snd m) \<noteq> None) \<Longrightarrow>
     parsable L ms = map (\<lambda>(k, p). (k, relay_of_payload (the (parse_json L p)))) ms"
  by (induction L ms rule: parsable.induct) auto

lemma acks_queue:
  assumes "acks_remove js st V"
  shows "queued V (foldl (\<lambda>q m. js_ack js st (fst m) q) q ms) s =
     filter (\<lambda>m. fst m \<notin> fst ` set ms) (queued V q s)"
  using assms
  by (induction ms arbitrary: q) (auto simp: acks_remove_def without_def intro!: filter_cong)

text \<open>A catch-up that is served takes at least 256 messages off the way of every message.\<close>

lemma catch_up_progress:
  assumes laws: "queue_laws (app_js A) (stream_of A) V" and acks: "acks_remove (app_js A) (stream_of A) V"
    and inj: "inj (show_uuid (app_lib A))" and ok: "node_ok A V owner n" and own: "owner tx = u" and alive: "receiving (nd_live n) tx"
    and served: "catch_up_served A V u n" and due: "due A V owner i u m n"
  shows "due A V owner (i - 256) u m (deliver_queued_messages A u tx n)"
proof -
  let ?q = "queued V (nd_queue n) (subject_of A u)"
  let ?n' = "deliver_queued_messages A u tx n"
  obtain q1 where 1: "js_create_consumer (app_js A) (stream_of A) (subject_of A u) (nd_queue n) = (True, q1)"
    using served by (auto simp: catch_up_served_def)
  obtain q2 where 2: "js_fetch (app_js A) (stream_of A) (subject_of A u) 256 300 q1 = (Some (take 256 ?q), q2)"
    using served 1
    by (cases "js_fetch (app_js A) (stream_of A) (subject_of A u) 256 300 q1")
       (simp add: catch_up_served_def MAX_QUEUED_MESSAGES_PER_FETCH_def QUEUED_MESSAGES_FETCH_TIMEOUT_def)
  have v2: "queued V q2 = queued V (nd_queue n)"
    using laws 1 2 unfolding queue_laws_def consumer_laws_def by (metis snd_conv)
  have parse: "\<forall>m \<in> set (take 256 ?q). parse_json (app_lib A) (snd m) \<noteq> None"
    using ok in_set_takeD [of _ 256 ?q] unfolding node_ok_def payloads_ok_def by blast
  let ?r = "\<lambda>p. relay_of_payload (the (parse_json (app_lib A) p))"
  have inb: "inbox (nd_live ?n') tx = inbox (nd_live n) tx @ map (\<lambda>m. Text (show_json (app_lib A) (?r (snd m)))) (take 256 ?q)"
    using catch_up_in_order [OF 1 2, of tx] alive
    by (simp add: parsable_all [OF parse] case_prod_beta comp_def)
  have que: "queued V (nd_queue ?n') (subject_of A u) = filter (\<lambda>m. fst m \<notin> fst ` set (take 256 ?q)) ?q"
    using catch_up_in_order [OF 1 2, of tx] alive
    by (simp add: parsable_all [OF parse] acks_queue [OF acks] v2 image_image case_prod_beta)
  have sent: "handed_over A owner u m ?n'" if x: "x \<in> set (take 256 ?q)" "carries A m (snd x)" for x
  proof -
    have "m = ?r (snd x)" using x(2) by (auto simp: carries_def)
    then have "Text (show_json (app_lib A) m) \<in> set (inbox (nd_live ?n') tx)"
      unfolding inb using x(1) by simp
    then show ?thesis unfolding handed_over_def using own by blast
  qed
  from due consider (gone) "handed_over A owner u m n"
    | (queued) xs x ys where "?q = xs @ x # ys" "length xs < i" "carries A m (snd x)"
    by (auto simp: due_def)
  then show ?thesis
  proof cases
    case gone
    then have "due A V owner 0 u m ?n'"
      using catch_up_due [OF laws inj ok own, of 0 u m] by (simp add: due_def)
    then show ?thesis by (simp add: due_def)
  next
    case queued
    let ?f = "filter (\<lambda>m. fst m \<notin> fst ` set (take 256 ?q))"
    show ?thesis
    proof (cases "fst x \<in> fst ` set (take 256 ?q)")
      case True
      then obtain y where y: "y \<in> set (take 256 ?q)" "fst y = fst x" by auto
      have "y = x"
        using ok y in_set_takeD [OF y(1)] queued(1) unfolding node_ok_def sequences_ok_def
        by (metis in_set_conv_decomp prod.collapse)
      then show ?thesis using sent [OF y(1)] queued(3) by (simp add: due_def)
    next
      case False
      then have long: "256 \<le> length xs"
        using queued(1) by (cases "256 \<le> length xs") (auto simp: take_Cons' image_iff)
      have "?f (take 256 xs) = []" using queued(1) long by (auto simp: filter_empty_conv)
      then have "length (?f xs) \<le> length (drop 256 xs)"
        using length_filter_le [of _ "drop 256 xs"] append_take_drop_id [of 256 xs]
        by (metis (lifting) filter_append self_append_conv2)
      then have "length (?f xs) < i - 256" using long queued(2) by simp
      moreover have "queued V (nd_queue ?n') (subject_of A u) = ?f xs @ x # ?f ys"
        using que queued(1) False by simp
      ultimately show ?thesis using queued(3) by (metis due_waiting)
    qed
  qed
qed

section \<open>Every message arrives\<close>

text \<open>How many catch-ups of \<open>u\<close> in a run of the API are served on a channel that receives.\<close>

fun catch_ups ::
  "('a, 'k::linorder, 'q, 'h, 's) site \<Rightarrow> 'q queue_view \<Rightarrow> (sender \<Rightarrow> uuid) \<Rightarrow> uuid \<Rightarrow> event list
     \<Rightarrow> ('a, 'q, 'h, 's) world \<Rightarrow> nat" where
  "catch_ups X V owner u [] w = 0"
| "catch_ups X V owner u (ev # evs) w =
     (case ev of
        CatchUp tx \<Rightarrow>
          if owner tx = u \<and> receiving (nd_live (w_node w)) tx \<and> catch_up_served (si_app X) V u (w_node w) then 1 else 0
      | _ \<Rightarrow> 0) + catch_ups X V owner u evs (serve X owner ev w)"

lemma run_progress:
  assumes laws: "queue_laws (app_js (si_app X)) (stream_of (si_app X)) V"
    and acks: "acks_remove (app_js (si_app X)) (stream_of (si_app X)) V" and codec: "codec_laws (site_lib X)"
  shows "node_ok (si_app X) V owner (w_node w) \<Longrightarrow> due (si_app X) V owner i u m (w_node w) \<Longrightarrow>
    due (si_app X) V owner (i - 256 * catch_ups X V owner u events w) u m (w_node (run_events X owner events w))"
proof (induction events arbitrary: w i)
  case (Cons ev events)
  let ?w = "serve X owner ev w"
  have ok: "node_ok (si_app X) V owner (w_node ?w)" using serve_safe [OF laws codec Cons.prems(1)] by blast
  have keep: "due (si_app X) V owner i u m (w_node ?w)"
    using serve_safe [OF laws codec Cons.prems(1)] Cons.prems(2) by blast
  have inj: "inj (show_uuid (site_lib X))" using codec by (simp add: codec_laws_def)
  show ?case
  proof (cases "\<exists>tx. ev = CatchUp tx \<and> owner tx = u \<and> receiving (nd_live (w_node w)) tx \<and> catch_up_served (si_app X) V u (w_node w)")
    case True
    then obtain tx where tx: "ev = CatchUp tx" "owner tx = u" "receiving (nd_live (w_node w)) tx"
        "catch_up_served (si_app X) V u (w_node w)" by blast
    have "due (si_app X) V owner (i - 256) u m (w_node ?w)"
      using catch_up_progress [OF laws acks inj Cons.prems(1) tx(2,3,4) Cons.prems(2)] tx(1,2) by (simp add: on_node_def)
    from Cons.IH [OF ok this] show ?thesis using tx by (simp add: diff_diff_left add_mult_distrib2)
  next
    case False
    then have "catch_ups X V owner u (ev # events) w = catch_ups X V owner u events ?w"
      by (auto split: event.splits)
    then show ?thesis using Cons.IH [OF ok keep] by simp
  qed
qed simp

text \<open>
  C2: Every acknowledged message arrives. However many messages wait for a user, once the user's
  connections have caught up often enough, 256 messages at a time, every one of them was handed to a
  channel of that user, whatever else the API does before, between and after: requests, frames of
  other clients, new messages, redeliveries, disconnects and commits, with any failures. Only
  catch-ups that JetStream serves and whose channel receives are counted.
\<close>

theorem api_delivers_everything:
  assumes "queue_laws (app_js (si_app X)) (stream_of (si_app X)) V"
    and "acks_remove (app_js (si_app X)) (stream_of (si_app X)) V" and "codec_laws (site_lib X)"
    and "node_ok (si_app X) V owner (w_node w)" and "kept (si_app X) V owner to message (w_node w)"
    and "length (queued V (nd_queue (w_node w)) (subject_of (si_app X) to)) \<le> 256 * catch_ups X V owner to events w"
  shows "handed_over (si_app X) owner to message (w_node (run_events X owner events w))"
proof -
  let ?l = "length (queued V (nd_queue (w_node w)) (subject_of (si_app X) to))"
  have "?l - 256 * catch_ups X V owner to events w = 0" using assms(6) by simp
  then have "due (si_app X) V owner 0 to message (w_node (run_events X owner events w))"
    using run_progress [OF assms(1-4), of ?l to message events] assms(5) [unfolded kept_due_length] by metis
  then show ?thesis by (simp add: due_def)
qed

lemma sample_acks_remove: "acks_remove sample_js st sample_view"
  by (simp add: acks_remove_def sample_js_def sample_view_def on_subject_drop without_def fun_eq_iff)

theorem api_delivers_everything_witness:
  "handed_over sample_app channel_owner (Uuid 1) ana_message
     (w_node (run_events sample_site channel_owner ana_returns (sample_world after_send)))"
proof -
  have s: "si_app sample_site = sample_app" "w_node (sample_world after_send) = after_send" "app_js sample_app = sample_js"
    by (simp_all add: sample_site_def sample_world_def sample_app_def)
  have k: "kept (si_app sample_site) sample_view channel_owner (Uuid 1) ana_message (w_node (sample_world after_send))"
    using after_send_waiting by (simp add: kept_def s)
  have "length (queued sample_view (nd_queue after_send) (subject_of sample_app (Uuid 1))) = 1"
    "catch_ups sample_site sample_view channel_owner (Uuid 1) ana_returns (sample_world after_send) = 1"
    by code_simp+
  then have le: "length (queued sample_view (nd_queue (w_node (sample_world after_send))) (subject_of (si_app sample_site) (Uuid 1)))
      \<le> 256 * catch_ups sample_site sample_view channel_owner (Uuid 1) ana_returns (sample_world after_send)"
    by (simp add: s)
  have "handed_over (si_app sample_site) channel_owner (Uuid 1) ana_message
     (w_node (run_events sample_site channel_owner ana_returns (sample_world after_send)))"
    by (rule api_delivers_everything [OF _ _ _ _ k le]) (simp_all add: s sample_laws [unfolded s] sample_acks_remove after_send_ok)
  then show ?thesis by (simp add: s)
qed

section \<open>Acknowledged before it is written\<close>

text \<open>
  The writes of a forward task that succeeded: the \<open>j\<close>-th attempt from \<open>i\<close> on did if \<open>ok\<close> says so.
\<close>

definition written :: "(nat \<Rightarrow> bool) \<Rightarrow> nat \<Rightarrow> wire list \<Rightarrow> wire list" where
  "written ok i ws = map snd (filter (\<lambda>(j, w). ok j) (zip [i..<i + length ws] ws))"


end
