(* ===== verification/Api_Privacy.thy ===== *)
theory Api_Privacy
  imports Api_Delivery
begin

text \<open>
  Message bodies stay out of everything but the relay: the decision record that content is never
  stored in Postgres (\<open>docs/decisions/0001\<close>), and push notifications that say nothing of it.
\<close>

section \<open>No row is written\<close>

lemma alone_read [simp]: "alone e \<Longrightarrow> snd (autocommit e i (query f) db) = db"
  by (simp add: alone_def autocommit_def Let_def split: link.splits)

lemma handle_frame_db: "alone e \<Longrightarrow> nd_db (snd (handle_client_frame A e now u tx s n)) = nd_db n"
  by (auto simp: handle_client_frame_def handle_send_def Let_def case_prod_beta split: option.splits)

lemma run_task_db: "alone e \<Longrightarrow> nd_db (run_task A e t n) = nd_db n"
  by (cases t) (simp_all add: run_task_def redeliver_if_now_connected_def notify_push_tokens_for_offline_message_def
      case_prod_beta Let_def split: option.splits)

section \<open>Two frames that differ in their body\<close>

text \<open>What a task shows to anybody but the recipient: whom it is for, and from whom.\<close>

definition task_shape :: "task \<Rightarrow> uuid \<times> uuid option" where
  "task_shape t = (case t of Redeliver to _ _ \<Rightarrow> (to, None) | Notify to from \<Rightarrow> (to, Some from))"

text \<open>The same frame but for the body, which is base64 in both.\<close>

definition same_but_body :: "lib \<Rightarrow> json \<Rightarrow> json \<Rightarrow> bool" where
  "same_but_body L v w \<longleftrightarrow> str_field v ''type'' = str_field w ''type'' \<and> str_field v ''to'' = str_field w ''to'' \<and>
     valid_body L v \<noteq> None \<and> valid_body L w \<noteq> None"

text \<open>JetStream takes or refuses a message without a look at it.\<close>

definition publish_blind :: "'q jetstream \<Rightarrow> bool" where
  "publish_blind js \<longleftrightarrow>
     (\<forall>subj p p' q. fst (js_publish js subj p q) = None \<longleftrightarrow> fst (js_publish js subj p' q) = None)"

definition looks_alike :: "sender set \<Rightarrow> ('q, 'h) node \<Rightarrow> ('q, 'h) node \<Rightarrow> bool" where
  "looks_alike C n n' \<longleftrightarrow> nd_db n = nd_db n' \<and> nd_push n = nd_push n' \<and>
     registry (nd_live n) = registry (nd_live n') \<and> receiving (nd_live n) = receiving (nd_live n') \<and>
     map task_shape (nd_tasks n) = map task_shape (nd_tasks n') \<and>
     (\<forall>c. c \<notin> C \<longrightarrow> inbox (nd_live n) c = inbox (nd_live n') c)"

lemma looks_alike_send:
  "looks_alike C n n' \<Longrightarrow> looks_alike C (snd (send_text A tx v n)) (snd (send_text A tx v n'))"
  by (auto simp: looks_alike_def send_text_inbox)

lemma looks_alike_send_to:
  "looks_alike C n n' \<Longrightarrow> rc \<in> C \<Longrightarrow> looks_alike C (snd (send_text A rc v n)) (snd (send_text A rc v' n'))"
  by (auto simp: looks_alike_def send_text_inbox)

lemma looks_alike_receiving: "looks_alike C n n' \<Longrightarrow> receiving (nd_live n) c = receiving (nd_live n') c"
  by (simp add: looks_alike_def)

lemma queue_offline_alike:
  assumes "looks_alike C n n'" and "nd_queue n = nd_queue n'" and "publish_blind (app_js A)"
  shows "fst (queue_for_offline_delivery A t from to b tx n) = fst (queue_for_offline_delivery A t from to b' tx n') \<and>
    looks_alike C (snd (queue_for_offline_delivery A t from to b tx n)) (snd (queue_for_offline_delivery A t from to b' tx n'))"
proof -
  let ?p = "\<lambda>b. show_json (app_lib A) (payload_json (json_uuid (app_lib A) from) (JStr b) (JStr (show_rfc3339 (app_lib A) t)))"
  obtain r q where 1: "js_publish (app_js A) (subject_of A to) (?p b) (nd_queue n') = (r, q)" by (rule prod.exhaust)
  obtain r' q' where 2: "js_publish (app_js A) (subject_of A to) (?p b') (nd_queue n') = (r', q')" by (rule prod.exhaust)
  have "r = None \<longleftrightarrow> r' = None" using assms(3) 1 2 unfolding publish_blind_def by (metis fst_conv)
  then show ?thesis
    using assms(1) by (cases r; cases r')
      (auto simp: queue_for_offline_delivery_def Let_def 1 2 assms(2) send_error_def looks_alike_def send_text_inbox
         task_shape_def)
qed


lemma sample_publish_blind: "publish_blind (app_js sample_app)"
  by (simp add: publish_blind_def sample_app_def sample_js_def)

definition send_frame_of :: "string \<Rightarrow> json" where
  "send_frame_of body = JObj [(''type'', JStr ''send''), (''to'', JStr ''1''), (''body_b64'', JStr body)]"


end
