(* ===== verification/Api_Answers.thy ===== *)
theory Api_Answers
  imports Api_System
begin

text \<open>
  What the answers of the API promise, whatever the route: which status codes there are, that every
  error names its code in JSON, and that a request answered with an error left the database alone.
\<close>

section \<open>Documented answers\<close>

text \<open>An error is a JSON object whose \<open>error\<close> field is a text that is not empty.\<close>

definition names_error :: "json \<Rightarrow> bool" where
  "names_error v \<longleftrightarrow> (\<exists>code. str_field v ''error'' = Some code \<and> code \<noteq> [])"

fun answer_ok :: "response \<Rightarrow> bool" where
  "answer_ok (Reply st v) \<longleftrightarrow>
     st = 200 \<or> st = 201 \<or> (st = 400 \<or> st = 401 \<or> st = 403 \<or> st = 404 \<or> st = 409 \<or> st = 429 \<or> st = 500) \<and> names_error v"
| "answer_ok (Bare st) \<longleftrightarrow> st = 204"
| "answer_ok (Redirect st _) \<longleftrightarrow> st = 302"
| "answer_ok (Plain st _) \<longleftrightarrow> st = 200"

lemma names_error_body [simp]: "names_error (error_body code) \<longleftrightarrow> code \<noteq> []"
  by (simp add: names_error_def error_body_def str_field_def)

lemma answer_fail [simp]:
  "answer_ok (fail_with st code) \<longleftrightarrow> st = 200 \<or> st = 201 \<or>
     (st = 400 \<or> st = 401 \<or> st = 403 \<or> st = 404 \<or> st = 409 \<or> st = 429 \<or> st = 500) \<and> code \<noteq> []"
  by (simp add: fail_with_def)

lemma answer_internal [simp]: "answer_ok internal_error"
  by (simp add: internal_error_def)

section \<open>Nothing is lost late\<close>

text \<open>
  Nobody else writes, and no answer of the database is lost after the statement took effect (then an
  error answer says nothing of what was stored).
\<close>

definition exact_env :: "dbenv \<Rightarrow> bool" where
  "exact_env e \<longleftrightarrow> alone e \<and> (\<forall>i. net e i \<noteq> LostAfter)"

lemma exact_alone [simp]: "exact_env e \<Longrightarrow> alone e"
  by (simp add: exact_env_def)

lemma exact_autocommit:
  "exact_env e \<Longrightarrow> autocommit e i st db =
     (if net e i = Up then (fst (st db), apply_writes (snd (st db)) db) else (Inl Unavailable, db))"
  by (simp add: exact_env_def alone_def autocommit_def Let_def split: link.splits)

lemma exact_commit:
  "exact_env e \<Longrightarrow> commit_tx e i t =
     (if net e i = Up then (Inr (), apply_writes (snd t) (fst t)) else (Inl Unavailable, fst t))"
  by (simp add: exact_env_def alone_def commit_tx_def Let_def split: link.splits)

text \<open>A contract of a handler on the database, next to \<open>sound_handler\<close>.\<close>

locale honest_handler = sound_handler run
  for run :: "dbenv \<Rightarrow> user_row \<Rightarrow> database \<Rightarrow> response \<times> database" +
  assumes documented: "answer_ok (fst (run e user db))"
    and undone: "exact_env e \<Longrightarrow> 400 \<le> status_of (fst (run e user db)) \<Longrightarrow> snd (run e user db) = db"
begin

lemma node_honest:
  "answer_ok (fst (on_db (run e user) st)) \<and>
   (exact_env e \<longrightarrow> 400 \<le> status_of (fst (on_db (run e user) st)) \<longrightarrow> snd (on_db (run e user) st) = st)"
proof -
  have "fst (on_db (run e user) st) = fst (run e user (nd_db (fst st)))"
    "snd (on_db (run e user) st) = ((fst st)\<lparr>nd_db := snd (run e user (nd_db (fst st)))\<rparr>, snd st)"
    by (simp_all add: on_db_def case_prod_beta)
  then show ?thesis using documented [of e user "nd_db (fst st)"] undone [of e user "nd_db (fst st)"] by simp
qed

end

lemma check_bundle_code: "check_bundle L p = Inl code \<Longrightarrow> code \<noteq> []"
  by (auto simp: check_bundle_def split: option.splits if_splits)

interpretation upload: honest_handler "\<lambda>e user. upload_keys e L user p" for L p
proof unfold_locales
  show "answer_ok (fst (upload_keys e L user p db))" for e user db
    using check_bundle_code by (auto simp: upload_keys_def case_prod_beta split: sum.splits)
  show "snd (upload_keys e L user p db) = db"
    if "exact_env e" "400 \<le> status_of (fst (upload_keys e L user p db))" for e user db
    using that
    by (auto simp: upload_keys_def exact_autocommit upsert_keys_def split: sum.splits option.splits if_splits)
qed

interpretation account: honest_handler delete_account
proof unfold_locales
  show "answer_ok (fst (delete_account e user db))" for e user db
    by (simp add: delete_account_def case_prod_beta split: sum.splits)
  show "snd (delete_account e user db) = db"
    if "exact_env e" "400 \<le> status_of (fst (delete_account e user db))" for e user db
    using that by (auto simp: delete_account_def exact_autocommit delete_user_statement_def split: if_splits)
qed

interpretation token: honest_handler "\<lambda>e user. register_push_token e L user t" for L t
proof unfold_locales
  show "answer_ok (fst (register_push_token e L user t db))" for e user db
    by (simp add: register_push_token_def Let_def case_prod_beta split: sum.splits option.splits)
  show "snd (register_push_token e L user t db) = db"
    if "exact_env e" "400 \<le> status_of (fst (register_push_token e L user t db))" for e user db
    using that
    by (auto simp: register_push_token_def Let_def exact_autocommit upsert_push_def split: option.splits if_splits)
qed

interpretation username: honest_handler "\<lambda>e user. change_username e L user name" for L name
proof unfold_locales
  show "answer_ok (fst (change_username e L user name db))" for e user db
    by (simp add: change_username_def Let_def case_prod_beta split: sum.splits option.splits)
  show "snd (change_username e L user name db) = db"
    if "exact_env e" "400 \<le> status_of (fst (change_username e L user name db))" for e user db
    using that
    by (auto simp: change_username_def Let_def exact_autocommit update_username_def split: option.splits if_splits)
qed

interpretation search: honest_handler "\<lambda>e user. search_users e L S user q" for L and S :: "'k::linorder search_db" and q
proof unfold_locales
  show "answer_ok (fst (search_users e L S user q db))" for e user db
    by (simp add: search_users_def Let_def case_prod_beta split: sum.splits)
  show "snd (search_users e L S user q db) = db"
    if "exact_env e" "400 \<le> status_of (fst (search_users e L S user q db))" for e user db
    using that by (auto simp: search_users_def Let_def exact_autocommit split: if_splits)
qed

section \<open>Contacts\<close>

lemma load_error_ok: "err = Forbidden code \<Longrightarrow> code \<noteq> [] \<Longrightarrow> answer_ok (load_error_response err)"
  "err = NotFound \<Longrightarrow> answer_ok (load_error_response err)" "err = Internal \<Longrightarrow> answer_ok (load_error_response err)"
  by simp_all

lemma load_recipient_ok:
  "load_pending_request_as_recipient e i rid caller t = (Inl err, t') \<Longrightarrow> answer_ok (load_error_response err)"
  by (auto simp: load_pending_request_as_recipient_def split: prod.splits sum.splits option.splits if_splits)

lemma load_requester_ok:
  "load_pending_request_as_requester e i rid caller t = (Inl err, t') \<Longrightarrow> answer_ok (load_error_response err)"
  by (auto simp: load_pending_request_as_requester_def split: prod.splits sum.splits option.splits if_splits)

lemma find_target_ok: "find_target e L p db = (Inl resp, db') \<Longrightarrow> answer_ok resp"
  by (auto simp: find_target_def Let_def split: option.splits prod.splits)

lemma incoming_exists_ok:
  "answer_ok (Reply 409 (JObj [(''error'', JStr ''incoming_request_exists''), (''request_id'', json_uuid L i)]))"
  by (simp add: names_error_def str_field_def)

lemma lists_ok:
  "answer_ok (fst (list_contacts e L user db))" "answer_ok (fst (list_contact_requests e L user db))"
  by (simp_all add: list_contacts_def list_contact_requests_def case_prod_beta split: sum.splits)

lemma add_ok: "answer_ok (fst (add_contact e L user p db))"
  by (simp add: add_contact_def Let_def case_prod_beta split: sum.splits option.splits)

lemma remove_ok: "answer_ok (fst (remove_contact e L user c l db))"
  by (simp add: remove_contact_def case_prod_beta split: sum.splits)

lemma create_ok: "answer_ok (fst (create_contact_request e L user p l db))"
proof -
  have i: "answer_ok (fst (insert_and_notify e L user t l d))" for t d
    by (simp add: insert_and_notify_def case_prod_beta split: sum.splits option.splits)
  show ?thesis
    using find_target_ok i incoming_exists_ok
    by (auto simp: create_contact_request_def simp del: answer_ok.simps
        split: prod.splits sum.splits option.splits bool.splits if_splits)
qed

lemma accept_ok: "answer_ok (fst (accept_contact_request e L user rid l db))"
  using load_recipient_ok
  by (auto simp: accept_contact_request_def split: prod.splits sum.splits if_splits)

lemma cancel_ok: "answer_ok (fst (cancel_contact_request e user rid db))"
  using load_requester_ok by (auto simp: cancel_contact_request_def split: prod.splits sum.splits if_splits)

lemma decline_ok: "answer_ok (fst (decline_contact_request e user rid db))"
  using load_recipient_ok by (auto simp: decline_contact_request_def split: prod.splits sum.splits if_splits)

lemma contacts_router_ok: "answer_ok (fst (contacts_router e L user c l db))"
  using lists_ok add_ok remove_ok create_ok accept_ok cancel_ok decline_ok
  by (cases c) (simp_all add: case_prod_beta)

lemma begin_fst: "alone e \<Longrightarrow> begin_tx e i db = (r, t) \<Longrightarrow> fst t = db"
  by (auto simp: alone_begin)

lemma in_tx_fst: "alone e \<Longrightarrow> in_tx e i st t = (r, t') \<Longrightarrow> fst t' = fst t"
  by (cases t) (auto simp: alone_in_tx split: if_splits)

lemma load_fst:
  assumes "alone e"
  shows "load_pending_request_as_recipient e i rid caller t = (r, t') \<Longrightarrow> fst t' = fst t"
    and "load_pending_request_as_requester e i rid caller t = (q, t') \<Longrightarrow> fst t' = fst t"
  by (auto simp: load_pending_request_as_recipient_def load_pending_request_as_requester_def
      dest: in_tx_fst [OF assms] split: prod.splits sum.splits option.splits if_splits)

lemma failed_commit: "exact_env e \<Longrightarrow> commit_tx e i t = (Inl err, db') \<Longrightarrow> db' = fst t"
  by (simp add: exact_commit split: if_splits)

lemma transactions_undone:
  assumes "exact_env e"
  shows "remove_contact e L user c l db = (resp, l', db') \<Longrightarrow> 400 \<le> status_of resp \<Longrightarrow> db' = db"
    and "accept_contact_request e L user rid l db = (resp, l', db') \<Longrightarrow> 400 \<le> status_of resp \<Longrightarrow> db' = db"
    and "cancel_contact_request e user rid db = (resp, db') \<Longrightarrow> 400 \<le> status_of resp \<Longrightarrow> db' = db"
    and "decline_contact_request e user rid db = (resp, db') \<Longrightarrow> 400 \<le> status_of resp \<Longrightarrow> db' = db"
  unfolding remove_contact_def accept_contact_request_def cancel_contact_request_def decline_contact_request_def
  by (auto split: prod.splits sum.splits if_splits dest!: failed_commit [OF assms]
      begin_fst [OF exact_alone [OF assms]] in_tx_fst [OF exact_alone [OF assms]] load_fst [OF exact_alone [OF assms]])

lemma statements_undone:
  assumes "exact_env e"
  shows "add_contact e L user p db = (resp, db') \<Longrightarrow> 400 \<le> status_of resp \<Longrightarrow> db' = db"
    and "create_contact_request e L user q l db = (resp, l', db') \<Longrightarrow> 400 \<le> status_of resp \<Longrightarrow> db' = db"
    and "list_contacts e L user db = (resp, db') \<Longrightarrow> db' = db"
    and "list_contact_requests e L user db = (resp, db') \<Longrightarrow> db' = db"
proof -
  note x = exact_autocommit [OF assms]
  show "add_contact e L user p db = (resp, db') \<Longrightarrow> 400 \<le> status_of resp \<Longrightarrow> db' = db"
    by (auto simp: add_contact_def x insert_contact_def Let_def split: option.splits if_splits)
  have f: "find_target e L q db = (r, d) \<Longrightarrow> d = db" for r d
    by (auto simp: find_target_def x Let_def split: option.splits if_splits)
  have i: "insert_and_notify e L user t l db = (resp, l', db') \<Longrightarrow> 400 \<le> status_of resp \<Longrightarrow> db' = db" for t
    by (auto simp: insert_and_notify_def x insert_request_def Let_def split: if_splits)
  show "create_contact_request e L user q l db = (resp, l', db') \<Longrightarrow> 400 \<le> status_of resp \<Longrightarrow> db' = db"
    unfolding create_contact_request_def
    by (auto simp: x dest!: f i split: prod.splits sum.splits option.splits bool.splits if_splits)
  show "list_contacts e L user db = (resp, db') \<Longrightarrow> db' = db" and "list_contact_requests e L user db = (resp, db') \<Longrightarrow> db' = db"
    by (auto simp: list_contacts_def list_contact_requests_def x split: if_splits)
qed

lemma contacts_undone:
  "exact_env e \<Longrightarrow> contacts_router e L user c l db = (resp, l', db') \<Longrightarrow> 400 \<le> status_of resp \<Longrightarrow> db' = db"
  by (cases c) (auto split: prod.splits dest: transactions_undone statements_undone)

section \<open>The other routes\<close>

lemma avatars_ok: "answer_ok (fst (avatars_router S valid e L store user c (db, s)))"
  by (cases c) (simp_all add: request_upload_url_def confirm_upload_def get_avatar_def bad_request_def not_found_def
      Let_def case_prod_beta split: sum.splits option.splits)

lemma avatars_undone:
  "exact_env e \<Longrightarrow> 400 \<le> status_of (fst (avatars_router S valid e L store user c (db, s))) \<Longrightarrow>
     fst (snd (avatars_router S valid e L store user c (db, s))) = db"
  by (cases c) (auto simp: confirm_upload_def get_avatar_def exact_autocommit update_image_def
      Let_def case_prod_beta split: sum.splits option.splits if_splits)

lemma peek_ok: "answer_ok (get_queued A u from q)"
proof -
  have "answer_ok (peek_loop A s fr n k q)" for s fr n k
    by (induction A s fr n k q rule: peek_loop.induct)
       (auto split: raw_answer.splits option.splits)
  then show ?thesis by (simp add: get_queued_def)
qed

lemma call_honest:
  "answer_ok (fst (call_handler X e c user st)) \<and>
   (exact_env e \<longrightarrow> 400 \<le> status_of (fst (call_handler X e c user st)) \<longrightarrow> fst (snd (call_handler X e c user st)) = fst st)"
proof (cases c)
  case (ContactsCall k)
  obtain r l d where k: "contacts_router e (site_lib X) user k (nd_live (fst st)) (nd_db (fst st)) = (r, l, d)"
    by (metis prod.exhaust)
  have "answer_ok r" using contacts_router_ok [of e "site_lib X" user k "nd_live (fst st)" "nd_db (fst st)"] k by simp
  moreover have "d = nd_db (fst st) \<and> l = nd_live (fst st)" if "exact_env e" "400 \<le> status_of r"
    using contacts_undone [OF that(1) k that(2)] contacts_frames_follow_commits [OF k that(2)] by simp
  ultimately show ?thesis using ContactsCall k by simp
next
  case (AvatarCall k)
  show ?thesis
    using avatars_ok [of "si_s3 X" "si_valid_header X" e "site_lib X" "si_avatars X" user k "nd_db (fst st)" "snd st"]
      avatars_undone [of e "si_s3 X" "si_valid_header X" "site_lib X" "si_avatars X" user k "nd_db (fst st)" "snd st"]
      AvatarCall by (simp add: case_prod_beta)
next
  case (PeekQueued from_id)
  then show ?thesis using peek_ok by simp
qed (simp_all add: upload.node_honest account.node_honest token.node_honest username.node_honest)



end
