(* ===== verification/Api_Schema.thy ===== *)
theory Api_Schema
  imports Api_Database Api_Library
begin

text \<open>
  The migrations (\<open>apps/api/migrations\<close>) as DDL statements that run on stored tables, and the schema
  that they amount to.
\<close>

section \<open>Tables\<close>

datatype sql_type = SqlUuid | SqlText | SqlBoolean | SqlTimestamptz | SqlBytea

datatype sql_value =
    VUuid uuid
  | VText string
  | VBool bool
  | VTime timestamp
  | VBytes string

fun has_type :: "sql_type \<Rightarrow> sql_value \<Rightarrow> bool" where
  "has_type SqlUuid (VUuid _) = True"
| "has_type SqlText (VText _) = True"
| "has_type SqlBoolean (VBool _) = True"
| "has_type SqlTimestamptz (VTime _) = True"
| "has_type SqlBytea (VBytes _) = True"
| "has_type _ _ = False"

datatype sql_default = GenRandomUuid | NowDefault | BoolDefault bool | TextDefault string

record column =
  col_name :: string
  col_type :: sql_type
  col_not_null :: bool
  col_default :: "sql_default option"

text \<open>
  A primary key is a unique column that is not null. Every reference of the migrations is to
  \<open>id\<close> of a table, \<open>ON DELETE CASCADE\<close>. \<open>UniqueWhere\<close> is the partial index.
\<close>

datatype table_constraint =
    Unique "string list"
  | UniqueWhere "string list" string string
  | References string string

record table =
  tab_columns :: "column list"
  tab_constraints :: "table_constraint list"

type_synonym schema = "(string \<times> table) list"

text \<open>A row is a map from columns; a column that is not in it is NULL.\<close>

type_synonym row = "string \<Rightarrow> sql_value option"
type_synonym stored = "string \<Rightarrow> row list"

section \<open>When rows fit a schema\<close>

definition row_ok :: "column list \<Rightarrow> row \<Rightarrow> bool" where
  "row_ok cs r \<longleftrightarrow>
     list_all (\<lambda>c. case r (col_name c) of None \<Rightarrow> \<not> col_not_null c | Some v \<Rightarrow> has_type (col_type c) v) cs"

text \<open>A stored row names only columns of its table.\<close>

definition names_columns :: "column list \<Rightarrow> row \<Rightarrow> bool" where
  "names_columns cs r \<longleftrightarrow> (\<forall>c. r c \<noteq> None \<longrightarrow> c \<in> set (map col_name cs))"

text \<open>The keys of a unique index: NULLs never collide.\<close>

definition keys :: "string list \<Rightarrow> row list \<Rightarrow> sql_value list list" where
  "keys cs rows = map (\<lambda>r. map (\<lambda>c. the (r c)) cs) (filter (\<lambda>r. list_all (\<lambda>c. r c \<noteq> None) cs) rows)"

fun holds :: "stored \<Rightarrow> row list \<Rightarrow> table_constraint \<Rightarrow> bool" where
  "holds data rows (Unique cs) = distinct (keys cs rows)"
| "holds data rows (UniqueWhere cs col val) = distinct (keys cs (filter (\<lambda>r. r col = Some (VText val)) rows))"
| "holds data rows (References col target) =
     list_all (\<lambda>r. case r col of None \<Rightarrow> True | Some v \<Rightarrow> list_ex (\<lambda>t. t ''id'' = Some v) (data target)) rows"

definition table_ok :: "stored \<Rightarrow> string \<times> table \<Rightarrow> bool" where
  "table_ok data t \<longleftrightarrow> 
     (\<forall>r \<in> set (data (fst t)). row_ok (tab_columns (snd t)) r \<and> names_columns (tab_columns (snd t)) r) \<and>
     list_all (holds data (data (fst t))) (tab_constraints (snd t))"

definition schema_ok :: "schema \<Rightarrow> stored \<Rightarrow> bool" where
  "schema_ok sch data \<longleftrightarrow> list_all (table_ok data) sch"

section \<open>Migrations\<close>

text \<open>
  \<open>SetToId t c\<close> is \<open>UPDATE t SET c = id::text WHERE c IS NULL\<close>. An index that is not unique constrains
  nothing.
\<close>

datatype ddl =
    CreateTable string "column list" "table_constraint list"
  | AddColumn string column
  | SetToId string string
  | SetNotNull string string
  | AddConstraint string table_constraint
  | CreateIndex string "string list"

fun literal :: "sql_default \<Rightarrow> sql_value option" where
  "literal (BoolDefault b) = Some (VBool b)"
| "literal (TextDefault s) = Some (VText s)"
| "literal _ = None"

definition update_table :: "string \<Rightarrow> (table \<Rightarrow> table) \<Rightarrow> schema \<Rightarrow> schema" where
  "update_table t f sch = map (\<lambda>(n, tab). (n, if n = t then f tab else tab)) sch"

definition column_names :: "table \<Rightarrow> string list" where
  "column_names tab = map col_name (tab_columns tab)"

text \<open>
  \<open>None\<close> is an error, and the file's transaction is rolled back. A column that is added gets its
  literal default in every row.
\<close>

fun run_ddl :: "lib \<Rightarrow> ddl \<Rightarrow> schema \<times> stored \<Rightarrow> (schema \<times> stored) option" where
  "run_ddl L (CreateTable t cs ks) (sch, data) =
     (if map_of sch t \<noteq> None then None
      else Some (sch @ [(t, \<lparr>tab_columns = cs, tab_constraints = ks\<rparr>)], data(t := [])))"
| "run_ddl L (AddColumn t c) (sch, data) =
     (case map_of sch t of
        None \<Rightarrow> None
      | Some tab \<Rightarrow>
          (let v = Option.bind (col_default c) literal
           in if col_name c \<in> set (column_names tab) \<or> (col_not_null c \<and> v = None \<and> data t \<noteq> []) then None
              else Some (update_table t (\<lambda>tab. tab\<lparr>tab_columns := tab_columns tab @ [c]\<rparr>) sch,
                         data(t := map (\<lambda>r. r(col_name c := v)) (data t)))))"
| "run_ddl L (SetToId t c) (sch, data) =
     (case map_of sch t of
        None \<Rightarrow> None
      | Some tab \<Rightarrow>
          if c \<notin> set (column_names tab) then None
          else Some (sch, data(t := map (\<lambda>r. case (r c, r ''id'') of
                 (None, Some (VUuid i)) \<Rightarrow> r(c := Some (VText (show_uuid L i))) | _ \<Rightarrow> r) (data t))))"
| "run_ddl L (SetNotNull t c) (sch, data) =
     (if map_of sch t = None \<or> \<not> list_all (\<lambda>r. r c \<noteq> None) (data t) then None
      else Some (update_table t (\<lambda>tab. tab\<lparr>tab_columns :=
             map (\<lambda>k. if col_name k = c then k\<lparr>col_not_null := True\<rparr> else k) (tab_columns tab)\<rparr>) sch, data))"
| "run_ddl L (AddConstraint t k) (sch, data) =
     (if map_of sch t = None \<or> \<not> holds data (data t) k then None
      else Some (update_table t (\<lambda>tab. tab\<lparr>tab_constraints := tab_constraints tab @ [k]\<rparr>) sch, data))"
| "run_ddl L (CreateIndex t cs) (sch, data) = (if map_of sch t = None then None else Some (sch, data))"

fun run_file :: "lib \<Rightarrow> ddl list \<Rightarrow> schema \<times> stored \<Rightarrow> (schema \<times> stored) option" where
  "run_file L [] st = Some st"
| "run_file L (d # ds) st = Option.bind (run_ddl L d st) (run_file L ds)"

text \<open>\<open>sqlx\<close> runs the files in the order of their numbers.\<close>

fun run_migrations :: "lib \<Rightarrow> ddl list list \<Rightarrow> schema \<times> stored \<Rightarrow> (schema \<times> stored) option" where
  "run_migrations L [] st = Some st"
| "run_migrations L (f # fs) st = Option.bind (run_file L f st) (run_migrations L fs)"

abbreviation no_tables :: "schema \<times> stored" where
  "no_tables \<equiv> ([], \<lambda>_. [])"

section \<open>The files\<close>

abbreviation required :: "string \<Rightarrow> sql_type \<Rightarrow> column" where
  "required n t \<equiv> \<lparr>col_name = n, col_type = t, col_not_null = True, col_default = None\<rparr>"

abbreviation optional :: "string \<Rightarrow> sql_type \<Rightarrow> column" where
  "optional n t \<equiv> \<lparr>col_name = n, col_type = t, col_not_null = False, col_default = None\<rparr>"

abbreviation defaulted :: "string \<Rightarrow> sql_type \<Rightarrow> sql_default \<Rightarrow> column" where
  "defaulted n t d \<equiv> \<lparr>col_name = n, col_type = t, col_not_null = True, col_default = Some d\<rparr>"

definition create_users_table :: "ddl list" where
  "create_users_table =
     [CreateTable ''users''
        [defaulted ''id'' SqlUuid GenRandomUuid, required ''email'' SqlText,
         defaulted ''email_verified'' SqlBoolean (BoolDefault False), optional ''name'' SqlText,
         optional ''image'' SqlText, optional ''password_hash'' SqlText,
         defaulted ''created_at'' SqlTimestamptz NowDefault, defaulted ''updated_at'' SqlTimestamptz NowDefault]
        [Unique [''id''], Unique [''email'']]]"

definition create_sessions_table :: "ddl list" where
  "create_sessions_table =
     [CreateTable ''sessions''
        [defaulted ''id'' SqlUuid GenRandomUuid, required ''user_id'' SqlUuid, required ''token'' SqlText,
         required ''expires_at'' SqlTimestamptz, optional ''ip_address'' SqlText, optional ''user_agent'' SqlText,
         defaulted ''created_at'' SqlTimestamptz NowDefault, defaulted ''updated_at'' SqlTimestamptz NowDefault]
        [Unique [''id''], References ''user_id'' ''users'', Unique [''token'']],
      CreateIndex ''sessions'' [''user_id'']]"

definition create_contacts_table :: "ddl list" where
  "create_contacts_table =
     [CreateTable ''contacts''
        [defaulted ''id'' SqlUuid GenRandomUuid, required ''owner_user_id'' SqlUuid,
         required ''contact_user_id'' SqlUuid, defaulted ''created_at'' SqlTimestamptz NowDefault]
        [Unique [''id''], References ''owner_user_id'' ''users'', References ''contact_user_id'' ''users'',
         Unique [''owner_user_id'', ''contact_user_id'']],
      CreateIndex ''contacts'' [''owner_user_id'']]"

definition reconcile_better_auth_schema :: "ddl list" where
  "reconcile_better_auth_schema =
     [AddColumn ''sessions'' (defaulted ''active'' SqlBoolean (BoolDefault True)),
      CreateTable ''accounts''
        [defaulted ''id'' SqlUuid GenRandomUuid, required ''account_id'' SqlText, required ''provider_id'' SqlText,
         required ''user_id'' SqlUuid, optional ''access_token'' SqlText, optional ''refresh_token'' SqlText,
         optional ''id_token'' SqlText, optional ''access_token_expires_at'' SqlTimestamptz,
         optional ''refresh_token_expires_at'' SqlTimestamptz, optional ''scope'' SqlText,
         optional ''password'' SqlText, defaulted ''created_at'' SqlTimestamptz NowDefault,
         defaulted ''updated_at'' SqlTimestamptz NowDefault]
        [Unique [''id''], References ''user_id'' ''users''],
      CreateIndex ''accounts'' [''user_id''],
      AddConstraint ''accounts'' (Unique [''provider_id'', ''account_id'']),
      CreateTable ''verifications''
        [defaulted ''id'' SqlUuid GenRandomUuid, required ''identifier'' SqlText, required ''value'' SqlText,
         required ''expires_at'' SqlTimestamptz, defaulted ''created_at'' SqlTimestamptz NowDefault,
         defaulted ''updated_at'' SqlTimestamptz NowDefault]
        [Unique [''id'']],
      CreateIndex ''verifications'' [''identifier'']]"

definition create_user_keys_table :: "ddl list" where
  "create_user_keys_table =
     [CreateTable ''user_keys''
        [required ''user_id'' SqlUuid, required ''x25519_public_key'' SqlBytea, required ''kyber_public_key'' SqlBytea,
         required ''dilithium_public_key'' SqlBytea, required ''prekey_signature'' SqlBytea,
         defaulted ''created_at'' SqlTimestamptz NowDefault, defaulted ''updated_at'' SqlTimestamptz NowDefault]
        [Unique [''user_id''], References ''user_id'' ''users'']]"

definition create_contact_requests_table :: "ddl list" where
  "create_contact_requests_table =
     [CreateTable ''contact_requests''
        [defaulted ''id'' SqlUuid GenRandomUuid, required ''requester_user_id'' SqlUuid,
         required ''recipient_user_id'' SqlUuid, defaulted ''status'' SqlText (TextDefault ''pending''),
         defaulted ''created_at'' SqlTimestamptz NowDefault, optional ''responded_at'' SqlTimestamptz]
        [Unique [''id''], References ''requester_user_id'' ''users'', References ''recipient_user_id'' ''users''],
      AddConstraint ''contact_requests''
        (UniqueWhere [''requester_user_id'', ''recipient_user_id''] ''status'' ''pending''),
      CreateIndex ''contact_requests'' [''recipient_user_id'']]"

definition create_push_tokens_table :: "ddl list" where
  "create_push_tokens_table =
     [CreateTable ''push_tokens''
        [defaulted ''id'' SqlUuid GenRandomUuid, required ''user_id'' SqlUuid, required ''token'' SqlText,
         defaulted ''created_at'' SqlTimestamptz NowDefault]
        [Unique [''id''], References ''user_id'' ''users'', Unique [''token'']],
      CreateIndex ''push_tokens'' [''user_id'']]"

definition add_username_to_users :: "ddl list" where
  "add_username_to_users =
     [AddColumn ''users'' (optional ''username'' SqlText),
      SetToId ''users'' ''username'',
      SetNotNull ''users'' ''username'',
      AddConstraint ''users'' (Unique [''username'']),
      AddColumn ''users'' (optional ''display_username'' SqlText)]"

definition migrations :: "ddl list list" where
  "migrations =
     [create_users_table, create_sessions_table, create_contacts_table, reconcile_better_auth_schema,
      create_user_keys_table, create_contact_requests_table, create_push_tokens_table, add_username_to_users]"

definition migrated_schema :: schema where
  "migrated_schema = fst (the (run_migrations sample_lib migrations no_tables))"

section \<open>Running them on an empty database\<close>

lemma run_ddl_empty:
  "run_ddl L d (sch, \<lambda>_. []) = map_option (\<lambda>st. (fst st, \<lambda>_. [])) (run_ddl M d (sch, \<lambda>_. []))"
  by (cases d) (auto simp: fun_upd_idem Let_def split: option.splits)

lemma run_file_empty:
  "run_file L ds (sch, \<lambda>_. []) = map_option (\<lambda>st. (fst st, \<lambda>_. [])) (run_file M ds (sch, \<lambda>_. []))"
proof (induction ds arbitrary: sch)
  case (Cons d ds)
  show ?case
  proof (cases "run_ddl M d (sch, \<lambda>_. [])")
    case None
    then show ?thesis using run_ddl_empty [of L d sch M] by simp
  next
    case (Some st)
    then have "st = (fst st, \<lambda>_. [])" using run_ddl_empty [of M d sch M] by (cases st) simp
    then show ?thesis using Some run_ddl_empty [of L d sch M] Cons.IH [of "fst st"] by (metis bind.bind_lunit option.simps(9) run_file.simps(2))
  qed
qed simp

lemma run_migrations_empty:
  "run_migrations L fs (sch, \<lambda>_. []) = map_option (\<lambda>st. (fst st, \<lambda>_. [])) (run_migrations M fs (sch, \<lambda>_. []))"
proof (induction fs arbitrary: sch)
  case (Cons f fs)
  show ?case
  proof (cases "run_file M f (sch, \<lambda>_. [])")
    case None
    then show ?thesis using run_file_empty [of L f sch M] by simp
  next
    case (Some st)
    then have "st = (fst st, \<lambda>_. [])" using run_file_empty [of M f sch M] by (cases st) simp
    then show ?thesis using Some run_file_empty [of L f sch M] Cons.IH [of "fst st"] by (metis bind.bind_lunit option.simps(9) run_migrations.simps(2))
  qed
qed simp

lemma migrations_run: "run_migrations L migrations no_tables = Some (migrated_schema, \<lambda>_. [])"
proof -
  have "run_migrations sample_lib migrations no_tables \<noteq> None" by code_simp
  then obtain st where "run_migrations sample_lib migrations no_tables = Some st" by blast
  then show ?thesis using run_migrations_empty [of L migrations "[]" sample_lib] by (simp add: migrated_schema_def)
qed

text \<open>What the tables end up as.\<close>

lemma migrated_schema_eq:
  "migrated_schema =
    [(''users'',
      \<lparr>tab_columns =
         [defaulted ''id'' SqlUuid GenRandomUuid, required ''email'' SqlText,
          defaulted ''email_verified'' SqlBoolean (BoolDefault False), optional ''name'' SqlText,
          optional ''image'' SqlText, optional ''password_hash'' SqlText,
          defaulted ''created_at'' SqlTimestamptz NowDefault, defaulted ''updated_at'' SqlTimestamptz NowDefault,
          required ''username'' SqlText, optional ''display_username'' SqlText],
       tab_constraints = [Unique [''id''], Unique [''email''], Unique [''username'']]\<rparr>),
     (''sessions'',
      \<lparr>tab_columns =
         [defaulted ''id'' SqlUuid GenRandomUuid, required ''user_id'' SqlUuid, required ''token'' SqlText,
          required ''expires_at'' SqlTimestamptz, optional ''ip_address'' SqlText, optional ''user_agent'' SqlText,
          defaulted ''created_at'' SqlTimestamptz NowDefault, defaulted ''updated_at'' SqlTimestamptz NowDefault,
          defaulted ''active'' SqlBoolean (BoolDefault True)],
       tab_constraints = [Unique [''id''], References ''user_id'' ''users'', Unique [''token'']]\<rparr>),
     (''contacts'',
      \<lparr>tab_columns =
         [defaulted ''id'' SqlUuid GenRandomUuid, required ''owner_user_id'' SqlUuid,
          required ''contact_user_id'' SqlUuid, defaulted ''created_at'' SqlTimestamptz NowDefault],
       tab_constraints =
         [Unique [''id''], References ''owner_user_id'' ''users'', References ''contact_user_id'' ''users'',
          Unique [''owner_user_id'', ''contact_user_id'']]\<rparr>),
     (''accounts'',
      \<lparr>tab_columns =
         [defaulted ''id'' SqlUuid GenRandomUuid, required ''account_id'' SqlText, required ''provider_id'' SqlText,
          required ''user_id'' SqlUuid, optional ''access_token'' SqlText, optional ''refresh_token'' SqlText,
          optional ''id_token'' SqlText, optional ''access_token_expires_at'' SqlTimestamptz,
          optional ''refresh_token_expires_at'' SqlTimestamptz, optional ''scope'' SqlText,
          optional ''password'' SqlText, defaulted ''created_at'' SqlTimestamptz NowDefault,
          defaulted ''updated_at'' SqlTimestamptz NowDefault],
       tab_constraints =
         [Unique [''id''], References ''user_id'' ''users'', Unique [''provider_id'', ''account_id'']]\<rparr>),
     (''verifications'',
      \<lparr>tab_columns =
         [defaulted ''id'' SqlUuid GenRandomUuid, required ''identifier'' SqlText, required ''value'' SqlText,
          required ''expires_at'' SqlTimestamptz, defaulted ''created_at'' SqlTimestamptz NowDefault,
          defaulted ''updated_at'' SqlTimestamptz NowDefault],
       tab_constraints = [Unique [''id'']]\<rparr>),
     (''user_keys'',
      \<lparr>tab_columns =
         [required ''user_id'' SqlUuid, required ''x25519_public_key'' SqlBytea,
          required ''kyber_public_key'' SqlBytea, required ''dilithium_public_key'' SqlBytea,
          required ''prekey_signature'' SqlBytea, defaulted ''created_at'' SqlTimestamptz NowDefault,
          defaulted ''updated_at'' SqlTimestamptz NowDefault],
       tab_constraints = [Unique [''user_id''], References ''user_id'' ''users'']\<rparr>),
     (''contact_requests'',
      \<lparr>tab_columns =
         [defaulted ''id'' SqlUuid GenRandomUuid, required ''requester_user_id'' SqlUuid,
          required ''recipient_user_id'' SqlUuid, defaulted ''status'' SqlText (TextDefault ''pending''),
          defaulted ''created_at'' SqlTimestamptz NowDefault, optional ''responded_at'' SqlTimestamptz],
       tab_constraints =
         [Unique [''id''], References ''requester_user_id'' ''users'', References ''recipient_user_id'' ''users'',
          UniqueWhere [''requester_user_id'', ''recipient_user_id''] ''status'' ''pending'']\<rparr>),
     (''push_tokens'',
      \<lparr>tab_columns =
         [defaulted ''id'' SqlUuid GenRandomUuid, required ''user_id'' SqlUuid, required ''token'' SqlText,
          defaulted ''created_at'' SqlTimestamptz NowDefault],
       tab_constraints = [Unique [''id''], References ''user_id'' ''users'', Unique [''token'']]\<rparr>)]"
  by code_simp

end
