(* ===== verification/Api_Schema_Correct.thy ===== *)
theory Api_Schema_Correct
  imports Api_Schema
begin

text \<open>
  What the migrations amount to: the constraints \<open>db_wf\<close> that the rest of the library keeps are exactly
  the ones they declare, a deleted user cascades the way they say, and the last one applies to every
  populated database.
\<close>

section \<open>The records of the library as stored rows\<close>

definition user_view :: "user_row \<Rightarrow> row" where
  "user_view u = (\<lambda>_. None)(''id'' \<mapsto> VUuid (u_id u), ''email'' \<mapsto> VText (u_email u),
     ''email_verified'' \<mapsto> VBool (u_email_verified u), ''name'' := map_option VText (u_name u),
     ''image'' := map_option VText (u_image u), ''username'' \<mapsto> VText (u_username u),
     ''display_username'' := map_option VText (u_display_username u),
     ''created_at'' \<mapsto> VTime (u_created_at u), ''updated_at'' \<mapsto> VTime (u_updated_at u))"

definition session_view :: "session_row \<Rightarrow> row" where
  "session_view s = (\<lambda>_. None)(''id'' \<mapsto> VUuid (s_id s), ''user_id'' \<mapsto> VUuid (s_user_id s),
     ''token'' \<mapsto> VText (s_token s), ''expires_at'' \<mapsto> VTime (s_expires_at s),
     ''ip_address'' := map_option VText (s_ip_address s), ''user_agent'' := map_option VText (s_user_agent s),
     ''active'' \<mapsto> VBool (s_active s), ''created_at'' \<mapsto> VTime (s_created_at s),
     ''updated_at'' \<mapsto> VTime (s_updated_at s))"

definition account_view :: "account_row \<Rightarrow> row" where
  "account_view a = (\<lambda>_. None)(''id'' \<mapsto> VUuid (a_id a), ''account_id'' \<mapsto> VText (a_account_id a),
     ''provider_id'' \<mapsto> VText (a_provider_id a), ''user_id'' \<mapsto> VUuid (a_user_id a),
     ''access_token'' := map_option VText (a_access_token a), ''refresh_token'' := map_option VText (a_refresh_token a),
     ''id_token'' := map_option VText (a_id_token a),
     ''access_token_expires_at'' := map_option VTime (a_access_token_expires_at a),
     ''refresh_token_expires_at'' := map_option VTime (a_refresh_token_expires_at a),
     ''scope'' := map_option VText (a_scope a), ''password'' := map_option VText (a_password a),
     ''created_at'' \<mapsto> VTime (a_created_at a), ''updated_at'' \<mapsto> VTime (a_updated_at a))"

definition contact_view :: "contact_row \<Rightarrow> row" where
  "contact_view c = (\<lambda>_. None)(''id'' \<mapsto> VUuid (c_id c), ''owner_user_id'' \<mapsto> VUuid (c_owner c),
     ''contact_user_id'' \<mapsto> VUuid (c_contact c), ''created_at'' \<mapsto> VTime (c_created_at c))"

definition request_view :: "request_row \<Rightarrow> row" where
  "request_view r = (\<lambda>_. None)(''id'' \<mapsto> VUuid (r_id r), ''requester_user_id'' \<mapsto> VUuid (r_requester r),
     ''recipient_user_id'' \<mapsto> VUuid (r_recipient r), ''status'' \<mapsto> VText (r_status r),
     ''created_at'' \<mapsto> VTime (r_created_at r), ''responded_at'' := map_option VTime (r_responded_at r))"

definition key_view :: "key_row \<Rightarrow> row" where
  "key_view k = (\<lambda>_. None)(''user_id'' \<mapsto> VUuid (k_user k), ''x25519_public_key'' \<mapsto> VBytes (k_x25519 k),
     ''kyber_public_key'' \<mapsto> VBytes (k_kyber k), ''dilithium_public_key'' \<mapsto> VBytes (k_dilithium k),
     ''prekey_signature'' \<mapsto> VBytes (k_signature k), ''created_at'' \<mapsto> VTime (k_created_at k),
     ''updated_at'' \<mapsto> VTime (k_updated_at k))"

definition push_view :: "push_row \<Rightarrow> row" where
  "push_view p = (\<lambda>_. None)(''id'' \<mapsto> VUuid (p_id p), ''user_id'' \<mapsto> VUuid (p_user p),
     ''token'' \<mapsto> VText (p_token p), ''created_at'' \<mapsto> VTime (p_created_at p))"

text \<open>No code of the repository writes the table \<open>verifications\<close>.\<close>

definition stored_of :: "database \<Rightarrow> stored" where
  "stored_of db = (\<lambda>_. [])(''users'' := map user_view (users db), ''sessions'' := map session_view (sessions db),
     ''accounts'' := map account_view (accounts db), ''contacts'' := map contact_view (contacts db),
     ''contact_requests'' := map request_view (requests db), ''user_keys'' := map key_view (user_keys db),
     ''push_tokens'' := map push_view (push_tokens db))"

lemmas views = user_view_def session_view_def account_view_def contact_view_def request_view_def key_view_def push_view_def

text \<open>What the handlers promise beyond the declared constraints.\<close>

definition app_invariants :: "database \<Rightarrow> bool" where
  "app_invariants db \<longleftrightarrow> list_all (\<lambda>c. c_owner c \<noteq> c_contact c) (contacts db) \<and>
     list_all (\<lambda>r. r_requester r \<noteq> r_recipient r \<and> (r_status r = ''pending'' \<or> r_status r = ''declined'')) (requests db) \<and>
     list_all (\<lambda>k. length (k_x25519 k) = 32 \<and> length (k_kyber k) = 1184 \<and> length (k_dilithium k) = 1952 \<and>
        length (k_signature k) = 3309) (user_keys db) \<and>
     list_all (\<lambda>p. p_token p \<noteq> []) (push_tokens db)"

section \<open>The constraints are the migrations'\<close>

lemma stored_simps [simp]:
  "stored_of db ''users'' = map user_view (users db)" "stored_of db ''sessions'' = map session_view (sessions db)"
  "stored_of db ''accounts'' = map account_view (accounts db)" "stored_of db ''contacts'' = map contact_view (contacts db)"
  "stored_of db ''contact_requests'' = map request_view (requests db)"
  "stored_of db ''user_keys'' = map key_view (user_keys db)"
  "stored_of db ''push_tokens'' = map push_view (push_tokens db)" "stored_of db ''verifications'' = []"
  by (simp_all add: stored_of_def)

lemma keys_view:
  assumes "\<And>x. list_all (\<lambda>c. view x c \<noteq> None) cs" and "\<And>x y. map (\<lambda>c. the (view x c)) cs = map (\<lambda>c. the (view y c)) cs \<longleftrightarrow> f x = f y"
  shows "distinct (keys cs (map view xs)) \<longleftrightarrow> distinct (map f xs)"
proof -
  have "filter (\<lambda>r. list_all (\<lambda>c. r c \<noteq> None) cs) (map view xs) = map view xs"
    using assms(1) by (simp add: filter_id_conv)
  then have "keys cs (map view xs) = map (\<lambda>x. map (\<lambda>c. the (view x c)) cs) xs"
    by (simp add: keys_def)
  moreover have "distinct (map (\<lambda>x. map (\<lambda>c. the (view x c)) cs) xs) \<longleftrightarrow> distinct (map f xs)"
    unfolding distinct_map inj_on_def assms(2) ..
  ultimately show ?thesis by simp
qed

lemma references_user:
  assumes "\<And>x. view x col = Some (VUuid (f x))"
  shows "holds (stored_of db) (map view xs) (References col ''users'') \<longleftrightarrow> (\<forall>x \<in> set xs. f x \<in> user_ids db)"
proof -
  have "list_ex (\<lambda>t. t ''id'' = Some (VUuid i)) (map user_view (users db)) \<longleftrightarrow> i \<in> user_ids db" for i
    by (auto simp: list_ex_iff user_view_def user_ids_def)
  then show ?thesis using assms by (simp add: list_all_iff)
qed

lemmas fits = table_ok_def migrated_schema_eq

lemma users_fit: "table_ok (stored_of db) (migrated_schema ! 0) \<longleftrightarrow> users_ok (users db)"
proof -
  have k: "distinct (keys [''id''] (map user_view us)) \<longleftrightarrow> distinct (map u_id us)"
    "distinct (keys [''email''] (map user_view us)) \<longleftrightarrow> distinct (map u_email us)"
    "distinct (keys [''username''] (map user_view us)) \<longleftrightarrow> distinct (map u_username us)" for us
    by (rule keys_view; simp add: user_view_def)+
  have t: "row_ok (tab_columns (snd (migrated_schema ! 0))) (user_view u)" for u
    by (simp add: migrated_schema_eq row_ok_def user_view_def split: option.splits)
  have n: "names_columns (tab_columns (snd (migrated_schema ! 0))) (user_view u)" for u
    by (simp add: migrated_schema_eq names_columns_def user_view_def)
  from t n show ?thesis by (simp add: fits users_ok_def k)
qed

lemma sessions_fit: "table_ok (stored_of db) (migrated_schema ! 1) \<longleftrightarrow> sessions_ok (user_ids db) (sessions db)"
proof -
  have k: "distinct (keys [''id''] (map session_view ss)) \<longleftrightarrow> distinct (map s_id ss)"
    "distinct (keys [''token''] (map session_view ss)) \<longleftrightarrow> distinct (map s_token ss)" for ss
    by (rule keys_view; simp add: session_view_def)+
  have r: "holds (stored_of db) (map session_view ss) (References ''user_id'' ''users'') \<longleftrightarrow>
      (\<forall>s \<in> set ss. s_user_id s \<in> user_ids db)" for ss
    by (rule references_user) (simp add: session_view_def)
  have t: "row_ok (tab_columns (snd (migrated_schema ! 1))) (session_view s)" for s
    by (simp add: migrated_schema_eq row_ok_def session_view_def split: option.splits)
  have n: "names_columns (tab_columns (snd (migrated_schema ! 1))) (session_view s)" for s
    by (simp add: migrated_schema_eq names_columns_def session_view_def)
  from t n show ?thesis
    by (simp add: fits sessions_ok_def k r del: holds.simps(3)) blast
qed

lemma contacts_fit:
  "table_ok (stored_of db) (migrated_schema ! 2) \<longleftrightarrow>
     distinct (map c_id (contacts db)) \<and> distinct (map contact_pair (contacts db)) \<and>
     (\<forall>c \<in> set (contacts db). c_owner c \<in> user_ids db \<and> c_contact c \<in> user_ids db)"
proof -
  have k: "distinct (keys [''id''] (map contact_view cs)) \<longleftrightarrow> distinct (map c_id cs)"
    "distinct (keys [''owner_user_id'', ''contact_user_id''] (map contact_view cs)) \<longleftrightarrow> distinct (map contact_pair cs)" for cs
    by (rule keys_view; simp add: contact_view_def contact_pair_def)+
  have r: "holds (stored_of db) (map contact_view cs) (References ''owner_user_id'' ''users'') \<longleftrightarrow>
      (\<forall>c \<in> set cs. c_owner c \<in> user_ids db)"
    "holds (stored_of db) (map contact_view cs) (References ''contact_user_id'' ''users'') \<longleftrightarrow>
      (\<forall>c \<in> set cs. c_contact c \<in> user_ids db)" for cs
    by (rule references_user, simp add: contact_view_def)+
  have t: "row_ok (tab_columns (snd (migrated_schema ! 2))) (contact_view c)" for c
    by (simp add: migrated_schema_eq row_ok_def contact_view_def)
  have n: "names_columns (tab_columns (snd (migrated_schema ! 2))) (contact_view c)" for c
    by (simp add: migrated_schema_eq names_columns_def contact_view_def)
  from t n show ?thesis
    by (simp add: fits k r del: holds.simps(3)) blast
qed

lemma accounts_fit: "table_ok (stored_of db) (migrated_schema ! 3) \<longleftrightarrow> accounts_ok (user_ids db) (accounts db)"
proof -
  have k: "distinct (keys [''id''] (map account_view acs)) \<longleftrightarrow> distinct (map a_id acs)"
    "distinct (keys [''provider_id'', ''account_id''] (map account_view acs)) \<longleftrightarrow>
       distinct (map (\<lambda>a. (a_provider_id a, a_account_id a)) acs)" for acs
    by (rule keys_view; simp add: account_view_def)+
  have r: "holds (stored_of db) (map account_view acs) (References ''user_id'' ''users'') \<longleftrightarrow>
      (\<forall>a \<in> set acs. a_user_id a \<in> user_ids db)" for acs
    by (rule references_user) (simp add: account_view_def)
  have t: "row_ok (tab_columns (snd (migrated_schema ! 3))) (account_view a)" for a
    by (simp add: migrated_schema_eq row_ok_def account_view_def split: option.splits)
  have n: "names_columns (tab_columns (snd (migrated_schema ! 3))) (account_view a)" for a
    by (simp add: migrated_schema_eq names_columns_def account_view_def)
  from t n show ?thesis
    by (simp add: fits accounts_ok_def k r del: holds.simps(3)) blast
qed

lemma verifications_fit: "table_ok (stored_of db) (migrated_schema ! 4)"
  by (simp add: fits keys_def)

lemma user_keys_fit:
  "table_ok (stored_of db) (migrated_schema ! 5) \<longleftrightarrow>
     distinct (map k_user (user_keys db)) \<and> (\<forall>k \<in> set (user_keys db). k_user k \<in> user_ids db)"
proof -
  have k: "distinct (keys [''user_id''] (map key_view ks)) \<longleftrightarrow> distinct (map k_user ks)" for ks
    by (rule keys_view; simp add: key_view_def)
  have r: "holds (stored_of db) (map key_view ks) (References ''user_id'' ''users'') \<longleftrightarrow>
      (\<forall>k \<in> set ks. k_user k \<in> user_ids db)" for ks
    by (rule references_user) (simp add: key_view_def)
  have t: "row_ok (tab_columns (snd (migrated_schema ! 5))) (key_view k)" for k
    by (simp add: migrated_schema_eq row_ok_def key_view_def)
  have n: "names_columns (tab_columns (snd (migrated_schema ! 5))) (key_view k)" for k
    by (simp add: migrated_schema_eq names_columns_def key_view_def)
  from t n show ?thesis
    by (simp add: fits k r del: holds.simps(3))
qed

lemma requests_fit:
  "table_ok (stored_of db) (migrated_schema ! 6) \<longleftrightarrow>
     distinct (map r_id (requests db)) \<and> distinct (map request_pair (filter pending (requests db))) \<and>
     (\<forall>r \<in> set (requests db). r_requester r \<in> user_ids db \<and> r_recipient r \<in> user_ids db)"
proof -
  have k: "distinct (keys [''id''] (map request_view rs)) \<longleftrightarrow> distinct (map r_id rs)"
    "distinct (keys [''requester_user_id'', ''recipient_user_id''] (map request_view rs)) \<longleftrightarrow>
       distinct (map request_pair rs)" for rs
    by (rule keys_view; simp add: request_view_def request_pair_def)+
  have f: "filter (\<lambda>r. r ''status'' = Some (VText ''pending'')) (map request_view rs) =
      map request_view (filter pending rs)" for rs
    by (induction rs) (simp_all add: request_view_def pending_def)
  have r: "holds (stored_of db) (map request_view rs) (References ''requester_user_id'' ''users'') \<longleftrightarrow>
      (\<forall>r \<in> set rs. r_requester r \<in> user_ids db)"
    "holds (stored_of db) (map request_view rs) (References ''recipient_user_id'' ''users'') \<longleftrightarrow>
      (\<forall>r \<in> set rs. r_recipient r \<in> user_ids db)" for rs
    by (rule references_user, simp add: request_view_def)+
  have t: "row_ok (tab_columns (snd (migrated_schema ! 6))) (request_view r)" for r
    by (simp add: migrated_schema_eq row_ok_def request_view_def split: option.splits)
  have n: "names_columns (tab_columns (snd (migrated_schema ! 6))) (request_view r)" for r
    by (simp add: migrated_schema_eq names_columns_def request_view_def)
  from t n show ?thesis
    by (simp add: fits k f r del: holds.simps(3)) blast
qed

lemma push_tokens_fit:
  "table_ok (stored_of db) (migrated_schema ! 7) \<longleftrightarrow>
     distinct (map p_id (push_tokens db)) \<and> distinct (map p_token (push_tokens db)) \<and>
     (\<forall>p \<in> set (push_tokens db). p_user p \<in> user_ids db)"
proof -
  have k: "distinct (keys [''id''] (map push_view ps)) \<longleftrightarrow> distinct (map p_id ps)"
    "distinct (keys [''token''] (map push_view ps)) \<longleftrightarrow> distinct (map p_token ps)" for ps
    by (rule keys_view; simp add: push_view_def)+
  have r: "holds (stored_of db) (map push_view ps) (References ''user_id'' ''users'') \<longleftrightarrow>
      (\<forall>p \<in> set ps. p_user p \<in> user_ids db)" for ps
    by (rule references_user) (simp add: push_view_def)
  have t: "row_ok (tab_columns (snd (migrated_schema ! 7))) (push_view p)" for p
    by (simp add: migrated_schema_eq row_ok_def push_view_def)
  have n: "names_columns (tab_columns (snd (migrated_schema ! 7))) (push_view p)" for p
    by (simp add: migrated_schema_eq names_columns_def push_view_def)
  from t n show ?thesis
    by (simp add: fits k r del: holds.simps(3)) blast
qed

lemma schema_ok_tables:
  "schema_ok migrated_schema data \<longleftrightarrow>
     table_ok data (migrated_schema ! 0) \<and> table_ok data (migrated_schema ! 1) \<and> table_ok data (migrated_schema ! 2) \<and>
     table_ok data (migrated_schema ! 3) \<and> table_ok data (migrated_schema ! 4) \<and> table_ok data (migrated_schema ! 5) \<and>
     table_ok data (migrated_schema ! 6) \<and> table_ok data (migrated_schema ! 7)"
proof -
  have l: "length migrated_schema = 8" by (simp add: migrated_schema_eq)
  show ?thesis
    unfolding schema_ok_def list_all_length l
    by (simp add: All_less_Suc eval_nat_numeral conj_ac)
qed


section \<open>Deleting a user cascades\<close>

text \<open>The columns of a table that reference users.\<close>

definition referencing :: "schema \<Rightarrow> string \<Rightarrow> string list" where
  "referencing sch t =
     (case map_of sch t of
        None \<Rightarrow> []
      | Some tab \<Rightarrow> List.map_filter (\<lambda>k. case k of
            References col target \<Rightarrow> if target = ''users'' then Some col else None
          | _ \<Rightarrow> None) (tab_constraints tab))"

text \<open>\<open>DELETE FROM users WHERE id = $1\<close> under the declared references.\<close>

definition cascade_delete :: "schema \<Rightarrow> uuid \<Rightarrow> stored \<Rightarrow> stored" where
  "cascade_delete sch i data =
     (\<lambda>t. filter (\<lambda>r. (t = ''users'' \<longrightarrow> r ''id'' \<noteq> Some (VUuid i)) \<and>
             list_all (\<lambda>col. r col \<noteq> Some (VUuid i)) (referencing sch t)) (data t))"

lemma referencing_migrated:
  "referencing migrated_schema ''users'' = []" "referencing migrated_schema ''sessions'' = [''user_id'']"
  "referencing migrated_schema ''contacts'' = [''owner_user_id'', ''contact_user_id'']"
  "referencing migrated_schema ''accounts'' = [''user_id'']"
  "referencing migrated_schema ''user_keys'' = [''user_id'']"
  "referencing migrated_schema ''contact_requests'' = [''requester_user_id'', ''recipient_user_id'']"
  "referencing migrated_schema ''push_tokens'' = [''user_id'']"
  by code_simp+

lemma filter_view:
  assumes "\<And>x. P (view x) = Q x"
  shows "filter P (map view xs) = map view (filter Q xs)"
  using assms by (induction xs) auto

lemma stored_of_other:
  "t \<notin> {''users'', ''sessions'', ''contacts'', ''accounts'', ''user_keys'', ''contact_requests'', ''push_tokens''} \<Longrightarrow>
     stored_of db t = []"
  by (simp add: stored_of_def)

text \<open>
  Deleting a user removes exactly the rows that the migrations' foreign keys say: what the account
  handler's statement leaves in the library's tables is what \<open>ON DELETE CASCADE\<close> leaves of the stored
  ones, table by table.
\<close>

theorem cascade_is_the_migrations:
  "stored_of (delete_user uid db) = cascade_delete migrated_schema uid (stored_of db)"
proof
  fix t
  have f: "filter (\<lambda>r. r ''id'' \<noteq> Some (VUuid uid)) (map user_view us) = map user_view (filter (\<lambda>u. u_id u \<noteq> uid) us)"
    "filter (\<lambda>r. r ''user_id'' \<noteq> Some (VUuid uid)) (map session_view ss) = map session_view (filter (\<lambda>s. s_user_id s \<noteq> uid) ss)"
    "filter (\<lambda>r. r ''user_id'' \<noteq> Some (VUuid uid)) (map account_view acs) = map account_view (filter (\<lambda>a. a_user_id a \<noteq> uid) acs)"
    "filter (\<lambda>r. r ''owner_user_id'' \<noteq> Some (VUuid uid) \<and> r ''contact_user_id'' \<noteq> Some (VUuid uid)) (map contact_view cs) =
       map contact_view (filter (\<lambda>c. c_owner c \<noteq> uid \<and> c_contact c \<noteq> uid) cs)"
    "filter (\<lambda>r. r ''requester_user_id'' \<noteq> Some (VUuid uid) \<and> r ''recipient_user_id'' \<noteq> Some (VUuid uid)) (map request_view rs) =
       map request_view (filter (\<lambda>r. r_requester r \<noteq> uid \<and> r_recipient r \<noteq> uid) rs)"
    "filter (\<lambda>r. r ''user_id'' \<noteq> Some (VUuid uid)) (map key_view ks) = map key_view (filter (\<lambda>k. k_user k \<noteq> uid) ks)"
    "filter (\<lambda>r. r ''user_id'' \<noteq> Some (VUuid uid)) (map push_view ps) = map push_view (filter (\<lambda>p. p_user p \<noteq> uid) ps)"
    for us ss acs cs rs ks ps
    by (rule filter_view; simp add: views)+
  let ?tables = "{''users'', ''sessions'', ''contacts'', ''accounts'', ''user_keys'', ''contact_requests'', ''push_tokens''}"
  show "stored_of (delete_user uid db) t = cascade_delete migrated_schema uid (stored_of db) t"
  proof (cases "t \<in> ?tables")
    case True
    then show ?thesis
      by (elim insertE emptyE) (simp_all add: cascade_delete_def referencing_migrated delete_user_def f)
  next
    case False
    show ?thesis unfolding cascade_delete_def stored_of_other [OF False] by simp
  qed
qed
section \<open>The username migration\<close>

definition users_before :: table where
  "users_before =
     \<lparr>tab_columns =
         [defaulted ''id'' SqlUuid GenRandomUuid, required ''email'' SqlText,
          defaulted ''email_verified'' SqlBoolean (BoolDefault False), optional ''name'' SqlText,
          optional ''image'' SqlText, optional ''password_hash'' SqlText,
          defaulted ''created_at'' SqlTimestamptz NowDefault, defaulted ''updated_at'' SqlTimestamptz NowDefault],
       tab_constraints = [Unique [''id''], Unique [''email'']]\<rparr>"

lemma before_username: "run_migrations L (take 7 migrations) no_tables = Some ((''users'', users_before) # tl migrated_schema, \<lambda>_. [])"
proof -
  have "map_option fst (run_migrations sample_lib (take 7 migrations) no_tables) =
      Some ((''users'', users_before) # tl migrated_schema)" by code_simp
  then show ?thesis using run_migrations_empty [of L "take 7 migrations" "[]" sample_lib]
    by (auto simp: option.map_comp comp_def)
qed

lemma map_of_update: "map_of (update_table t f sch) n = (if n = t then map_option f (map_of sch n) else map_of sch n)"
  by (induction sch) (auto simp: update_table_def)

lemma names_columns_upd:
  "names_columns cs r \<Longrightarrow> set (map col_name cs) \<subseteq> set (map col_name cs') \<Longrightarrow> c \<in> set (map col_name cs') \<Longrightarrow>
     names_columns cs' (r(c := v))"
  unfolding names_columns_def fun_upd_apply by (metis subsetD)

lemma table_ok_other:
  assumes "\<And>n. n \<noteq> ''users'' \<Longrightarrow> data' n = data n" and "map (\<lambda>r. r ''id'') (data' ''users'') = map (\<lambda>r. r ''id'') (data ''users'')"
    and "fst t \<noteq> ''users''"
  shows "table_ok data' t = table_ok data t"
proof -
  have ex: "list_ex (\<lambda>r. r ''id'' = Some v) (data' n) = list_ex (\<lambda>r. r ''id'' = Some v) (data n)" for n v
  proof (cases "n = ''users''")
    case True
    have in_ids: "list_ex (\<lambda>r. r ''id'' = Some v) rs = (Some v \<in> set (map (\<lambda>r. r ''id'') rs))" for rs :: "row list"
      by (induction rs) auto
    show ?thesis unfolding True in_ids assms(2) ..
  qed (use assms(1) in simp)
  have "holds data' rows = holds data rows" for rows
  proof
    fix k show "holds data' rows k = holds data rows k"
  proof (cases k)
    case (References col target)
    show ?thesis unfolding References holds.simps ex ..
  qed simp_all
  qed
  then show ?thesis using assms(1,3) by (simp add: table_ok_def)
qed

text \<open>A row of the table as it was before, and with the username that the migration gives it.\<close>

definition id_of :: "row \<Rightarrow> uuid" where
  "id_of r = (case r ''id'' of Some (VUuid i) \<Rightarrow> i | _ \<Rightarrow> Uuid 0)"

definition with_username :: "lib \<Rightarrow> row \<Rightarrow> row" where
  "with_username L r = r(''username'' \<mapsto> VText (show_uuid L (id_of r)))"

lemma rows_before:
  assumes "table_ok data (''users'', users_before)" and "r \<in> set (data ''users'')"
  shows "r ''id'' = Some (VUuid (id_of r))" and "r ''username'' = None" and "r ''display_username'' = None"
proof -
  have "row_ok (tab_columns users_before) r" and n: "names_columns (tab_columns users_before) r"
    using assms by (simp_all add: table_ok_def)
  then show "r ''id'' = Some (VUuid (id_of r))"
    by (auto simp: row_ok_def users_before_def id_of_def split: option.splits elim: has_type.elims)
  have "c \<notin> set (map col_name (tab_columns users_before)) \<Longrightarrow> r c = None" for c
    using n unfolding names_columns_def by blast
  then show "r ''username'' = None" and "r ''display_username'' = None" by (simp_all add: users_before_def)
qed

lemma usernames_unique:
  assumes "table_ok data (''users'', users_before)" and "inj (show_uuid L)"
  shows "distinct (keys [''username''] (map (with_username L) (data ''users'')))"
proof -
  let ?us = "data ''users''"
  have "filter (\<lambda>r. list_all (\<lambda>c. r c \<noteq> None) [''id'']) ?us = ?us"
    by (rule filter_True) (auto dest: rows_before(1) [OF assms(1)])
  then have "keys [''id''] ?us = map (\<lambda>r. [VUuid (id_of r)]) ?us"
    unfolding keys_def by (auto dest: rows_before(1) [OF assms(1)])
  then have "distinct (map (\<lambda>r. [VUuid (id_of r)]) ?us)"
    using assms(1) by (simp add: table_ok_def users_before_def)
  then have "distinct (map (\<lambda>r. [VText (show_uuid L (id_of r))]) ?us)"
    using assms(2) by (auto simp: distinct_map inj_on_def)
  moreover have "keys [''username''] (map (with_username L) ?us) = map (\<lambda>r. [VText (show_uuid L (id_of r))]) ?us"
    by (simp add: keys_def filter_map comp_def with_username_def)
  ultimately show ?thesis by simp
qed

lemma users_migrated:
  assumes "table_ok data (''users'', users_before)" and "inj (show_uuid L)"
  shows "table_ok (data(''users'' := map (with_username L) (data ''users''))) (hd migrated_schema)"
proof -
  have "row_ok (tab_columns (snd (hd migrated_schema))) (with_username L r) \<and>
      names_columns (tab_columns (snd (hd migrated_schema))) (with_username L r)" if "r \<in> set (data ''users'')" for r
  proof
    have b: "row_ok (tab_columns users_before) r" "names_columns (tab_columns users_before) r"
      using assms(1) that by (simp_all add: table_ok_def)
    show "row_ok (tab_columns (snd (hd migrated_schema))) (with_username L r)"
      using b(1) rows_before(3) [OF assms(1) that]
      by (simp add: migrated_schema_eq users_before_def row_ok_def with_username_def)
    show "names_columns (tab_columns (snd (hd migrated_schema))) (with_username L r)"
      unfolding with_username_def by (rule names_columns_upd [OF b(2)]) (simp_all add: migrated_schema_eq users_before_def)
  qed
  moreover have "keys [c] (map (with_username L) (data ''users'')) = keys [c] (data ''users'')" if "c \<noteq> ''username''" for c
    using that by (simp add: keys_def filter_map comp_def with_username_def)
  ultimately show ?thesis
    using usernames_unique [OF assms] assms(1) by (simp add: table_ok_def migrated_schema_eq users_before_def)
qed

text \<open>Its statements, one by one.\<close>

lemma username_migration_runs:
  assumes tab: "table_ok data (''users'', users_before)" and inj: "inj (show_uuid L)"
  shows "run_file L add_username_to_users ((''users'', users_before) # tl migrated_schema, data) =
    Some (migrated_schema, data(''users'' := map (with_username L) (data ''users'')))"
proof -
  define sch where "sch = (''users'', users_before) # tl migrated_schema"
  let ?us = "data ''users''"
  let ?data = "data(''users'' := map (with_username L) ?us)"
  let ?s1 = "update_table ''users'' (\<lambda>tab. tab\<lparr>tab_columns := tab_columns tab @ [optional ''username'' SqlText]\<rparr>) sch"
  let ?s2 = "update_table ''users'' (\<lambda>tab. tab\<lparr>tab_columns :=
             map (\<lambda>k. if col_name k = ''username'' then k\<lparr>col_not_null := True\<rparr> else k) (tab_columns tab)\<rparr>) ?s1"
  let ?s3 = "update_table ''users'' (\<lambda>tab. tab\<lparr>tab_constraints := tab_constraints tab @ [Unique [''username'']]\<rparr>) ?s2"
  let ?s4 = "update_table ''users'' (\<lambda>tab. tab\<lparr>tab_columns := tab_columns tab @ [optional ''display_username'' SqlText]\<rparr>) ?s3"
  have final: "?s4 = migrated_schema" unfolding sch_def by code_simp
  have "map_of sch ''users'' = Some users_before" by (simp add: sch_def)
  note known = this map_of_update column_names_def users_before_def
  note before = rows_before [OF tab]
  have add: "map (\<lambda>r. r(''username'' := None)) ?us = ?us"
    by (rule map_idI) (simp add: fun_upd_idem_iff before(2))
  have add': "map (\<lambda>r. r(''display_username'' := None)) (map (with_username L) ?us) = map (with_username L) ?us"
    by (rule map_idI) (auto simp: fun_upd_idem_iff with_username_def dest: before(3))
  have set: "map (\<lambda>r. case (r ''username'', r ''id'') of (None, Some (VUuid i)) \<Rightarrow> r(''username'' := Some (VText (show_uuid L i))) | _ \<Rightarrow> r) ?us =
      map (with_username L) ?us"
  proof (rule map_cong [OF refl])
    fix r assume "r \<in> set ?us"
    from before(1,2) [OF this]
    show "(case (r ''username'', r ''id'') of (None, Some (VUuid i)) \<Rightarrow> r(''username'' := Some (VText (show_uuid L i))) | _ \<Rightarrow> r) =
        with_username L r"
      by (simp add: with_username_def)
  qed
  have dat: "?data(''users'' := map (\<lambda>r. r(''display_username'' := None)) (?data ''users'')) = ?data"
    by (simp only: fun_upd_same fun_upd_upd add')
  have 1: "run_ddl L (AddColumn ''users'' (optional ''username'' SqlText)) (sch, data) = Some (?s1, data)"
    by (simp add: known add)
  have 2: "run_ddl L (SetToId ''users'' ''username'') (?s1, data) = Some (?s1, ?data)"
    unfolding run_ddl.simps set by (simp add: known)
  have 3: "run_ddl L (SetNotNull ''users'' ''username'') (?s1, ?data) = Some (?s2, ?data)"
    by (simp add: known with_username_def list_all_iff)
  have 4: "run_ddl L (AddConstraint ''users'' (Unique [''username''])) (?s2, ?data) = Some (?s3, ?data)"
    using usernames_unique [OF tab inj] by (simp add: known)
  have 5: "run_ddl L (AddColumn ''users'' (optional ''display_username'' SqlText)) (?s3, ?data) = Some (?s4, ?data)"
    using dat by (simp add: known del: fun_upd_apply)
  show ?thesis
    unfolding add_username_to_users_def sch_def [symmetric] run_file.simps 1 2 3 4 5 bind.simps final by simp
qed

text \<open>
  The last migration applies to every populated database. On any rows that fit the schema before
  it, however many, each of its statements succeeds: every user gets the text of their id as username,
  which is never missing and never taken twice, nothing else changes, and the result fits the final schema.
\<close>

theorem username_migration_applies:
  assumes "run_migrations L (take 7 migrations) no_tables = Some (sch, d0)" and "schema_ok sch data"
    and "inj (show_uuid L)"
  shows "\<exists>data'. run_file L add_username_to_users (sch, data) = Some (migrated_schema, data') \<and>
    schema_ok migrated_schema data' \<and> (\<forall>t. t \<noteq> ''users'' \<longrightarrow> data' t = data t) \<and>
    list_all2 (\<lambda>r r'. \<exists>i. r ''id'' = Some (VUuid i) \<and> r' = r(''username'' \<mapsto> VText (show_uuid L i)))
      (data ''users'') (data' ''users'')"
proof -
  let ?us = "data ''users''"
  let ?data = "data(''users'' := map (with_username L) ?us)"
  have sch: "sch = (''users'', users_before) # tl migrated_schema" using assms(1) before_username [of L] by simp
  have tab: "table_ok data (''users'', users_before)" and others: "list_all (table_ok data) (tl migrated_schema)"
    using assms(2) by (simp_all add: schema_ok_def sch)
  have "table_ok ?data t = table_ok data t" if "t \<in> set (tl migrated_schema)" for t
  proof (rule table_ok_other)
    show "fst t \<noteq> ''users''" using that by (auto simp: migrated_schema_eq)
  qed (simp_all add: with_username_def comp_def)
  then have "list_all (table_ok ?data) (tl migrated_schema)" using others by (simp add: list_all_iff)
  moreover have "migrated_schema = hd migrated_schema # tl migrated_schema" by (simp add: migrated_schema_eq)
  ultimately have "schema_ok migrated_schema ?data"
    unfolding schema_ok_def using users_migrated [OF tab assms(3)] by (metis list.pred_inject(2))
  moreover have "list_all2 (\<lambda>r r'. \<exists>i. r ''id'' = Some (VUuid i) \<and> r' = r(''username'' \<mapsto> VText (show_uuid L i)))
      ?us (?data ''users'')"
    unfolding fun_upd_same list.rel_map list.rel_eq list_all2_same
    using rows_before(1) [OF tab] by (auto simp: with_username_def)
  ultimately show ?thesis
    using username_migration_runs [OF tab assms(3)] by (intro exI [of _ ?data]) (simp add: sch)
qed

lemma holds_nothing: "holds data [] k"
  by (cases k) (simp_all add: keys_def)

text \<open>Two users, one of them with a name.\<close>

definition two_users :: stored where
  "two_users = (\<lambda>_. [])(''users'' :=
     [(\<lambda>_. None)(''id'' \<mapsto> VUuid (Uuid 1), ''email'' \<mapsto> VText ''a@x'', ''email_verified'' \<mapsto> VBool True,
        ''name'' \<mapsto> VText ''Ana'', ''created_at'' \<mapsto> VTime 0, ''updated_at'' \<mapsto> VTime 0),
      (\<lambda>_. None)(''id'' \<mapsto> VUuid (Uuid 2), ''email'' \<mapsto> VText ''b@x'', ''email_verified'' \<mapsto> VBool False,
        ''created_at'' \<mapsto> VTime 0, ''updated_at'' \<mapsto> VTime 0)])"

theorem username_migration_applies_witness:
  "\<exists>data'. run_file sample_lib add_username_to_users ((''users'', users_before) # tl migrated_schema, two_users) = Some (migrated_schema, data') \<and>
     schema_ok migrated_schema data' \<and> length (data' ''users'') = 2"
proof -
  have "list_all (row_ok (tab_columns users_before)) (two_users ''users'')"
    and "list_all (holds two_users (two_users ''users'')) (tab_constraints users_before)" by code_simp+
  moreover have "\<forall>r \<in> set (two_users ''users''). names_columns (tab_columns users_before) r"
    by (simp add: two_users_def users_before_def names_columns_def)
  ultimately have "table_ok two_users (''users'', users_before)" by (simp add: table_ok_def list_all_iff)
  moreover have "table_ok two_users t" if "t \<in> set (tl migrated_schema)" for t
  proof -
    have "fst t \<noteq> ''users''" using that by (auto simp: migrated_schema_eq)
    then show ?thesis by (simp add: table_ok_def two_users_def holds_nothing list_all_iff)
  qed
  ultimately have ok: "schema_ok ((''users'', users_before) # tl migrated_schema) two_users"
    by (simp add: schema_ok_def list_all_iff)
  have inj: "inj (show_uuid sample_lib)"
  proof (rule injI)
    fix u v assume a: "show_uuid sample_lib u = show_uuid sample_lib v"
    obtain i j where "u = Uuid i" "v = Uuid j" by (metis uuid.exhaust)
    then show "u = v" using arg_cong [OF a, of length] by (simp add: sample_lib_def)
  qed
  from username_migration_applies [OF before_username ok inj] obtain data' where
    d: "run_file sample_lib add_username_to_users ((''users'', users_before) # tl migrated_schema, two_users) = Some (migrated_schema, data')"
      "schema_ok migrated_schema data'"
      "list_all2 (\<lambda>r r'. \<exists>i. r ''id'' = Some (VUuid i) \<and> r' = r(''username'' \<mapsto> VText (show_uuid sample_lib i)))
         (two_users ''users'') (data' ''users'')" by blast
  have "length (data' ''users'') = 2" using list_all2_lengthD [OF d(3)] by (simp add: two_users_def)
  then show ?thesis using d(1,2) by blast
qed
end
