(* ===== verification/Api_Entities.thy ===== *)
theory Api_Entities
  imports Api_Auth Api_Schema_Correct
begin

text \<open>
  The SeaORM side of \<open>apps/api/src/auth.rs\<close>: the entities that the \<open>better-auth\<close> store reads and writes
  the tables through, the columns it is told to look things up by, and the text form of ids. The
  entities are put against the migrations, and the ids against the adapters of \<open>Api_Auth\<close>.
\<close>

section \<open>The entities\<close>

text \<open>
  What \<open>DeriveEntityModel\<close> reads off a struct: the table, the primary key and the columns with their
  SQL type; \<open>optional\<close> is an \<open>Option\<close> field.
\<close>

record entity =
  en_table :: string
  en_key :: string
  en_columns :: "column list"

definition user_entity :: entity where
  "user_entity =
     \<lparr>en_table = ''users'', en_key = ''id'',
      en_columns =
        [required ''id'' SqlUuid, required ''email'' SqlText, required ''email_verified'' SqlBoolean,
         optional ''name'' SqlText, optional ''image'' SqlText, required ''username'' SqlText,
         optional ''display_username'' SqlText, required ''created_at'' SqlTimestamptz,
         required ''updated_at'' SqlTimestamptz]\<rparr>"

definition session_entity :: entity where
  "session_entity =
     \<lparr>en_table = ''sessions'', en_key = ''id'',
      en_columns =
        [required ''id'' SqlUuid, required ''user_id'' SqlUuid, required ''token'' SqlText,
         required ''expires_at'' SqlTimestamptz, optional ''ip_address'' SqlText, optional ''user_agent'' SqlText,
         required ''active'' SqlBoolean, required ''created_at'' SqlTimestamptz,
         required ''updated_at'' SqlTimestamptz]\<rparr>"

definition account_entity :: entity where
  "account_entity =
     \<lparr>en_table = ''accounts'', en_key = ''id'',
      en_columns =
        [required ''id'' SqlUuid, required ''account_id'' SqlText, required ''provider_id'' SqlText,
         required ''user_id'' SqlUuid, optional ''access_token'' SqlText, optional ''refresh_token'' SqlText,
         optional ''id_token'' SqlText, optional ''access_token_expires_at'' SqlTimestamptz,
         optional ''refresh_token_expires_at'' SqlTimestamptz, optional ''scope'' SqlText,
         optional ''password'' SqlText, required ''created_at'' SqlTimestamptz,
         required ''updated_at'' SqlTimestamptz]\<rparr>"

definition verification_entity :: entity where
  "verification_entity =
     \<lparr>en_table = ''verifications'', en_key = ''id'',
      en_columns =
        [required ''id'' SqlUuid, required ''identifier'' SqlText, required ''value'' SqlText,
         required ''expires_at'' SqlTimestamptz, required ''created_at'' SqlTimestamptz,
         required ''updated_at'' SqlTimestamptz]\<rparr>"

definition app_auth_schema :: "entity list" where
  "app_auth_schema = [user_entity, session_entity, account_entity, verification_entity]"

section \<open>The columns of the store\<close>

text \<open>What the functions of the \<open>SeaOrm*Model\<close> traits answer, in their order.\<close>

definition user_columns :: "(string \<times> string) list" where
  "user_columns = [(''id_column'', ''id''), (''email_column'', ''email''), (''name_column'', ''name''),
     (''created_at_column'', ''created_at'')]"

definition session_columns :: "(string \<times> string) list" where
  "session_columns = [(''id_column'', ''id''), (''token_column'', ''token''), (''user_id_column'', ''user_id''),
     (''active_column'', ''active''), (''expires_at_column'', ''expires_at''), (''created_at_column'', ''created_at'')]"

definition account_columns :: "(string \<times> string) list" where
  "account_columns = [(''id_column'', ''id''), (''provider_id_column'', ''provider_id''),
     (''account_id_column'', ''account_id''), (''user_id_column'', ''user_id''), (''created_at_column'', ''created_at'')]"

definition verification_columns :: "(string \<times> string) list" where
  "verification_columns = [(''id_column'', ''id''), (''identifier_column'', ''identifier''),
     (''value_column'', ''value''), (''expires_at_column'', ''expires_at''), (''created_at_column'', ''created_at'')]"

section \<open>Ids as text\<close>

definition bad_id :: "string \<Rightarrow> lib \<Rightarrow> string \<Rightarrow> string + uuid" where
  "bad_id message L s = (case parse_uuid L s of None \<Rightarrow> Inl message | Some u \<Rightarrow> Inr u)"

definition user_parse_id :: "lib \<Rightarrow> string \<Rightarrow> string + uuid" where
  "user_parse_id = bad_id ''Invalid user id''"

definition session_parse_id :: "lib \<Rightarrow> string \<Rightarrow> string + uuid" where
  "session_parse_id = bad_id ''Invalid session id''"

definition session_parse_user_id :: "lib \<Rightarrow> string \<Rightarrow> string + uuid" where
  "session_parse_user_id = bad_id ''Invalid session user id''"

definition account_parse_id :: "lib \<Rightarrow> string \<Rightarrow> string + uuid" where
  "account_parse_id = bad_id ''Invalid account id''"

definition account_parse_user_id :: "lib \<Rightarrow> string \<Rightarrow> string + uuid" where
  "account_parse_user_id = bad_id ''Invalid account user id''"

definition verification_parse_id :: "lib \<Rightarrow> string \<Rightarrow> string + uuid" where
  "verification_parse_id = bad_id ''Invalid verification id''"

text \<open>The \<open>AuthVerification\<close> trait.\<close>

record auth_verification =
  av_id :: string
  av_identifier :: string
  av_value :: string
  av_expires_at :: timestamp
  av_created_at :: timestamp
  av_updated_at :: timestamp

definition auth_verification_of :: "lib \<Rightarrow> verification_row \<Rightarrow> auth_verification" where
  "auth_verification_of L v =
     \<lparr>av_id = show_uuid L (v_id v), av_identifier = v_identifier v, av_value = v_value v,
      av_expires_at = v_expires_at v, av_created_at = v_created_at v, av_updated_at = v_updated_at v\<rparr>"

section \<open>Entities and migrations\<close>

text \<open>
  A column of an entity and the stored one agree in type and in whether they may be missing. An insert
  through an entity leaves the other columns out, which therefore may be missing or have a default.
\<close>

definition column_fits :: "column list \<Rightarrow> column \<Rightarrow> bool" where
  "column_fits stored c \<longleftrightarrow>
     list_ex (\<lambda>s. col_name s = col_name c \<and> col_type s = col_type c \<and> col_not_null s = col_not_null c) stored"

definition insert_complete :: "column list \<Rightarrow> column list \<Rightarrow> bool" where
  "insert_complete stored cs \<longleftrightarrow>
     list_all (\<lambda>s. list_ex (\<lambda>c. col_name c = col_name s) cs \<or> \<not> col_not_null s \<or> col_default s \<noteq> None) stored"

definition entity_fits :: "schema \<Rightarrow> entity \<Rightarrow> bool" where
  "entity_fits sch en \<longleftrightarrow>
     (case map_of sch (en_table en) of
        None \<Rightarrow> False
      | Some tab \<Rightarrow> list_all (column_fits (tab_columns tab)) (en_columns en) \<and>
          insert_complete (tab_columns tab) (en_columns en) \<and>
          list_ex (\<lambda>k. k = Unique [en_key en]) (tab_constraints tab))"

definition unique_in :: "schema \<Rightarrow> string \<Rightarrow> string list \<Rightarrow> bool" where
  "unique_in sch t cs \<longleftrightarrow>
     (case map_of sch t of None \<Rightarrow> False | Some tab \<Rightarrow> list_ex (\<lambda>k. k = Unique cs) (tab_constraints tab))"

definition columns_known :: "entity \<Rightarrow> (string \<times> string) list \<Rightarrow> bool" where
  "columns_known en cs \<longleftrightarrow> list_all (\<lambda>(_, c). list_ex (\<lambda>k. col_name k = c) (en_columns en)) cs"

text \<open>
  C11: The entities that accounts and sessions are stored through are the tables of the migrations: every
  field is a column of the same type that may be missing exactly when the field is optional; no column
  an entity leaves out makes an insert fail; every column that the store is told to look rows up by
  exists; and ids, emails, session tokens and the pair of provider and account id, by which it expects
  at most one row, are unique.
\<close>

theorem entities_match_migrations:
  "list_all (entity_fits migrated_schema) app_auth_schema \<and>
   columns_known user_entity user_columns \<and> columns_known session_entity session_columns \<and>
   columns_known account_entity account_columns \<and> columns_known verification_entity verification_columns \<and>
   unique_in migrated_schema ''users'' [the (map_of user_columns ''email_column'')] \<and>
   unique_in migrated_schema ''sessions'' [the (map_of session_columns ''token_column'')] \<and>
   unique_in migrated_schema ''accounts''
     [the (map_of account_columns ''provider_id_column''), the (map_of account_columns ''account_id_column'')]"
  by (intro conjI; code_simp)

section \<open>Ids survive their text\<close>

text \<open>The textual form of a UUID parses back to it.\<close>

definition uuid_text_law :: "lib \<Rightarrow> bool" where
  "uuid_text_law L \<longleftrightarrow> (\<forall>u. parse_uuid L (show_uuid L u) = Some u)"

text \<open>
  Ids survive the crate's text form of them. The id that an adapter shows of any row parses back to
  the row's id; and a session or an account created for the id that a user's adapter shows never
  panics, belongs to exactly that user, so that the reference to \<open>users\<close> holds whenever the user is
  stored, and shows that id again.
\<close>

theorem ids_round_trip:
  assumes "uuid_text_law L"
  shows "user_parse_id L (au_id (auth_user_of L u)) = Inr (u_id u) \<and>
    session_parse_id L (as_id (auth_session_of L s)) = Inr (s_id s) \<and>
    session_parse_user_id L (as_user_id (auth_session_of L s)) = Inr (s_user_id s) \<and>
    account_parse_id L (aa_id (auth_account_of L ac)) = Inr (a_id ac) \<and>
    account_parse_user_id L (aa_user_id (auth_account_of L ac)) = Inr (a_user_id ac) \<and>
    verification_parse_id L (av_id (auth_verification_of L v)) = Inr (v_id v) \<and>
    (\<exists>row. new_session L fresh i token (c\<lparr>cs_user_id := au_id (auth_user_of L u)\<rparr>) now = Some row \<and>
       as_user_id (auth_session_of L row) = au_id (auth_user_of L u) \<and>
       (u \<in> set (users db) \<longrightarrow> s_user_id row \<in> user_ids db)) \<and>
    (\<exists>row. new_account L fresh i account provider (au_id (auth_user_of L u)) af now = Some row \<and>
       aa_user_id (auth_account_of L row) = au_id (auth_user_of L u) \<and>
       (u \<in> set (users db) \<longrightarrow> a_user_id row \<in> user_ids db))"
  using assms
  by (simp add: uuid_text_law_def bad_id_def user_parse_id_def session_parse_id_def session_parse_user_id_def
      account_parse_id_def account_parse_user_id_def verification_parse_id_def auth_user_of_def auth_session_of_def
      auth_account_of_def auth_verification_of_def new_session_def new_account_def user_ids_def)

lemma sample_uuid_text_law: "uuid_text_law sample_lib"
proof -
  have "parse_uuid sample_lib (show_uuid sample_lib (Uuid n)) = Some (Uuid n)" for n
    by (simp add: sample_lib_def list_all_iff)
  then show ?thesis unfolding uuid_text_law_def by (metis uuid.exhaust)
qed

definition carla :: user_row where
  "carla = \<lparr>u_id = Uuid 3, u_email = ''c@x'', u_email_verified = False, u_name = None, u_image = None,
     u_username = ''carla'', u_display_username = None, u_created_at = 0, u_updated_at = 0\<rparr>"

theorem ids_round_trip_witness:
  "user_parse_id sample_lib (au_id (auth_user_of sample_lib carla)) = Inr (Uuid 3) \<and>
   user_parse_id sample_lib ''x'' = Inl ''Invalid user id''"
proof -
  have "user_parse_id sample_lib (au_id (auth_user_of sample_lib carla)) = Inr (u_id carla)"
    by (rule conjunct1 [OF ids_round_trip [OF sample_uuid_text_law]])
  moreover have "u_id carla = Uuid 3" by (simp add: carla_def)
  moreover have "user_parse_id sample_lib ''x'' = Inl ''Invalid user id''" by code_simp
  ultimately show ?thesis by simp
qed

end
