(* ===== verification/Api_Threads.thy ===== *)
theory Api_Threads
  imports Api_Relay_Node
begin

text \<open>
  The relay at its real grain: a handler is a thread that touches shared state (the database, the
  registry, a channel, JetStream, the list of tasks) in single steps, and between any two of them every
  other thread may run. Run without interruption, the threads are the handlers of \<open>Api_Relay\<close>.
\<close>

section \<open>Threads\<close>

text \<open>
  Where a thread stands, with the local variables it still needs. The first group is \<open>handle_send\<close> and
  \<open>queue_for_offline_delivery\<close> of a frame that names a recipient and a body; then come the catch-up, the
  redelivery task, and the ends of a connection.
\<close>

datatype thread =
    Check dbenv "nat \<Rightarrow> timestamp" uuid sender uuid string
  | Lookup "nat \<Rightarrow> timestamp" uuid sender uuid string
  | Relay "nat \<Rightarrow> timestamp" uuid sender uuid string sender
  | Publish timestamp uuid sender uuid string
  | Spawn timestamp uuid sender uuid string nat
  | Acknowledge timestamp uuid sender uuid string
  | Refuse sender string string
  | CreateConsumer uuid sender
  | Fetch uuid sender
  | Deliver uuid sender "(nat \<times> string) list"
  | AckMessage uuid sender nat string "(nat \<times> string) list"
  | FindRecipient uuid nat json
  | Resend uuid nat json sender
  | GetStream uuid nat json
  | DeleteMessage uuid nat json
  | Register uuid sender
  | TellReplaced sender
  | Unregister uuid sender
  | DropReceiver sender

text \<open>One step: where the thread stands next, if it goes on, and the state it leaves.\<close>

fun micro :: "('q, 'h) app \<Rightarrow> thread \<Rightarrow> ('q, 'h) node \<Rightarrow> thread option \<times> ('q, 'h) node" where
  "micro A (Check e now from tx to body) n =
     (let (r, db) = autocommit e 0 (query (has_contact from to)) (nd_db n)
      in (Some (if r \<noteq> Inr True then Refuse tx ''not_a_contact'' ''recipient is not in your contacts''
                else Lookup now from tx to body), n\<lparr>nd_db := db\<rparr>))"
| "micro A (Lookup now from tx to body) n =
     (Some (case registry_get to (nd_live n) of
              None \<Rightarrow> Publish (now 0) from tx to body
            | Some recipient_tx \<Rightarrow> Relay now from tx to body recipient_tx), n)"
| "micro A (Relay now from tx to body recipient_tx) n =
     (let (ok, n') = send_text A recipient_tx
        (message_json (json_uuid (app_lib A) from) (JStr body) (JStr (show_rfc3339 (app_lib A) (now 0)))) n
      in (Some (if ok then Acknowledge (now 0) from tx to body else Publish (now 1) from tx to body), n'))"
| "micro A (Publish at from tx to body) n =
     (let (r, q) = js_publish (app_js A) (subject_of A to) (show_json (app_lib A)
            (payload_json (json_uuid (app_lib A) from) (JStr body) (JStr (show_rfc3339 (app_lib A) at)))) (nd_queue n)
      in (Some (case r of
                  Some sequence \<Rightarrow> Spawn at from tx to body sequence
                | None \<Rightarrow> Refuse tx ''queue_unavailable'' ''message could not be queued for offline delivery''),
          n\<lparr>nd_queue := q\<rparr>))"
| "micro A (Spawn at from tx to body sequence) n =
     (Some (Acknowledge at from tx to body),
      n\<lparr>nd_tasks := nd_tasks n @
          [Redeliver to sequence
             (message_json (json_uuid (app_lib A) from) (JStr body) (JStr (show_rfc3339 (app_lib A) at))),
           Notify to from]\<rparr>)"
| "micro A (Acknowledge at from tx to body) n = (None, snd (send_text A tx (ack_json A to) n))"
| "micro A (Refuse tx code message) n = (None, snd (send_error A tx code message n))"
| "micro A (CreateConsumer u tx) n =
     (let (created, q) = js_create_consumer (app_js A) (stream_of A) (subject_of A u) (nd_queue n)
      in (if created then Some (Fetch u tx) else None, n\<lparr>nd_queue := q\<rparr>))"
| "micro A (Fetch u tx) n =
     (let (r, q) = js_fetch (app_js A) (stream_of A) (subject_of A u)
            MAX_QUEUED_MESSAGES_PER_FETCH QUEUED_MESSAGES_FETCH_TIMEOUT (nd_queue n)
      in (map_option (Deliver u tx) r, n\<lparr>nd_queue := q\<rparr>))"
| "micro A (Deliver u tx []) n = (None, n)"
| "micro A (Deliver u tx ((k, payload) # rest)) n =
     (case parse_json (app_lib A) payload of
        None \<Rightarrow> (Some (Deliver u tx rest), n)
      | Some v \<Rightarrow>
          (let (ok, n') = send_text A tx (relay_of_payload v) n
           in (if ok then Some (AckMessage u tx k payload rest) else None, n')))"
| "micro A (AckMessage u tx k payload rest) n =
     (Some (Deliver u tx rest), n\<lparr>nd_queue := js_ack (app_js A) (stream_of A) k (nd_queue n)\<rparr>)"
| "micro A (FindRecipient to k relay) n =
     (map_option (Resend to k relay) (registry_get to (nd_live n)), n)"
| "micro A (Resend to k relay recipient_tx) n =
     (let (ok, n') = send_text A recipient_tx relay n in (if ok then Some (GetStream to k relay) else None, n'))"
| "micro A (GetStream to k relay) n =
     (if js_get_stream (app_js A) (stream_of A) (nd_queue n) then Some (DeleteMessage to k relay) else None, n)"
| "micro A (DeleteMessage to k relay) n =
     (None, n\<lparr>nd_queue := js_delete_message (app_js A) (stream_of A) k (nd_queue n)\<rparr>)"
| "micro A (Register u tx) n =
     (let (previous, l) = registry_insert u tx ((nd_live n)\<lparr>receiving := (receiving (nd_live n))(tx := True)\<rparr>)
      in (map_option TellReplaced previous, n\<lparr>nd_live := l\<rparr>))"
| "micro A (TellReplaced previous) n =
     (None, n\<lparr>nd_live := snd (send_frame previous (Close CLOSE_REPLACED ''replaced by a new connection'') (nd_live n))\<rparr>)"
| "micro A (Unregister u tx) n = (Some (DropReceiver tx), n\<lparr>nd_live := registry_remove_if_current u tx (nd_live n)\<rparr>)"
| "micro A (DropReceiver tx) n =
     (None, n\<lparr>nd_live := (nd_live n)\<lparr>receiving := (receiving (nd_live n))(tx := False)\<rparr>\<rparr>)"

text \<open>The thread of a client's frame: a malformed one is refused without touching the state.\<close>

definition frame_thread ::
  "('q, 'h) app \<Rightarrow> dbenv \<Rightarrow> (nat \<Rightarrow> timestamp) \<Rightarrow> uuid \<Rightarrow> sender \<Rightarrow> string \<Rightarrow> thread" where
  "frame_thread A e now from tx text =
     (case parse_json (app_lib A) text of
        None \<Rightarrow> Refuse tx ''invalid_payload'' ''malformed JSON frame''
      | Some frame \<Rightarrow>
          if str_field frame ''type'' \<noteq> Some ''send'' then Refuse tx ''invalid_payload'' ''unknown or missing frame type''
          else (case Option.bind (str_field frame ''to'') (parse_uuid (app_lib A)) of
                  None \<Rightarrow> Refuse tx ''invalid_payload'' ''\"to\" must be a UUID string''
                | Some to \<Rightarrow>
                    (case valid_body (app_lib A) frame of
                       None \<Rightarrow> Refuse tx ''invalid_payload'' ''\"body_b64\" must be valid base64''
                     | Some body \<Rightarrow> Check e now from tx to body)))"

section \<open>Without interruption\<close>

text \<open>A thread that runs alone to its end.\<close>

inductive runs_to :: "('q, 'h) app \<Rightarrow> thread \<Rightarrow> ('q, 'h) node \<Rightarrow> ('q, 'h) node \<Rightarrow> bool"
  for A where
  ends: "micro A t n = (None, n') \<Longrightarrow> runs_to A t n n'"
| goes: "micro A t n = (Some t', n1) \<Longrightarrow> runs_to A t' n1 n' \<Longrightarrow> runs_to A t n n'"

inductive_simps runs_to_simps:
  "runs_to A (Check e now from tx to body) n n'"
  "runs_to A (Lookup now from tx to body) n n'"
  "runs_to A (Relay now from tx to body rc) n n'"
  "runs_to A (Publish at from tx to body) n n'"
  "runs_to A (Spawn at from tx to body k) n n'"
  "runs_to A (Acknowledge at from tx to body) n n'"
  "runs_to A (Refuse tx code message) n n'"
  "runs_to A (CreateConsumer u tx) n n'"
  "runs_to A (Fetch u tx) n n'"
  "runs_to A (Deliver u tx ms) n n'"
  "runs_to A (AckMessage u tx k p ms) n n'"
  "runs_to A (FindRecipient to k relay) n n'"
  "runs_to A (Resend to k relay rc) n n'"
  "runs_to A (GetStream to k relay) n n'"
  "runs_to A (DeleteMessage to k relay) n n'"
  "runs_to A (Register u tx) n n'"
  "runs_to A (TellReplaced tx) n n'"
  "runs_to A (Unregister u tx) n n'"
  "runs_to A (DropReceiver tx) n n'"

text \<open>The step is a function, so a thread has at most one end.\<close>

lemma runs_to_unique: "runs_to A t n n' \<Longrightarrow> runs_to A t n n'' \<Longrightarrow> n'' = n'"
proof (induction rule: runs_to.induct)
  case (ends t n n')
  from ends(2) show ?case by cases (use ends(1) in simp_all)
next
  case (goes t n t' n1 n')
  from goes(4) show ?case by cases (use goes(1,3) in simp_all)
qed

lemma refuse_runs: "runs_to A (Refuse tx code message) n (snd (send_error A tx code message n))"
  by (simp add: runs_to_simps)

lemma publish_runs:
  "runs_to A (Publish at from tx to body) n (snd (queue_for_offline_delivery A at from to body tx n))"
  by (simp add: runs_to_simps queue_for_offline_delivery_def Let_def split: prod.splits option.splits)

lemma lookup_runs:
  "runs_to A (Lookup now from tx to body) n
     (case registry_get to (nd_live n) of
        None \<Rightarrow> snd (queue_for_offline_delivery A (now 0) from to body tx n)
      | Some rc \<Rightarrow>
          (case send_text A rc (message_json (json_uuid (app_lib A) from) (JStr body)
                 (JStr (show_rfc3339 (app_lib A) (now 0)))) n of
             (ok, n1) \<Rightarrow> if ok then snd (send_text A tx (ack_json A to) n1)
                         else snd (queue_for_offline_delivery A (now 1) from to body tx n1)))"
proof (cases "registry_get to (nd_live n)")
  case None
  then show ?thesis using publish_runs by (simp add: runs_to_simps(2))
next
  case (Some rc)
  let ?m = "message_json (json_uuid (app_lib A) from) (JStr body) (JStr (show_rfc3339 (app_lib A) (now 0)))"
  obtain ok n1 where m: "send_text A rc ?m n = (ok, n1)" by (rule prod.exhaust)
  show ?thesis
    using Some m publish_runs
    by (cases ok) (simp_all add: runs_to_simps(2,3) runs_to_simps(6) [of A "now 0"])
qed

lemma frame_runs:
  "runs_to A (frame_thread A e now from tx text) n (snd (handle_client_frame A e now from tx text n))"
proof (cases "frame_thread A e now from tx text")
  case (Check e' now' from' tx' to body)
  then obtain frame where c: "parse_json (app_lib A) text = Some frame" "str_field frame ''type'' = Some ''send''"
      "Option.bind (str_field frame ''to'') (parse_uuid (app_lib A)) = Some to"
      "valid_body (app_lib A) frame = Some body" "e' = e" "now' = now" "from' = from" "tx' = tx"
    by (auto simp: frame_thread_def split: option.splits if_splits)
  have t: "frame_thread A e now from tx text = Check e now from tx to body" using Check c by simp
  obtain r db where a: "autocommit e 0 (query (has_contact from to)) (nd_db n) = (r, db)" by (rule prod.exhaust)
  show ?thesis
    unfolding t using lookup_runs [of A now "from" tx to body "n\<lparr>nd_db := db\<rparr>"] c(1-4) a refuse_runs
    by (auto simp: runs_to_simps(1) handle_client_frame_def handle_send_def Let_def split: prod.splits option.splits)
qed (use refuse_runs in \<open>auto simp: frame_thread_def handle_client_frame_def handle_send_def Let_def
      split: option.splits if_splits\<close>)

lemma deliver_runs: "runs_to A (Deliver u tx ms) n (deliver_messages A tx ms n)"
proof (induction ms arbitrary: n)
  case (Cons m ms)
  obtain k p where m: "m = (k, p)" by (rule prod.exhaust)
  show ?case
    using Cons by (cases "parse_json (app_lib A) p")
      (simp_all add: m runs_to_simps(10) [of _ _ _ "_ # _"] runs_to_simps(11) deliver_messages_step case_prod_beta)
qed (simp add: runs_to_simps)

lemma catch_up_runs: "runs_to A (CreateConsumer u tx) n (deliver_queued_messages A u tx n)"
  using deliver_runs
  by (auto simp: runs_to_simps(8,9) deliver_queued_messages_def Let_def split: option.splits prod.splits)

lemma redeliver_runs: "runs_to A (FindRecipient to k relay) n (redeliver_if_now_connected A to k relay n)"
  by (auto simp: runs_to_simps redeliver_if_now_connected_def split: option.splits prod.splits)

lemma register_runs:
  "runs_to A (Register u tx) n (n\<lparr>nd_live := register_connection u tx (nd_live n)\<rparr>)"
  by (auto simp: runs_to_simps register_connection_def Let_def split: option.splits prod.splits)

lemma close_runs:
  "runs_to A (Unregister u tx) n (n\<lparr>nd_live := close_connection u tx (nd_live n)\<rparr>)"
  by (simp add: runs_to_simps close_connection_def Let_def)


section \<open>How long a thread runs\<close>

fun steps_left :: "thread \<Rightarrow> nat" where
  "steps_left (Check _ _ _ _ _ _) = 6"
| "steps_left (Lookup _ _ _ _ _) = 5"
| "steps_left (Relay _ _ _ _ _ _) = 4"
| "steps_left (Publish _ _ _ _ _) = 3"
| "steps_left (Spawn _ _ _ _ _ _) = 2"
| "steps_left (Acknowledge _ _ _ _ _) = 1"
| "steps_left (Refuse _ _ _) = 1"
| "steps_left (CreateConsumer _ _) = 515"
| "steps_left (Fetch _ _) = 514"
| "steps_left (Deliver _ _ ms) = 2 * length ms + 1"
| "steps_left (AckMessage _ _ _ _ ms) = 2 * length ms + 2"
| "steps_left (FindRecipient _ _ _) = 4"
| "steps_left (Resend _ _ _ _) = 3"
| "steps_left (GetStream _ _ _) = 2"
| "steps_left (DeleteMessage _ _ _) = 1"
| "steps_left (Register _ _) = 2"
| "steps_left (TellReplaced _) = 1"
| "steps_left (Unregister _ _) = 2"
| "steps_left (DropReceiver _) = 1"

lemma micro_shortens:
  assumes "consumer_laws (app_js A) (stream_of A) V" and "micro A t n = (Some t', n')"
  shows "steps_left t' < steps_left t"
proof (cases t)
  case (Fetch u tx)
  then obtain ms where t': "t' = Deliver u tx ms"
      "fst (js_fetch (app_js A) (stream_of A) (subject_of A u) 256 QUEUED_MESSAGES_FETCH_TIMEOUT (nd_queue n)) = Some ms"
    using assms(2) by (auto simp: case_prod_beta MAX_QUEUED_MESSAGES_PER_FETCH_def)
  then have "length ms \<le> 256" using assms(1) unfolding consumer_laws_def by blast
  then show ?thesis using Fetch t' by simp
next
  case (Deliver u tx ms)
  then show ?thesis
    using assms(2) by (cases ms) (auto simp: case_prod_beta split: option.splits if_splits)
qed (use assms(2) in \<open>auto simp: case_prod_beta split: if_splits option.splits\<close>)

end
