(* ===== verification/Api_Threads_Safe.thy ===== *)
theory Api_Threads_Safe
  imports Api_Threads Api_Relay_Examples
begin

text \<open>
  Any number of threads of the relay at once, switching between any two of their steps: an
  acknowledgement is only ever on its way for a message that is kept, nothing that was kept is lost,
  and every thread ends after boundedly many steps of its own.
\<close>

section \<open>What a thread relies on\<close>

text \<open>A message a thread fetched: its sequence number stands for this payload, if it is still queued.\<close>

definition fetched_ok :: "('q, 'h) app \<Rightarrow> 'q queue_view \<Rightarrow> uuid \<Rightarrow> nat \<times> string \<Rightarrow> 'q \<Rightarrow> bool" where
  "fetched_ok A V u m q \<longleftrightarrow> fst m < next_sequence V q \<and>
     (\<forall>s p. (fst m, p) \<in> set (queued V q s) \<longrightarrow> s = subject_of A u \<and> p = snd m)"

fun thread_ok :: "('q, 'h) app \<Rightarrow> 'q queue_view \<Rightarrow> (sender \<Rightarrow> uuid) \<Rightarrow> ('q, 'h) node \<Rightarrow> thread \<Rightarrow> bool" where
  "thread_ok A V owner n (Relay now from tx to body rc) \<longleftrightarrow> owner rc = to"
| "thread_ok A V owner n (Spawn at from tx to body k) \<longleftrightarrow>
     task_ok A V (nd_queue n) (Redeliver to k (sent_message A from body at)) \<and>
     kept A V owner to (sent_message A from body at) n"
| "thread_ok A V owner n (Acknowledge at from tx to body) \<longleftrightarrow> kept A V owner to (sent_message A from body at) n"
| "thread_ok A V owner n (CreateConsumer u tx) \<longleftrightarrow> owner tx = u"
| "thread_ok A V owner n (Fetch u tx) \<longleftrightarrow> owner tx = u"
| "thread_ok A V owner n (Deliver u tx ms) \<longleftrightarrow> owner tx = u \<and> (\<forall>m \<in> set ms. fetched_ok A V u m (nd_queue n))"
| "thread_ok A V owner n (AckMessage u tx k p ms) \<longleftrightarrow>
     owner tx = u \<and> (\<forall>m \<in> set ((k, p) # ms). fetched_ok A V u m (nd_queue n)) \<and>
     (\<exists>v. parse_json (app_lib A) p = Some v \<and> handed_over A owner u (relay_of_payload v) n)"
| "thread_ok A V owner n (FindRecipient to k relay) \<longleftrightarrow> task_ok A V (nd_queue n) (Redeliver to k relay)"
| "thread_ok A V owner n (Resend to k relay rc) \<longleftrightarrow>
     task_ok A V (nd_queue n) (Redeliver to k relay) \<and> owner rc = to"
| "thread_ok A V owner n (GetStream to k relay) \<longleftrightarrow>
     task_ok A V (nd_queue n) (Redeliver to k relay) \<and> handed_over A owner to relay n"
| "thread_ok A V owner n (DeleteMessage to k relay) \<longleftrightarrow>
     task_ok A V (nd_queue n) (Redeliver to k relay) \<and> handed_over A owner to relay n"
| "thread_ok A V owner n (Register u tx) \<longleftrightarrow> owner tx = u"
| "thread_ok A V owner n _ \<longleftrightarrow> True"

section \<open>What a step leaves to the other threads\<close>

text \<open>
  Sequence numbers are never reused, nothing handed over is taken back, and what is due stays due.
\<close>

definition moves :: "('q, 'h) app \<Rightarrow> 'q queue_view \<Rightarrow> (sender \<Rightarrow> uuid) \<Rightarrow> ('q, 'h) node \<Rightarrow> ('q, 'h) node \<Rightarrow> bool" where
  "moves A V owner n n' \<longleftrightarrow> node_ok A V owner n' \<and>
     next_sequence V (nd_queue n) \<le> next_sequence V (nd_queue n') \<and>
     (\<forall>s m. m \<in> set (queued V (nd_queue n') s) \<longrightarrow>
        m \<in> set (queued V (nd_queue n) s) \<or> next_sequence V (nd_queue n) \<le> fst m) \<and>
     (\<forall>u relay i. due A V owner i u relay n \<longrightarrow> due A V owner i u relay n') \<and>
     (\<forall>u relay. handed_over A owner u relay n \<longrightarrow> handed_over A owner u relay n')"

lemma moves_fetched: "moves A V owner n n' \<Longrightarrow> fetched_ok A V u m (nd_queue n) \<Longrightarrow> fetched_ok A V u m (nd_queue n')"
  by (fastforce simp: moves_def fetched_ok_def)

lemma moves_task: "moves A V owner n n' \<Longrightarrow> task_ok A V (nd_queue n) t \<Longrightarrow> task_ok A V (nd_queue n') t"
  by (cases t) (fastforce simp: moves_def task_ok_def)+

lemma moves_kept: "moves A V owner n n' \<Longrightarrow> kept A V owner u relay n \<Longrightarrow> kept A V owner u relay n'"
  unfolding kept_due moves_def by blast

lemma moves_handed: "moves A V owner n n' \<Longrightarrow> handed_over A owner u relay n \<Longrightarrow> handed_over A owner u relay n'"
  by (simp add: moves_def)

text \<open>So what one thread relies on survives the steps of all others.\<close>

lemma moves_thread: "moves A V owner n n' \<Longrightarrow> thread_ok A V owner n t \<Longrightarrow> thread_ok A V owner n' t"
  by (cases t) (auto dest: moves_fetched moves_task moves_kept moves_handed)

lemma moves_trans:
  assumes "moves A V owner n n1" and "moves A V owner n1 n2"
  shows "moves A V owner n n2"
  using assms unfolding moves_def by (meson le_trans)

lemma moves_same:
  assumes "node_ok A V owner n'" and "nd_queue n' = nd_queue n"
    and "\<And>c. set (inbox (nd_live n) c) \<subseteq> set (inbox (nd_live n') c)"
  shows "moves A V owner n n'"
proof -
  have "handed_over A owner u relay n'" if "handed_over A owner u relay n" for u relay
    using that assms(3) by (auto simp: handed_over_def)
  then show ?thesis
    unfolding moves_def using assms due_mono [OF _ assms(2,3)] by simp
qed

lemma moves_send: "node_ok A V owner n \<Longrightarrow> moves A V owner n (snd (send_text A tx v n))"
  by (rule moves_same) (auto simp: send_text_inbox)

lemma moves_view:
  assumes "node_ok A V owner n" and "queued V q = queued V (nd_queue n)"
    and "next_sequence V (nd_queue n) \<le> next_sequence V q"
  shows "moves A V owner n (n\<lparr>nd_queue := q\<rparr>)"
  using assms same_view_larger [OF assms(2,3)] by (simp add: moves_def handed_over_def)

lemma moves_published:
  assumes "node_ok A V owner n" and "published V subj p k (nd_queue n) q" and "parse_json (app_lib A) p \<noteq> None"
  shows "moves A V owner n (n\<lparr>nd_queue := q\<rparr>)"
  using assms published_node_ok [OF assms(2,3,1)] published_due [OF assms(2)]
  by (auto simp: moves_def handed_over_def published_def)

lemma moves_removed:
  assumes "node_ok A V owner n" and "removed V k (nd_queue n) q"
    and "\<And>w relay p. (k, p) \<in> set (queued V (nd_queue n) (subject_of A w)) \<Longrightarrow> carries A relay p \<Longrightarrow>
      handed_over A owner w relay n"
  shows "moves A V owner n (n\<lparr>nd_queue := q\<rparr>)"
proof -
  have "due A V owner i u relay (n\<lparr>nd_queue := q\<rparr>)" if "due A V owner i u relay n" for i u relay
    by (rule removed_due [OF assms(2) that assms(3)])
  then show ?thesis
    using removed_node_ok [OF assms(2,1)] removed_subset [OF assms(2), THEN subsetD] assms(2)
    by (simp add: moves_def handed_over_def removed_def)
qed

section \<open>One step of one thread\<close>

definition goes_well ::
  "('q, 'h) app \<Rightarrow> 'q queue_view \<Rightarrow> (sender \<Rightarrow> uuid) \<Rightarrow> ('q, 'h) node \<Rightarrow> thread option \<times> ('q, 'h) node \<Rightarrow> bool" where
  "goes_well A V owner n r \<longleftrightarrow> moves A V owner n (snd r) \<and> (\<forall>t. fst r = Some t \<longrightarrow> thread_ok A V owner (snd r) t)"

lemma moves_refl: "node_ok A V owner n \<Longrightarrow> moves A V owner n n"
  by (rule moves_same) simp_all

lemma relay_goes_well:
  assumes "node_ok A V owner n" and "owner rc = to"
  shows "goes_well A V owner n (micro A (Relay now from tx to body rc) n)"
  using moves_send [OF assms(1)] handed_here [of n rc owner to A] assms(2)
  by (auto simp: goes_well_def case_prod_beta kept_def sent_message_def)

lemma publish_goes_well:
  assumes laws: "queue_laws (app_js A) (stream_of A) V" and codec: "codec_laws (app_lib A)"
    and ok: "node_ok A V owner n"
  shows "goes_well A V owner n (micro A (Publish at from tx to body) n)"
proof -
  let ?L = "app_lib A"
  let ?p = "show_json ?L (payload_json (json_uuid ?L from) (JStr body) (JStr (show_rfc3339 ?L at)))"
  have parse: "parse_json ?L ?p \<noteq> None" using codec by (simp add: codec_laws_def)
  have pl: "publish_laws (app_js A) V" using laws by (simp add: queue_laws_def)
  obtain r q where 1: "js_publish (app_js A) (subject_of A to) ?p (nd_queue n) = (r, q)" by (rule prod.exhaust)
  show ?thesis
  proof (cases r)
    case None
    have "moves A V owner n (n\<lparr>nd_queue := q\<rparr>)"
      using publish_None [OF pl 1 [unfolded None]] moves_view [OF ok] moves_published [OF ok _ parse] by blast
    then show ?thesis using 1 None by (simp add: goes_well_def)
  next
    case (Some k)
    have pub: "published V (subject_of A to) ?p k (nd_queue n) q" by (rule publish_Some [OF pl 1 [unfolded Some]])
    have m: "moves A V owner n (n\<lparr>nd_queue := q\<rparr>)" by (rule moves_published [OF ok pub parse])
    have c: "carries A (sent_message A from body at) ?p" using carries_payload [OF codec] by (simp add: sent_message_def)
    have here: "(k, ?p) \<in> set (queued V q (subject_of A to))" by (simp add: published_in [OF pub])
    have sq: "sequences_ok V q" using published_sequences [OF pub] ok by (simp add: node_ok_def)
    have "s = subject_of A to \<and> carries A (sent_message A from body at) p" if "(k, p) \<in> set (queued V q s)" for s p
      using sq here c that unfolding sequences_ok_def by blast
    then have t: "task_ok A V q (Redeliver to k (sent_message A from body at))"
      unfolding task_ok_def task.case using pub published_def by metis
    have "waiting A V to (sent_message A from body at) (n\<lparr>nd_queue := q\<rparr>)"
      using here c unfolding waiting_def by force
    then show ?thesis using 1 Some m t by (simp add: goes_well_def kept_def)
  qed
qed

lemma spawn_goes_well:
  assumes "node_ok A V owner n" and "thread_ok A V owner n (Spawn at from tx to body k)"
  shows "goes_well A V owner n (micro A (Spawn at from tx to body k) n)"
proof -
  let ?n = "snd (micro A (Spawn at from tx to body k) n)"
  have "node_ok A V owner ?n"
    using assms by (auto simp: node_ok_def sent_message_def task_ok_def)
  then have m: "moves A V owner n ?n" by (rule moves_same) simp_all
  have "kept A V owner to (sent_message A from body at) ?n"
    by (rule moves_kept [OF m]) (use assms(2) in simp)
  then show ?thesis using m by (simp add: goes_well_def)
qed

lemma consumer_goes_well:
  assumes "queue_laws (app_js A) (stream_of A) V" and "node_ok A V owner n" and "owner tx = u"
  shows "goes_well A V owner n (micro A (CreateConsumer u tx) n)"
proof -
  have "moves A V owner n (n\<lparr>nd_queue := snd (js_create_consumer (app_js A) (stream_of A) (subject_of A u) (nd_queue n))\<rparr>)"
    by (rule moves_view) (use assms(1,2) in \<open>auto simp: queue_laws_def consumer_laws_def\<close>)
  then show ?thesis using assms(3) by (auto simp: goes_well_def case_prod_beta)
qed

lemma fetch_goes_well:
  assumes laws: "queue_laws (app_js A) (stream_of A) V" and ok: "node_ok A V owner n" and own: "owner tx = u"
  shows "goes_well A V owner n (micro A (Fetch u tx) n)"
proof -
  let ?f = "js_fetch (app_js A) (stream_of A) (subject_of A u) MAX_QUEUED_MESSAGES_PER_FETCH QUEUED_MESSAGES_FETCH_TIMEOUT (nd_queue n)"
  have l: "queued V (snd ?f) = queued V (nd_queue n)" "next_sequence V (snd ?f) = next_sequence V (nd_queue n)"
    and f: "fst ?f = Some ms \<Longrightarrow> set ms \<subseteq> set (queued V (nd_queue n) (subject_of A u))" for ms
    using laws unfolding queue_laws_def consumer_laws_def by blast+
  have m: "moves A V owner n (n\<lparr>nd_queue := snd ?f\<rparr>)" by (rule moves_view) (simp_all add: ok l)
  have sq: "sequences_ok V (nd_queue n)" using ok by (simp add: node_ok_def)
  have "fetched_ok A V u m (snd ?f)" if "fst ?f = Some ms" "m \<in> set ms" for ms m
  proof -
    obtain k p where kp: "m = (k, p)" by (rule prod.exhaust)
    have "(k, p) \<in> set (queued V (nd_queue n) (subject_of A u))" using f that kp by blast
    then show ?thesis using sq kp unfolding fetched_ok_def sequences_ok_def l by fastforce
  qed
  then show ?thesis using m own by (auto simp: goes_well_def case_prod_beta)
qed

lemma deliver_goes_well:
  assumes ok: "node_ok A V owner n" and t: "thread_ok A V owner n (Deliver u tx ms)"
  shows "goes_well A V owner n (micro A (Deliver u tx ms) n)"
proof (cases ms)
  case Nil
  then show ?thesis using moves_refl [OF ok] by (simp add: goes_well_def)
next
  case (Cons m rest)
  obtain k p where m: "m = (k, p)" by (rule prod.exhaust)
  show ?thesis
  proof (cases "parse_json (app_lib A) p")
    case None
    then show ?thesis using Cons m t moves_refl [OF ok] by (simp add: goes_well_def)
  next
    case (Some v)
    let ?n = "snd (send_text A tx (relay_of_payload v) n)"
    have mv: "moves A V owner n ?n" by (rule moves_send [OF ok])
    have "\<forall>x \<in> set ms. fetched_ok A V u x (nd_queue ?n)" using t by simp
    moreover have "receiving (nd_live n) tx \<Longrightarrow> handed_over A owner u (relay_of_payload v) ?n"
      by (rule handed_here) (use t in simp_all)
    ultimately show ?thesis using mv Some Cons m t by (simp add: goes_well_def case_prod_beta)
  qed
qed

text \<open>Taking \<open>(k, p)\<close> off the queue is safe once its frame was handed over.\<close>

lemma ack_goes_well:
  assumes laws: "queue_laws (app_js A) (stream_of A) V" and codec: "codec_laws (app_lib A)"
    and ok: "node_ok A V owner n" and t: "thread_ok A V owner n (AckMessage u tx k p ms)"
  shows "goes_well A V owner n (micro A (AckMessage u tx k p ms) n)"
proof -
  have inj: "inj (show_uuid (app_lib A))" using codec by (simp add: codec_laws_def)
  have f: "fetched_ok A V u (k, p) (nd_queue n)" using t by simp
  obtain v where v: "parse_json (app_lib A) p = Some v" "handed_over A owner u (relay_of_payload v) n"
    using t by auto
  have "moves A V owner n (n\<lparr>nd_queue := js_ack (app_js A) (stream_of A) k (nd_queue n)\<rparr>)"
  proof (rule moves_removed [OF ok])
    show "removed V k (nd_queue n) (js_ack (app_js A) (stream_of A) k (nd_queue n))"
      using laws by (simp add: queue_laws_def removed_ack)
  next
    fix w relay p' assume a: "(k, p') \<in> set (queued V (nd_queue n) (subject_of A w))" "carries A relay p'"
    then have "subject_of A w = subject_of A u" "p' = p" using f unfolding fetched_ok_def by auto
    then have "w = u" "relay = relay_of_payload v" using a(2) v(1) subject_inj [OF inj] by (auto simp: carries_def)
    then show "handed_over A owner w relay n" using v(2) by simp
  qed
  then show ?thesis using t moves_fetched [OF \<open>moves A V owner n _\<close>] by (simp add: goes_well_def)
qed

lemma resend_goes_well:
  assumes "node_ok A V owner n" and "thread_ok A V owner n (Resend to k relay rc)"
  shows "goes_well A V owner n (micro A (Resend to k relay rc) n)"
  using moves_send [OF assms(1)] handed_here [of n rc owner to A] assms(2)
  by (auto simp: goes_well_def case_prod_beta)

lemma delete_goes_well:
  assumes laws: "queue_laws (app_js A) (stream_of A) V" and codec: "codec_laws (app_lib A)"
    and ok: "node_ok A V owner n" and t: "thread_ok A V owner n (DeleteMessage to k relay)"
  shows "goes_well A V owner n (micro A (DeleteMessage to k relay) n)"
proof -
  have inj: "inj (show_uuid (app_lib A))" using codec by (simp add: codec_laws_def)
  have "moves A V owner n (n\<lparr>nd_queue := js_delete_message (app_js A) (stream_of A) k (nd_queue n)\<rparr>)"
  proof (rule moves_removed [OF ok])
    show "removed V k (nd_queue n) (js_delete_message (app_js A) (stream_of A) k (nd_queue n))"
      using laws by (simp add: queue_laws_def removed_delete)
  next
    fix w m p assume a: "(k, p) \<in> set (queued V (nd_queue n) (subject_of A w))" "carries A m p"
    then have "subject_of A w = subject_of A to" "carries A relay p" using t by (auto simp: task_ok_def)
    then have "w = to" "m = relay" using a(2) subject_inj [OF inj] by (auto simp: carries_def)
    then show "handed_over A owner w m n" using t by simp
  qed
  then show ?thesis by (simp add: goes_well_def)
qed

lemma connection_goes_well:
  assumes "node_ok A V owner n"
  shows "owner tx = u \<Longrightarrow> goes_well A V owner n (micro A (Register u tx) n)"
    and "goes_well A V owner n (micro A (TellReplaced tx) n)"
    and "goes_well A V owner n (micro A (Unregister u tx) n)"
    and "goes_well A V owner n (micro A (DropReceiver tx) n)"
  using assms
  by (auto simp: goes_well_def case_prod_beta registry_insert_def registry_remove_if_current_def send_frame_def
      node_ok_def registry_owned_def split: option.splits intro!: moves_same)

lemma micro_goes_well:
  assumes laws: "queue_laws (app_js A) (stream_of A) V" and codec: "codec_laws (app_lib A)"
    and ok: "node_ok A V owner n" and t: "thread_ok A V owner n t"
  shows "goes_well A V owner n (micro A t n)"
proof (cases t)
  case (Check e now author tx to body)
  have "moves A V owner n (n\<lparr>nd_db := d\<rparr>)" for d by (rule moves_same) (simp_all add: ok)
  then show ?thesis using Check by (simp add: goes_well_def case_prod_beta)
next
  case (Lookup now author tx to body)
  then show ?thesis
    using moves_refl [OF ok] ok
    by (auto simp: goes_well_def node_ok_def registry_owned_def registry_get_def split: option.splits)
next
  case (FindRecipient to k relay)
  then show ?thesis
    using moves_refl [OF ok] ok t
    by (auto simp: goes_well_def node_ok_def registry_owned_def registry_get_def)
next
  case (Publish at author tx to body)
  then show ?thesis using publish_goes_well [OF laws codec ok] by blast
next
  case (Refuse tx code message)
  then show ?thesis using moves_send [OF ok] by (simp add: goes_well_def send_error_def)
next
  case (Acknowledge at author tx to body)
  then show ?thesis using moves_send [OF ok] by (simp add: goes_well_def)
next
  case (Relay now author tx to body rc)
  then show ?thesis using relay_goes_well [OF ok] t by simp
next
  case (CreateConsumer u tx)
  moreover have "owner tx = u" using t CreateConsumer by simp
  ultimately show ?thesis using consumer_goes_well [OF laws ok] by blast
next
  case (Fetch u tx)
  moreover have "owner tx = u" using t Fetch by simp
  ultimately show ?thesis using fetch_goes_well [OF laws ok] by blast
next
  case (GetStream to k relay)
  then show ?thesis using moves_refl [OF ok] t by (simp add: goes_well_def)
next
  case (Register u tx)
  moreover have "owner tx = u" using t Register by simp
  ultimately show ?thesis using connection_goes_well(1) [OF ok] by blast
next
  case (Spawn at author tx to body k)
  show ?thesis unfolding Spawn by (rule spawn_goes_well [OF ok t [unfolded Spawn]])
next
  case (Deliver u tx ms)
  show ?thesis unfolding Deliver by (rule deliver_goes_well [OF ok t [unfolded Deliver]])
next
  case (AckMessage u tx k p ms)
  show ?thesis unfolding AckMessage by (rule ack_goes_well [OF laws codec ok t [unfolded AckMessage]])
next
  case (Resend to k relay rc)
  show ?thesis unfolding Resend by (rule resend_goes_well [OF ok t [unfolded Resend]])
next
  case (DeleteMessage to k relay)
  show ?thesis unfolding DeleteMessage by (rule delete_goes_well [OF laws codec ok t [unfolded DeleteMessage]])
next
  case (TellReplaced tx)
  show ?thesis unfolding TellReplaced by (rule connection_goes_well(2) [OF ok])
next
  case (Unregister u tx)
  show ?thesis unfolding Unregister by (rule connection_goes_well(3) [OF ok])
next
  case (DropReceiver tx)
  show ?thesis unfolding DropReceiver by (rule connection_goes_well(4) [OF ok])
qed

section \<open>Many threads\<close>

text \<open>
  Handlers start at any time, whenever the client or the runtime pleases; a started one takes its steps
  between those of the others, or is dropped at any point (an aborted task). Only the push task, which
  touches nothing the others do but reads the database once, is kept whole.
\<close>

inductive pool_step ::
  "('q, 'h) app \<Rightarrow> (sender \<Rightarrow> uuid) \<Rightarrow> thread list \<times> ('q, 'h) node \<Rightarrow> thread list \<times> ('q, 'h) node \<Rightarrow> bool"
  for A owner where
  frame: "owner tx = u \<Longrightarrow> pool_step A owner (ts, n) (ts @ [frame_thread A e now u tx text], n)"
| catch_up: "owner tx = u \<Longrightarrow> pool_step A owner (ts, n) (ts @ [CreateConsumer u tx], n)"
| connect: "owner tx = u \<Longrightarrow> pool_step A owner (ts, n) (ts @ [Register u tx], n)"
| disconnect: "pool_step A owner (ts, n) (ts @ [Unregister u tx], n)"
| redeliver: "Redeliver to k relay \<in> set (nd_tasks n) \<Longrightarrow>
    pool_step A owner (ts, n) (ts @ [FindRecipient to k relay], n\<lparr>nd_tasks := remove1 (Redeliver to k relay) (nd_tasks n)\<rparr>)"
| notify: "Notify to author \<in> set (nd_tasks n) \<Longrightarrow>
    pool_step A owner (ts, n) (ts, notify_push_tokens_for_offline_message A e to author
      (n\<lparr>nd_tasks := remove1 (Notify to author) (nd_tasks n)\<rparr>))"
| database: "pool_step A owner (ts, n) (ts, n\<lparr>nd_db := db\<rparr>)"
| proceeds: "micro A t n = (Some t', n') \<Longrightarrow> pool_step A owner (ts1 @ t # ts2, n) (ts1 @ t' # ts2, n')"
| finishes: "micro A t n = (None, n') \<Longrightarrow> pool_step A owner (ts1 @ t # ts2, n) (ts1 @ ts2, n')"
| aborted: "pool_step A owner (ts1 @ t # ts2, n) (ts1 @ ts2, n)"

inductive pool_reach ::
  "('q, 'h) app \<Rightarrow> (sender \<Rightarrow> uuid) \<Rightarrow> thread list \<times> ('q, 'h) node \<Rightarrow> thread list \<times> ('q, 'h) node \<Rightarrow> bool"
  for A owner where
  pool_here: "pool_reach A owner P P"
| pool_later: "pool_reach A owner P Q \<Longrightarrow> pool_step A owner Q R \<Longrightarrow> pool_reach A owner P R"

lemma pool_reach_trans: "pool_reach A owner Q R \<Longrightarrow> pool_reach A owner P Q \<Longrightarrow> pool_reach A owner P R"
  by (induction rule: pool_reach.induct) (auto intro: pool_later)

lemma pool_one: "pool_step A owner P Q \<Longrightarrow> pool_reach A owner P Q"
  using pool_here pool_later by blast

definition pool_ok :: "('q, 'h) app \<Rightarrow> 'q queue_view \<Rightarrow> (sender \<Rightarrow> uuid) \<Rightarrow> thread list \<times> ('q, 'h) node \<Rightarrow> bool" where
  "pool_ok A V owner P \<longleftrightarrow> node_ok A V owner (snd P) \<and> (\<forall>t \<in> set (fst P). thread_ok A V owner (snd P) t)"

lemma pool_moves:
  assumes "pool_ok A V owner (ts, n)" and "moves A V owner n n'"
    and "\<And>t. t \<in> set ts' \<Longrightarrow> t \<in> set ts \<or> thread_ok A V owner n' t"
  shows "pool_ok A V owner (ts', n') \<and> moves A V owner n n'"
  using assms moves_thread [OF assms(2)] by (auto simp: pool_ok_def moves_def)

lemma frame_thread_ok: "thread_ok A V owner n (frame_thread A e now u tx text)"
  by (auto simp: frame_thread_def split: option.splits)

lemma without_task_moves: "node_ok A V owner n \<Longrightarrow> moves A V owner n (n\<lparr>nd_tasks := remove1 t (nd_tasks n)\<rparr>)"
  by (rule moves_same) (auto simp: node_ok_def dest: notin_set_remove1)

lemma notify_moves:
  "node_ok A V owner n \<Longrightarrow> moves A V owner n (notify_push_tokens_for_offline_message A e to author n)"
  by (rule moves_same) (simp_all add: notify_safe(1), simp_all add: notify_push_tokens_for_offline_message_def case_prod_beta Let_def)

lemma pool_step_ok:
  assumes laws: "queue_laws (app_js A) (stream_of A) V" and codec: "codec_laws (app_lib A)"
    and step: "pool_step A owner P Q" and ok: "pool_ok A V owner P"
  shows "pool_ok A V owner Q \<and> moves A V owner (snd P) (snd Q)"
proof -
  have nd: "node_ok A V owner (snd P)" using ok by (simp add: pool_ok_def)
  note same = moves_refl [OF nd]
  from step show ?thesis
  proof cases
    case (frame tx u ts n e now contents)
    then show ?thesis using ok same by (auto simp: pool_ok_def frame_thread_ok)
  next
    case (redeliver to k relay n ts)
    let ?n = "n\<lparr>nd_tasks := remove1 (Redeliver to k relay) (nd_tasks n)\<rparr>"
    have "task_ok A V (nd_queue ?n) (Redeliver to k relay)" using nd redeliver by (simp add: node_ok_def)
    then have t: "thread_ok A V owner ?n (FindRecipient to k relay)" by simp
    have m: "moves A V owner n ?n" using nd redeliver(1) without_task_moves by simp
    show ?thesis
      using redeliver(1,2) pool_moves [of A V owner ts n ?n "ts @ [FindRecipient to k relay]", OF _ m] ok t m
      by (auto simp del: thread_ok.simps)
  next
    case (notify to author n ts e)
    let ?n = "n\<lparr>nd_tasks := remove1 (Notify to author) (nd_tasks n)\<rparr>"
    have m: "moves A V owner n ?n" using nd notify without_task_moves by fastforce
    then have "node_ok A V owner ?n" by (simp add: moves_def)
    then have "moves A V owner ?n (notify_push_tokens_for_offline_message A e to author ?n)" by (rule notify_moves)
    from moves_trans [OF m this] show ?thesis using notify pool_moves [of A V owner ts n _ ts] ok by auto
  next
    case (database ts n db)
    have "moves A V owner n (n\<lparr>nd_db := db\<rparr>)" by (rule moves_same) (use nd database in simp_all)
    then show ?thesis using database pool_moves [of A V owner ts n _ ts] ok by auto
  next
    case (proceeds t n t' n' ts1 ts2)
    have "goes_well A V owner n (micro A t n)"
      by (rule micro_goes_well [OF laws codec]) (use ok proceeds in \<open>simp_all add: pool_ok_def\<close>)
    then have "moves A V owner n n'" "thread_ok A V owner n' t'" using proceeds by (simp_all add: goes_well_def)
    then show ?thesis
      using proceeds pool_moves [of A V owner "ts1 @ t # ts2" n n' "ts1 @ t' # ts2"] ok by auto
  next
    case (finishes t n n' ts1 ts2)
    have "goes_well A V owner n (micro A t n)"
      by (rule micro_goes_well [OF laws codec]) (use ok finishes in \<open>simp_all add: pool_ok_def\<close>)
    then have "moves A V owner n n'" using finishes by (simp add: goes_well_def)
    then show ?thesis
      using finishes pool_moves [of A V owner "ts1 @ t # ts2" n n' "ts1 @ ts2"] ok by auto
  qed (use ok same in \<open>auto simp: pool_ok_def\<close>)
qed

lemma pool_reach_ok:
  assumes "queue_laws (app_js A) (stream_of A) V" and "codec_laws (app_lib A)" and "pool_reach A owner P Q"
  shows "pool_ok A V owner P \<Longrightarrow> pool_ok A V owner Q \<and> moves A V owner (snd P) (snd Q)"
  using assms(3)
proof induction
  case (pool_here P)
  then show ?case using moves_refl unfolding pool_ok_def by blast
next
  case (pool_later P Q R)
  then show ?case using pool_step_ok [OF assms(1,2) pool_later(2)] moves_trans by blast
qed

text \<open>
  C3: However the handlers interleave: when one of them is about to acknowledge a message, the
  message was handed to a channel of its recipient or waits on the recipient's subject; and whatever
  was kept at any moment, this message included, is still kept at every later one. Handlers start in
  any number, switch between any two accesses to shared state, and are dropped at any point.
\<close>

theorem interleaved_acks_are_kept:
  assumes "queue_laws (app_js A) (stream_of A) V" and "codec_laws (app_lib A)" and "node_ok A V owner n0"
    and "pool_reach A owner ([], n0) (ts, n)" and "pool_reach A owner (ts, n) (ts', n')"
  shows "(Acknowledge at from tx to body \<in> set ts \<longrightarrow> kept A V owner to (sent_message A from body at) n) \<and>
    (kept A V owner u relay n \<longrightarrow> kept A V owner u relay n')"
proof -
  have "pool_ok A V owner ([], n0)" using assms(3) by (simp add: pool_ok_def)
  then have ok: "pool_ok A V owner (ts, n)" using pool_reach_ok [OF assms(1,2,4)] by blast
  then have "moves A V owner n n'" using pool_reach_ok [OF assms(1,2,5)] by simp
  then show ?thesis using ok moves_kept by (auto simp: pool_ok_def)
qed

section \<open>Whole handlers are schedules\<close>

lemma runs_to_pool: "runs_to A t n n' \<Longrightarrow> pool_reach A owner (ts @ [t], n) (ts, n')"
proof (induction rule: runs_to.induct)
  case (ends t n n')
  have "pool_step A owner (ts @ t # [], n) (ts @ [], n')" by (rule pool_step.finishes [OF ends])
  then show ?case using pool_one by fastforce
next
  case (goes t n t' n1 n')
  have "pool_step A owner (ts @ t # [], n) (ts @ t' # [], n1)" by (rule pool_step.proceeds [OF goes(1)])
  then show ?case using pool_reach_trans [OF goes(3) pool_one] by simp
qed

lemma start_and_run:
  "pool_step A owner (ts, n) (ts @ [t], n1) \<Longrightarrow> runs_to A t n1 n' \<Longrightarrow> pool_reach A owner (ts, n) (ts, n')"
  using pool_reach_trans [OF runs_to_pool pool_one] by blast

lemma node_step_pool:
  assumes "node_step A owner n n'"
  shows "pool_reach A owner (ts, n) (ts, n')"
  using assms
proof cases
  case (client tx u e now contents alive)
  then have "n' = snd (handle_client_frame A e now u tx contents n)" by simp
  then show ?thesis using start_and_run [OF pool_step.frame [where owner = owner and tx = tx and u = u, OF client(1)] frame_runs] by simp
next
  case (connect tx u)
  then show ?thesis using start_and_run [OF pool_step.connect [where owner = owner and tx = tx and u = u, OF connect(2)] register_runs] by simp
next
  case (catch_up tx u)
  then show ?thesis using start_and_run [OF pool_step.catch_up [where owner = owner and tx = tx and u = u, OF catch_up(2)] catch_up_runs] by simp
next
  case (disconnect u tx)
  then show ?thesis using start_and_run [OF pool_step.disconnect close_runs] by simp
next
  case (database db)
  then show ?thesis using pool_one [OF pool_step.database] by simp
next
  case (task t e)
  show ?thesis
  proof (cases t)
    case (Redeliver to k relay)
    then show ?thesis
      using start_and_run [OF pool_step.redeliver redeliver_runs] task by (simp add: run_task_def)
  next
    case (Notify to author)
    then show ?thesis using pool_one [OF pool_step.notify] task by (simp add: run_task_def)
  qed
qed


section \<open>Every thread ends\<close>

text \<open>\<open>i\<close> steps of one thread, with any states of the node in between.\<close>

inductive own_steps :: "('q, 'h) app \<Rightarrow> thread \<Rightarrow> nat \<Rightarrow> thread \<Rightarrow> bool" for A where
  no_step: "own_steps A t 0 t"
| one_more: "own_steps A t i t' \<Longrightarrow> micro A t' n = (Some t'', n') \<Longrightarrow> own_steps A t (Suc i) t''"

text \<open>
  C6: A handler is never kept busy by the others. A frame is answered after at most 6 steps of its
  own thread, a catch-up ends after at most 515 (two for each of the 256 messages of a fetch, and
  three), a redelivery after 4, whatever the other threads, JetStream and the database do in between.
\<close>

theorem handlers_end:
  assumes "consumer_laws (app_js A) (stream_of A) V" and "own_steps A t i t'"
  shows "(t = frame_thread A e now from tx text \<longrightarrow> i < 6) \<and> (t = CreateConsumer u tx \<longrightarrow> i < 515) \<and>
    (t = FindRecipient to k relay \<longrightarrow> i < 4)"
proof -
  have "i + steps_left t' \<le> steps_left t" using assms(2)
    by induction (use micro_shortens [OF assms(1)] in \<open>fastforce+\<close>)
  moreover have "0 < steps_left t'" by (cases t') simp_all
  moreover have "steps_left (frame_thread A e now from tx text) \<le> 6"
    by (simp add: frame_thread_def split: option.splits)
  ultimately show ?thesis by auto
qed

section \<open>A schedule\<close>

text \<open>
  Bob's frame is stopped right before its acknowledgement; by then the message is in the queue. Ana
  connects and catches up while it stands there.
\<close>

definition bob_sends :: thread where
  "bob_sends = frame_thread sample_app calm_env (\<lambda>_. 0) (Uuid 2) 5 send_to_ana"

fun after_steps :: "nat \<Rightarrow> ('q, 'h) app \<Rightarrow> thread \<Rightarrow> ('q, 'h) node \<Rightarrow> thread option \<times> ('q, 'h) node" where
  "after_steps 0 A t n = (Some t, n)"
| "after_steps (Suc i) A t n =
     (case micro A t n of (Some t', n') \<Rightarrow> after_steps i A t' n' | (None, n') \<Rightarrow> (None, n'))"

lemma after_steps_pool:
  "after_steps i A t n = (Some t', n') \<Longrightarrow> pool_reach A owner (ts @ [t], n) (ts @ [t'], n')"
proof (induction i arbitrary: t n)
  case (Suc i)
  then obtain t1 n1 where 1: "micro A t n = (Some t1, n1)" "after_steps i A t1 n1 = (Some t', n')"
    by (auto split: prod.splits option.splits)
  show ?case using pool_reach_trans [OF Suc.IH [OF 1(2)] pool_one [OF pool_step.proceeds [where ?ts1.0 = ts and ?ts2.0 = "[]", OF 1(1)]]]
    by simp
qed (simp add: pool_here)

lemma after_steps_own: "after_steps i A t n = (Some t', n') \<Longrightarrow> own_steps A t0 j t \<Longrightarrow> own_steps A t0 (j + i) t'"
proof (induction i arbitrary: t n j)
  case (Suc i)
  then obtain t1 n1 where 1: "micro A t n = (Some t1, n1)" "after_steps i A t1 n1 = (Some t', n')"
    by (auto split: prod.splits option.splits)
  from Suc.IH [OF 1(2) one_more [OF Suc.prems(2) 1(1)]] show ?case by simp
qed simp

definition bob_ready :: "(sample_queue, string list) node" where
  "bob_ready = snd (after_steps 4 sample_app bob_sends sample_node)"

lemma bob_ready: "after_steps 4 sample_app bob_sends sample_node = (Some (Acknowledge 0 (Uuid 2) 5 (Uuid 1) ''aGk=''), bob_ready)"
proof -
  have "case fst (after_steps 4 sample_app bob_sends sample_node) of
      Some (Acknowledge at author tx to body) \<Rightarrow> at = 0 \<and> author = Uuid 2 \<and> tx = 5 \<and> to = Uuid 1 \<and> body = ''aGk=''
    | _ \<Rightarrow> False" by code_simp
  then show ?thesis by (auto simp: bob_ready_def prod_eq_iff split: option.splits thread.splits)
qed

lemma bob_reaches: "pool_reach sample_app channel_owner ([], sample_node) ([Acknowledge 0 (Uuid 2) 5 (Uuid 1) ''aGk=''], bob_ready)"
proof -
  have "pool_step sample_app channel_owner ([], sample_node) ([bob_sends], sample_node)"
    unfolding bob_sends_def
    by (rule pool_step.frame [where ts = "[]" and owner = channel_owner, simplified]) (simp add: channel_owner_def)
  then show ?thesis
    using pool_reach_trans [OF after_steps_pool [OF bob_ready, where ts = "[]"] pool_one] by simp
qed

definition ana_meanwhile :: "(sample_queue, string list) node" where
  "ana_meanwhile = deliver_queued_messages sample_app (Uuid 1) 6
     (bob_ready\<lparr>nd_live := register_connection (Uuid 1) 6 (nd_live bob_ready)\<rparr>)"

lemma ana_meanwhile: "pool_reach sample_app channel_owner (ts, bob_ready) (ts, ana_meanwhile)"
proof -
  have own: "channel_owner 6 = Uuid 1" by (simp add: channel_owner_def)
  show ?thesis
    unfolding ana_meanwhile_def
    by (rule pool_reach_trans [OF node_step_pool node_step_pool], rule node_step.catch_up)
       (simp add: own, rule node_step.connect, simp add: own)
qed

theorem interleaved_acks_are_kept_witness:
  "kept sample_app sample_view channel_owner (Uuid 1) ana_message ana_meanwhile"
  using interleaved_acks_are_kept [OF sample_laws sample_node_ok bob_reaches ana_meanwhile, of 0 "Uuid 2" 5 "Uuid 1" "''aGk=''"
      "Uuid 1" ana_message]
  by (simp add: ana_message_def)


theorem handlers_end_witness:
  "own_steps sample_app bob_sends 4 (Acknowledge 0 (Uuid 2) 5 (Uuid 1) ''aGk='') \<and> 4 < (6::nat)"
proof -
  have "consumer_laws (app_js sample_app) (stream_of sample_app) sample_view"
    using sample_laws(1) by (simp add: queue_laws_def)
  moreover have o: "own_steps sample_app bob_sends (0 + 4) (Acknowledge 0 (Uuid 2) 5 (Uuid 1) ''aGk='')"
    by (rule after_steps_own [OF bob_ready no_step])
  ultimately have "(0::nat) + 4 < 6"
    using handlers_end [of sample_app sample_view bob_sends "0 + 4" "Acknowledge 0 (Uuid 2) 5 (Uuid 1) ''aGk=''"
        calm_env "\<lambda>_. 0" "Uuid 2" 5 send_to_ana]
    by (simp add: bob_sends_def)
  then show ?thesis using o by simp
qed

end
