(* ===== verification/Quic_Client.thy ===== *)
theory Quic_Client
  imports Api_Transport
begin

text \<open>
  The mobile side of the QUIC transport (\<open>packages/quic-relay-client/src/lib.rs\<close>): opening the
  connection and the heuristic that detects a refused token, sending, the reader loop and the
  callbacks it makes, and closing. The functions of \<open>quinn\<close>, of TLS and of the resolver are the
  record \<open>quinn\<close>, on a state \<open>'w\<close> of the network; the error of each is its text.
\<close>

datatype client_error =
    ConnectionFailed string
  | StreamIoFailed string
  | AuthFailed string

definition show_client_error :: "client_error \<Rightarrow> string" where
  "show_client_error err =
     (case err of
        ConnectionFailed msg \<Rightarrow> ''QUIC connection failed: '' @ msg
      | StreamIoFailed msg \<Rightarrow> ''QUIC stream I/O failed: '' @ msg
      | AuthFailed msg \<Rightarrow> ''QUIC auth failed: '' @ msg)"

definition PING_BYTES :: string where "PING_BYTES = ''ping''"
definition MAX_RESPONSE_BYTES :: nat where "MAX_RESPONSE_BYTES = 64 * 1024"
definition CLOSE_CODE_UNAUTHORIZED :: nat where "CLOSE_CODE_UNAUTHORIZED = 4001"
definition AUTH_RESULT_GRACE :: nat where "AUTH_RESULT_GRACE = 200"

text \<open>
  Why a connection closed: by the peer with a code and a reason (as \<open>from_utf8_lossy\<close> shows it), or
  otherwise, with the text of the error.
\<close>

datatype connection_error =
    ApplicationClosed nat string
  | OtherClose string

record ('addr, 'w) quinn =
  lookup_host :: "string \<Rightarrow> nat \<Rightarrow> 'w \<Rightarrow> (string + 'addr list) \<times> 'w"
  client_config :: "nat \<Rightarrow> nat \<Rightarrow> 'w \<Rightarrow> (string + unit) \<times> 'w"
  client_endpoint :: "'w \<Rightarrow> (string + unit) \<times> 'w"
  start_connect :: "'addr \<Rightarrow> string \<Rightarrow> 'w \<Rightarrow> (string + unit) \<times> 'w"
  handshake :: "'w \<Rightarrow> (string + unit) \<times> 'w"
  open_bi :: "'w \<Rightarrow> (string + unit) \<times> 'w"
  write_all :: "string \<Rightarrow> 'w \<Rightarrow> (string + unit) \<times> 'w"
  finish :: "'w \<Rightarrow> (string + unit) \<times> 'w"
  read_to_end :: "nat \<Rightarrow> 'w \<Rightarrow> (string + string) \<times> 'w"
  closed_within :: "nat \<Rightarrow> 'w \<Rightarrow> connection_error option \<times> 'w"
  close_both :: "string \<Rightarrow> 'w \<Rightarrow> 'w"
  close_endpoint :: "string \<Rightarrow> 'w \<Rightarrow> 'w"
  show_closed :: "connection_error \<Rightarrow> string"

section \<open>Opening\<close>

definition resolve_addr :: "('addr, 'w) quinn \<Rightarrow> string \<Rightarrow> nat \<Rightarrow> 'w \<Rightarrow> (client_error + 'addr) \<times> 'w" where
  "resolve_addr Q host_name port =
     and_then
       (map_err (\<lambda>err. ConnectionFailed (''failed to resolve '' @ host_name @ '':'' @ show_nat port @ '': '' @ err))
          (lookup_host Q host_name port))
       (\<lambda>addrs. case addrs of
          [] \<Rightarrow> fails (ConnectionFailed (''no addresses resolved for '' @ host_name @ '':'' @ show_nat port))
        | addr # _ \<Rightarrow> yields addr)"

text \<open>Every certificate is accepted; idle timeout five seconds, a keep-alive every two.\<close>

definition build_dev_client_config :: "('addr, 'w) quinn \<Rightarrow> 'w \<Rightarrow> (client_error + unit) \<times> 'w" where
  "build_dev_client_config Q =
     map_err (\<lambda>err. ConnectionFailed (''failed to build QUIC TLS config: '' @ err)) (client_config Q 5 2)"

text \<open>The steps that \<open>quic_ping_impl\<close> and \<open>connect_impl\<close> share, up to the open stream.\<close>

definition open_stream :: "('addr, 'w) quinn \<Rightarrow> string \<Rightarrow> string \<Rightarrow> nat \<Rightarrow> 'w \<Rightarrow> (client_error + unit) \<times> 'w" where
  "open_stream Q stream_name host_name port =
     and_then (resolve_addr Q host_name port) (\<lambda>remote_addr.
     and_then (build_dev_client_config Q) (\<lambda>_.
     and_then (map_err (\<lambda>err. ConnectionFailed (''failed to bind local UDP socket: '' @ err)) (client_endpoint Q)) (\<lambda>_.
     and_then (map_err (\<lambda>err. ConnectionFailed (''failed to start QUIC connection: '' @ err))
                 (start_connect Q remote_addr host_name)) (\<lambda>_.
     and_then (map_err (\<lambda>err. ConnectionFailed (''QUIC/TLS handshake failed: '' @ err)) (handshake Q)) (\<lambda>_.
       map_err (\<lambda>err. ConnectionFailed (''failed to open '' @ stream_name @ '' stream: '' @ err)) (open_bi Q))))))"

definition quic_ping_impl :: "('addr, 'w) quinn \<Rightarrow> string \<Rightarrow> nat \<Rightarrow> 'w \<Rightarrow> (client_error + string) \<times> 'w" where
  "quic_ping_impl Q host_name port =
     and_then (open_stream Q ''bidirectional'' host_name port) (\<lambda>_.
     and_then (map_err (\<lambda>err. StreamIoFailed (''failed to write ping bytes: '' @ err)) (write_all Q PING_BYTES)) (\<lambda>_.
     and_then (map_err (\<lambda>err. StreamIoFailed (''failed to finish send stream: '' @ err)) (finish Q)) (\<lambda>_.
     and_then (map_err (\<lambda>err. StreamIoFailed (''failed to read echoed response: '' @ err))
                 (read_to_end Q MAX_RESPONSE_BYTES)) (\<lambda>response w.
       yields response (close_both Q ''quic-relay-client spike done'' w)))))"

text \<open>
  What the exported functions make of the spawned task: its result, or, when it panicked, an error
  with the text of the panic.
\<close>

definition panic_message :: "string \<Rightarrow> string" where
  "panic_message join_error = ''internal quic-relay-client task panicked: '' @ join_error"

definition spawned :: "(string \<Rightarrow> client_error) \<Rightarrow> string + (client_error + 'x) \<Rightarrow> client_error + 'x" where
  "spawned mk joined = (case joined of Inr result \<Rightarrow> result | Inl join_error \<Rightarrow> Inl (mk (panic_message join_error)))"

definition quic_ping :: "string + (client_error + string) \<Rightarrow> client_error + string" where
  "quic_ping joined = spawned StreamIoFailed joined"

definition describe_close_reason :: "('addr, 'w) quinn \<Rightarrow> connection_error \<Rightarrow> string" where
  "describe_close_reason Q err =
     (case err of
        ApplicationClosed code reason \<Rightarrow>
          ''closed by peer with application error code '' @ show_nat code @ '' ('' @ reason @ '')''
      | other \<Rightarrow> show_closed Q other)"

definition classify_early_close :: "('addr, 'w) quinn \<Rightarrow> connection_error \<Rightarrow> client_error" where
  "classify_early_close Q err =
     (let failed = ConnectionFailed (''connection closed before auth could be confirmed: '' @ show_closed Q err)
      in case err of
           ApplicationClosed code reason \<Rightarrow>
             if code = CLOSE_CODE_UNAUTHORIZED then AuthFailed (describe_close_reason Q err) else failed
         | OtherClose _ \<Rightarrow> failed)"

definition build_auth_frame :: "lib \<Rightarrow> string \<Rightarrow> string" where
  "build_auth_frame L token =
     show_json L (JObj [(''type'', JStr ''auth''), (''token'', JStr token)]) @ [newline]"

text \<open>The connection of a \<open>connect\<close> that succeeds has a running reader task.\<close>

record quic_connection =
  reader_task :: bool

definition connect_impl :: "('addr, 'w) quinn \<Rightarrow> lib \<Rightarrow> string \<Rightarrow> nat \<Rightarrow> string \<Rightarrow> 'w \<Rightarrow> (client_error + quic_connection) \<times> 'w" where
  "connect_impl Q L host_name port token =
     and_then (open_stream Q ''control'' host_name port) (\<lambda>_.
     and_then (map_err (\<lambda>err. StreamIoFailed (''failed to write auth frame: '' @ err))
                 (write_all Q (build_auth_frame L token))) (\<lambda>_ w.
       (case closed_within Q AUTH_RESULT_GRACE w of
          (Some close_reason, w') \<Rightarrow>
            fails (classify_early_close Q close_reason) (close_endpoint Q ''connect failed'' w')
        | (None, w') \<Rightarrow> yields \<lparr>reader_task = True\<rparr> w')))"

definition connect :: "string + (client_error + quic_connection) \<Rightarrow> client_error + quic_connection" where
  "connect joined = spawned ConnectionFailed joined"

section \<open>Sending, reading, closing\<close>

definition send_client_frame :: "('addr, 'w) quinn \<Rightarrow> string \<Rightarrow> 'w \<Rightarrow> (client_error + unit) \<times> 'w" where
  "send_client_frame Q f =
     and_then (map_err (\<lambda>err. StreamIoFailed (''failed to write frame: '' @ err)) (write_all Q f)) (\<lambda>_.
       map_err (\<lambda>err. StreamIoFailed (''failed to write frame delimiter: '' @ err)) (write_all Q [newline]))"

definition send :: "string + (client_error + unit) \<Rightarrow> client_error + unit" where
  "send joined = spawned StreamIoFailed joined"

text \<open>The callbacks of the listener.\<close>

datatype client_event =
    OnFrame string
  | OnClosed string

fun run_reader_loop :: "('addr, 'w) quinn \<Rightarrow> connection_error option \<Rightarrow> quic_line list \<Rightarrow> client_event list" where
  "run_reader_loop Q closed (Line line # input) = OnFrame (trim_newlines line) # run_reader_loop Q closed input"
| "run_reader_loop Q closed _ =
     [OnClosed (case closed of Some err \<Rightarrow> describe_close_reason Q err | None \<Rightarrow> ''control stream ended'')]"

text \<open>
  \<open>close\<close> takes the reader task out and aborts it, so that of the callbacks still to come none is
  made: with \<open>k\<close> of the loop's steps taken before, the listener has heard \<open>k\<close> callbacks.
\<close>

definition close_quic :: "('addr, 'w) quinn \<Rightarrow> quic_connection \<times> 'w \<Rightarrow> quic_connection \<times> 'w" where
  "close_quic Q st = ((fst st)\<lparr>reader_task := False\<rparr>, close_both Q ''closed by client'' (snd st))"

definition heard :: "('addr, 'w) quinn \<Rightarrow> connection_error option \<Rightarrow> quic_line list \<Rightarrow> nat option \<Rightarrow> client_event list" where
  "heard Q closed input closed_after =
     (case closed_after of
        None \<Rightarrow> run_reader_loop Q closed input
      | Some k \<Rightarrow> take k (run_reader_loop Q closed input))"

section \<open>What arrives on the stream\<close>

text \<open>
  \<open>read_line\<close> over the bytes that arrived: each line with its end; then, when the stream failed, an
  error, and when it was finished, the rest if there is one. A line that is no UTF-8 is an error.
\<close>

definition line_of :: "string \<Rightarrow> quic_line" where
  "line_of l = (if valid_utf8 l then Line l else LineError)"

definition received :: "bool \<Rightarrow> string \<Rightarrow> quic_line list" where
  "received failed bytes =
     (let ps = split_on newline bytes
      in map (\<lambda>l. line_of (l @ [newline])) (butlast ps) @
         (if failed then [LineError] else if last ps = [] then [] else [line_of (last ps)]))"

lemma received_line:
  "newline \<notin> set t \<Longrightarrow> received f (t @ newline # p) = line_of (t @ [newline]) # received f p"
  by (simp add: received_def split_on_Cons Let_def)

lemma received_part: "newline \<notin> set p \<Longrightarrow> received True p = [LineError]"
  by (simp add: received_def split_on_free Let_def)

lemma newline_ascii: "is_ascii newline"
  by (simp add: is_ascii_def byte_def)

section \<open>The handshake\<close>

text \<open>
  What \<open>serde_json\<close> does with the auth frame of a token: it comes back from its text, which is one
  line of UTF-8.
\<close>

definition auth_frame_laws :: "lib \<Rightarrow> string \<Rightarrow> bool" where
  "auth_frame_laws L token \<longleftrightarrow>
     (let v = JObj [(''type'', JStr ''auth''), (''token'', JStr token)]
      in parse_json L (show_json L v) = Some v \<and> valid_utf8 (show_json L v) \<and>
         newline \<notin> set (show_json L v) \<and> carriage_return \<notin> set (show_json L v))"

lemma trim_newlines_line: "newline \<notin> set t \<Longrightarrow> carriage_return \<notin> set t \<Longrightarrow> trim_newlines (t @ [newline]) = t"
  by (cases t rule: rev_cases) (auto simp: trim_newlines_def)

lemma auth_frame_line:
  assumes "auth_frame_laws L token"
  obtains t where "received f (build_auth_frame L token @ rest) = Line (t @ [newline]) # received f rest"
    "parse_json L (trim_newlines (t @ [newline])) = Some (JObj [(''type'', JStr ''auth''), (''token'', JStr token)])"
proof
  let ?t = "show_json L (JObj [(''type'', JStr ''auth''), (''token'', JStr token)])"
  have "line_of (?t @ [newline]) = Line (?t @ [newline])"
    using assms by (simp add: line_of_def auth_frame_laws_def Let_def valid_utf8_snoc_ascii newline_ascii)
  then show "received f (build_auth_frame L token @ rest) = Line (?t @ [newline]) # received f rest"
    using assms received_line [of ?t f rest] by (simp add: build_auth_frame_def auth_frame_laws_def Let_def)
  show "parse_json L (trim_newlines (?t @ [newline])) = Some (JObj [(''type'', JStr ''auth''), (''token'', JStr token)])"
    using assms by (simp add: trim_newlines_line auth_frame_laws_def Let_def)
qed

lemma connect_auth_failed:
  "fst (connect_impl Q L host_name port token w) = Inl (AuthFailed msg) \<longleftrightarrow>
     (\<exists>w1 w2 reason. open_stream Q ''control'' host_name port w = (Inr (), w1) \<and>
        write_all Q (build_auth_frame L token) w1 = (Inr (), w2) \<and>
        fst (closed_within Q 200 w2) = Some (ApplicationClosed 4001 reason) \<and>
        msg = describe_close_reason Q (ApplicationClosed 4001 reason))"
proof -
  obtain r w1 where o: "open_stream Q ''control'' host_name port w = (r, w1)" by (rule prod.exhaust)
  obtain r2 w2 where wr: "write_all Q (build_auth_frame L token) w1 = (r2, w2)" by (rule prod.exhaust)
  obtain cl w3 where c: "closed_within Q 200 w2 = (cl, w3)" by (rule prod.exhaust)
  show ?thesis
  proof (cases r)
    case (Inl err)
    have "err \<noteq> AuthFailed msg"
      using o Inl
      by (auto simp: open_stream_def resolve_addr_def build_dev_client_config_def and_then_def map_err_def
          fails_def yields_def split: prod.splits sum.splits list.splits)
    then show ?thesis using o Inl by (simp add: connect_impl_def)
  next
    case (Inr u)
    then show ?thesis
      using o wr c
      by (cases r2; cases cl)
         (auto simp: connect_impl_def map_err_def and_then_def fails_def yields_def AUTH_RESULT_GRACE_def
            CLOSE_CODE_UNAUTHORIZED_def classify_early_close_def Let_def
            split: connection_error.splits if_splits)
  qed
qed

text \<open>
  C18: Client and server agree on the first frame. Whatever the client writes after it, the server
  reads the client's auth frame back and authenticates exactly the client's token; and the client
  reports a refused token exactly when, the frame being written, the peer closes the connection with
  code 4001 within the 200 ms of grace: no other failure to connect is taken for one.
\<close>

theorem client_server_handshake:
  assumes "auth_frame_laws L token"
  shows "authenticate_first_frame B L (received failed (build_auth_frame L token @ rest)) a =
      (case authenticate_token B L token a of
         (Some (user, _), a') \<Rightarrow> (Some (u_id user), a')
       | (None, a') \<Rightarrow> (None, a')) \<and>
    (fst (connect_impl Q L host_name port token w) = Inl (AuthFailed msg) \<longleftrightarrow>
     (\<exists>w1 w2 reason. open_stream Q ''control'' host_name port w = (Inr (), w1) \<and>
        write_all Q (build_auth_frame L token) w1 = (Inr (), w2) \<and>
        fst (closed_within Q 200 w2) = Some (ApplicationClosed CLOSE_UNAUTHORIZED reason) \<and>
        msg = describe_close_reason Q (ApplicationClosed CLOSE_UNAUTHORIZED reason)))"
proof -
  obtain t where t: "received failed (build_auth_frame L token @ rest) = Line (t @ [newline]) # received failed rest"
    "parse_json L (trim_newlines (t @ [newline])) = Some (JObj [(''type'', JStr ''auth''), (''token'', JStr token)])"
    by (rule auth_frame_line [OF assms])
  have "authenticate_first_frame B L (received failed (build_auth_frame L token @ rest)) a =
      (case authenticate_token B L token a of
         (Some (user, _), a') \<Rightarrow> (Some (u_id user), a') | (None, a') \<Rightarrow> (None, a'))"
    by (simp add: authenticate_first_frame_def t)
  then show ?thesis by (simp add: connect_auth_failed CLOSE_UNAUTHORIZED_def)
qed

lemma sample_auth_frame_laws: "auth_frame_laws sample_lib ''tok''"
proof -
  let ?v = "JObj [(''type'', JStr ''auth''), (''token'', JStr ''tok'')]"
  have "parse_json sample_lib (show_json sample_lib ?v) = Some ?v"
    using sample_parse_show [of "[(''type'', JStr ''auth''), (''token'', JStr ''tok'')]"]
    by (simp add: sample_lib_def)
  moreover have "valid_utf8 (show_json sample_lib ?v)" by code_simp
  moreover have "newline \<notin> set (show_json sample_lib ?v)" "carriage_return \<notin> set (show_json sample_lib ?v)"
    by code_simp+
  ultimately show ?thesis by (simp add: auth_frame_laws_def Let_def)
qed

theorem client_server_handshake_witness:
  "\<forall>B a. authenticate_first_frame B sample_lib (received True (build_auth_frame sample_lib ''tok'' @ ''more'')) a =
     (case authenticate_token B sample_lib ''tok'' a of
        (Some (user, _), a') \<Rightarrow> (Some (u_id user), a')
      | (None, a') \<Rightarrow> (None, a'))"
  by (intro allI client_server_handshake [OF sample_auth_frame_laws, THEN conjunct1])

section \<open>What the listener hears\<close>

text \<open>The bytes that a connection writes before its close.\<close>

fun sent_bytes :: "wire list \<Rightarrow> string" where
  "sent_bytes (QuicBytes s # ws) = s @ sent_bytes ws"
| "sent_bytes _ = []"

lemma sent_bytes_forward:
  "sent_bytes (quic_forward (\<lambda>_. True) i (map Text ts @ [Close code reason])) = unlines ts"
  by (induction ts arbitrary: i) simp_all

definition plain_frame :: "string \<Rightarrow> bool" where
  "plain_frame t \<longleftrightarrow> valid_utf8 t \<and> newline \<notin> set t \<and> carriage_return \<notin> set t"

lemma reader_loop_prefix:
  "list_all plain_frame ts \<Longrightarrow> unlines ts = p @ q \<Longrightarrow>
     \<exists>k. run_reader_loop Q closed (received True p) =
         map OnFrame (take k ts) @ run_reader_loop Q closed [] \<and> (q = [] \<longrightarrow> take k ts = ts)"
proof (induction ts arbitrary: p)
  case Nil
  then show ?case by (simp add: received_part)
next
  case (Cons t ts)
  have t: "valid_utf8 t" "newline \<notin> set t" "carriage_return \<notin> set t"
    using Cons.prems(1) by (simp_all add: plain_frame_def)
  from Cons.prems(2) have "t @ newline # unlines ts = p @ q" by simp
  then consider (inside) u where "t = p @ u" "q \<noteq> []" | (beyond) p' where "p = t @ newline # p'" "unlines ts = p' @ q"
    by (auto simp: append_eq_append_conv2 Cons_eq_append_conv)
  then show ?case
  proof cases
    case inside
    then have "received True p = [LineError]" using t(2) by (intro received_part) simp
    then show ?thesis using inside(2) by (intro exI [of _ 0]) simp
  next
    case beyond
    then obtain k where k: "run_reader_loop Q closed (received True p') =
        map OnFrame (take k ts) @ run_reader_loop Q closed []" "q = [] \<longrightarrow> take k ts = ts"
      using Cons.IH [of p'] Cons.prems(1) by auto
    have "received True p = Line (t @ [newline]) # received True p'"
      using beyond(1) t received_line [of t True p']
      by (simp add: line_of_def valid_utf8_snoc_ascii newline_ascii)
    then show ?thesis using k t by (intro exI [of _ "Suc k"]) (simp add: trim_newlines_line)
  qed
qed

text \<open>
  C19: A client hears what the server sent it, over the wire and through both loops. If the server
  forwards texts and then closes with a code, and any prefix of its bytes arrives before the stream
  fails, the listener gets the texts of the complete lines, each once and in order, and then exactly
  one notice, which names the code and the reason; with all bytes arrived it gets every text.
\<close>

theorem client_hears_server:
  assumes "list_all plain_frame ts"
    and "sent_bytes (quic_forward (\<lambda>_. True) i (map Text ts @ [Close code reason])) = p @ q"
  shows "\<exists>k. run_reader_loop Q (Some (ApplicationClosed code reason)) (received True p) =
      map OnFrame (take k ts) @
        [OnClosed (''closed by peer with application error code '' @ show_nat code @ '' ('' @ reason @ '')'')] \<and>
    (q = [] \<longrightarrow> take k ts = ts)"
  using reader_loop_prefix [OF assms(1), of p q Q "Some (ApplicationClosed code reason)"] assms(2)
  by (simp add: sent_bytes_forward describe_close_reason_def)

theorem client_hears_server_witness:
  "\<forall>Q. \<exists>k. run_reader_loop Q (Some (ApplicationClosed 4002 ''replaced'')) (received True (''hi'' @ [newline] @ ''y'')) =
      map OnFrame (take k [''hi'', ''you'']) @
        [OnClosed (''closed by peer with application error code '' @ show_nat 4002 @ '' ('' @ ''replaced'' @ '')'')]"
proof
  fix Q :: "('a, 'b) quinn"
  have "list_all plain_frame [''hi'', ''you'']" by code_simp
  moreover have "sent_bytes (quic_forward (\<lambda>_. True) 0 (map Text [''hi'', ''you''] @ [Close 4002 ''replaced''])) =
      (''hi'' @ [newline] @ ''y'') @ (''ou'' @ [newline])" by simp
  ultimately show "\<exists>k. run_reader_loop Q (Some (ApplicationClosed 4002 ''replaced'')) (received True (''hi'' @ [newline] @ ''y'')) =
      map OnFrame (take k [''hi'', ''you'']) @
        [OnClosed (''closed by peer with application error code '' @ show_nat 4002 @ '' ('' @ ''replaced'' @ '')'')]"
    using client_hears_server [where Q = Q and i = 0] by blast
qed



end
