(* ===== verification/Epistl_Journey.thy ===== *)
theory Epistl_Journey
  imports Api_Delivery Quic_Client
begin

text \<open>
  A message's way through the whole system: out of the offline queue, through the connection that
  the QUIC client opens, over the wire and through the client's reader loop to its listener.
\<close>

section \<open>Channels only grow\<close>

definition inboxes_grow :: "('q, 'h) node \<Rightarrow> ('q, 'h) node \<Rightarrow> bool" where
  "inboxes_grow n n' \<longleftrightarrow> (\<forall>c. \<exists>fs. inbox (nd_live n') c = inbox (nd_live n) c @ fs)"

lemma inboxes_grow_same: "inbox (nd_live n') = inbox (nd_live n) \<Longrightarrow> inboxes_grow n n'"
  by (simp add: inboxes_grow_def)

lemma inboxes_grow_trans: "inboxes_grow n n' \<Longrightarrow> inboxes_grow n' n'' \<Longrightarrow> inboxes_grow n n''"
  unfolding inboxes_grow_def by (metis append_assoc)

lemma inboxes_grow_send [simp]: "inboxes_grow n (snd (send_text A tx v n))"
  by (simp add: inboxes_grow_def send_text_inbox)

lemma send_grows: "inbox (nd_live n1) = inbox (nd_live n) \<Longrightarrow> inboxes_grow n (snd (send_text A tx v n1))"
  by (simp add: inboxes_grow_def send_text_inbox)

lemma queue_offline_grows: "inboxes_grow n (snd (queue_for_offline_delivery A t from to body tx n))"
  by (auto simp: queue_for_offline_delivery_def Let_def send_error_def case_prod_beta split: option.splits
      intro: send_grows)

lemma handle_frame_grows: "inboxes_grow n (snd (handle_client_frame A e now from tx s n))"
proof -
  have "inboxes_grow n (snd (handle_send A e now from tx v n))" for v
  proof -
    have s: "inboxes_grow n (snd (send_text A rc w (n\<lparr>nd_db := db\<rparr>)))" for rc w db by (rule send_grows) simp
    have q: "inboxes_grow n (snd (queue_for_offline_delivery A t from to body tx (n\<lparr>nd_db := db\<rparr>)))" for t to body db
      by (rule inboxes_grow_trans [OF inboxes_grow_same queue_offline_grows]) simp
    show ?thesis
      using s q inboxes_grow_trans [OF s queue_offline_grows] inboxes_grow_trans [OF s inboxes_grow_send]
      by (auto simp: handle_send_def send_error_def Let_def case_prod_beta split: option.splits)
  qed
  then show ?thesis
    by (auto simp: handle_client_frame_def send_error_def split: option.splits)
qed

lemma ws_serve_grows: "inboxes_grow n (ws_serve A e now u tx i items n)"
proof (induction items arbitrary: i n)
  case (Cons item items)
  show ?case
  proof (cases item)
    case (ItemText s)
    obtain alive n' where h: "handle_client_frame A (e i) (now i) u tx s n = (alive, n')" by (rule prod.exhaust)
    then have "inboxes_grow n n'" using handle_frame_grows by (metis snd_conv)
    then show ?thesis using inboxes_grow_trans [OF _ Cons.IH] by (simp add: ItemText h)
  qed (use Cons.IH in \<open>simp_all add: inboxes_grow_same\<close>)
qed (simp add: inboxes_grow_same)

section \<open>From the queue to the listener\<close>

text \<open>The text that a queued message is relayed as.\<close>

definition relay_text :: "('q, 'h) app \<Rightarrow> string \<Rightarrow> string" where
  "relay_text A payload =
     show_json (app_lib A) (relay_of_payload (the (parse_json (app_lib A) payload)))"

lemma sent_bytes_texts:
  "sent_bytes (quic_forward (\<lambda>_. True) i (map Text ts @ fs)) = unlines ts @ sent_bytes (quic_forward (\<lambda>_. True) (i + 2 * length ts) fs)"
  by (induction ts arbitrary: i) (simp_all add: numeral_2_eq_2)

lemma reader_hears_texts:
  "list_all plain_frame ts \<Longrightarrow>
     run_reader_loop Q closed (received f (unlines ts @ rest)) = map OnFrame ts @ run_reader_loop Q closed (received f rest)"
proof (induction ts)
  case (Cons t ts)
  then have t: "valid_utf8 t" "newline \<notin> set t" "carriage_return \<notin> set t" by (simp_all add: plain_frame_def)
  then show ?case
    using Cons received_line [of t f "unlines ts @ rest"]
    by (simp add: line_of_def valid_utf8_snoc_ascii newline_ascii trim_newlines_line)
qed simp

lemma connect_catches_up:
  assumes laws: "queue_laws (app_js A) (stream_of A) V" and ok: "payloads_ok A V (nd_queue n)"
    and fresh: "inbox (nd_live n) tx = []" "registry (nd_live n) u \<noteq> Some tx"
    and served: "catch_up_served A V u n"
  shows "inbox (nd_live (deliver_queued_messages A u tx (n\<lparr>nd_live := register_connection u tx (nd_live n)\<rparr>))) tx =
    map Text (map (relay_text A) (map snd (take 256 (queued V (nd_queue n) (subject_of A u)))))"
proof -
  let ?n = "n\<lparr>nd_live := register_connection u tx (nd_live n)\<rparr>"
  let ?q = "queued V (nd_queue n) (subject_of A u)"
  have reg: "receiving (nd_live ?n) tx" "inbox (nd_live ?n) tx = []"
    using fresh by (auto simp: register_connection_def registry_insert_def Let_def send_frame_inbox split: option.splits)
  obtain q1 where 1: "js_create_consumer (app_js A) (stream_of A) (subject_of A u) (nd_queue ?n) = (True, q1)"
    using served by (auto simp: catch_up_served_def)
  obtain q2 where 2: "js_fetch (app_js A) (stream_of A) (subject_of A u) 256 300 q1 = (Some (take 256 ?q), q2)"
    using served 1
    by (cases "js_fetch (app_js A) (stream_of A) (subject_of A u) 256 300 q1")
       (simp add: catch_up_served_def MAX_QUEUED_MESSAGES_PER_FETCH_def QUEUED_MESSAGES_FETCH_TIMEOUT_def)
  have parse: "\<forall>m \<in> set (take 256 ?q). parse_json (app_lib A) (snd m) \<noteq> None"
    using ok in_set_takeD [of _ 256 ?q] unfolding payloads_ok_def by blast
  show ?thesis
    using catch_up_in_order [OF 1 2, of tx] reg
    by (simp add: parsable_all [OF parse] case_prod_beta comp_def relay_text_def)
qed


lemma sample_auth_frame_laws_t: "auth_frame_laws sample_lib ''t''"
proof -
  let ?v = "JObj [(''type'', JStr ''auth''), (''token'', JStr ''t'')]"
  have "parse_json sample_lib (show_json sample_lib ?v) = Some ?v"
    using sample_parse_show [of "[(''type'', JStr ''auth''), (''token'', JStr ''t'')]"]
    by (simp add: sample_lib_def)
  moreover have "valid_utf8 (show_json sample_lib ?v) \<and> newline \<notin> set (show_json sample_lib ?v) \<and>
      carriage_return \<notin> set (show_json sample_lib ?v)"
    by code_simp
  ultimately show ?thesis by (simp add: auth_frame_laws_def Let_def)
qed

text \<open>Ana's client connects with the token \<open>t\<close> and then sends nothing but noise.\<close>

definition ana_dials :: "(sample_queue, string list) node" where
  "ana_dials = snd (snd (handle_connection sample_auth sample_app (\<lambda>_. calm_env) (\<lambda>_ _. 0) 6
     (Some (received True (build_auth_frame sample_lib ''t'' @ ''noise''))) ((), after_send)))"


end
