(* ===== verification/Dev_Machine.thy ===== *)
theory Dev_Machine
  imports Epistl_Prelude "HOL-Library.State_Monad"
begin

text \<open>
  The machine that the developer setup (\<open>packages/dev-setup\<close>) runs on, and the two traits through
  which the tools look at it: \<open>CommandExecutor\<close> (\<open>checks.rs\<close>) and \<open>Environment\<close>
  (\<open>environment.rs\<close>). The operating system is the record \<open>machine\<close> of functions on a state
  \<open>'w\<close>; the program is a state action, composed with the \<open>do\<close> notation of \<open>State_Monad\<close>. Text that
  a process prints is kept as \<open>from_utf8_lossy\<close> shows it.
\<close>

named_theorems keeps_intros \<open>preservation of a property of the machine by an action\<close>

section \<open>The operating system\<close>

record 'w machine =
  spawn :: "string \<Rightarrow> string list \<Rightarrow> 'w \<Rightarrow> (string + bool \<times> string \<times> string) \<times> 'w"
  spawn_status :: "string \<Rightarrow> string list \<Rightarrow> 'w \<Rightarrow> (string + bool \<times> string) \<times> 'w"
  os_name :: string
  arch_name :: string
  get_var :: "string \<Rightarrow> 'w \<Rightarrow> string option"
  set_var :: "string \<Rightarrow> string \<Rightarrow> 'w \<Rightarrow> 'w"
  file_exists :: "string \<Rightarrow> 'w \<Rightarrow> bool"
  is_dir :: "string \<Rightarrow> 'w \<Rightarrow> bool"
  is_file :: "string \<Rightarrow> 'w \<Rightarrow> bool"
  read_dir :: "string \<Rightarrow> 'w \<Rightarrow> string + string list"
  read_text :: "string \<Rightarrow> 'w \<Rightarrow> string + string"
  write_text :: "string \<Rightarrow> string \<Rightarrow> 'w \<Rightarrow> (string + unit) \<times> 'w"
  make_dirs :: "string \<Rightarrow> 'w \<Rightarrow> (string + unit) \<times> 'w"
  copy_file :: "string \<Rightarrow> string \<Rightarrow> 'w \<Rightarrow> (string + unit) \<times> 'w"
  stdin_tty :: "'w \<Rightarrow> bool"
  next_line :: "'w \<Rightarrow> (string + string) \<times> 'w"
  put_text :: "string \<Rightarrow> 'w \<Rightarrow> 'w"
  put_error :: "string \<Rightarrow> 'w \<Rightarrow> 'w"
  pause :: "nat \<Rightarrow> 'w \<Rightarrow> 'w"

type_synonym ('w, 'x) action = "('w, 'x) state"

abbreviation ret :: "'x \<Rightarrow> ('w, 'x) action" where
  "ret \<equiv> State_Monad.return"

text \<open>An action looks at the state, changes it, or does both.\<close>

definition look :: "('w \<Rightarrow> 'x) \<Rightarrow> ('w, 'x) action" where
  "look f = State (\<lambda>w. (f w, w))"

definition change :: "('w \<Rightarrow> 'w) \<Rightarrow> ('w, unit) action" where
  "change f = State (\<lambda>w. ((), f w))"

lemma run_look [simp]: "run_state (look f) w = (f w, w)"
  by (simp add: look_def)

lemma run_change [simp]: "run_state (change f) w = ((), f w)"
  by (simp add: change_def)

text \<open>\<open>println!\<close>, \<open>print!\<close> and \<open>eprintln!\<close>.\<close>

definition println :: "'w machine \<Rightarrow> string \<Rightarrow> ('w, unit) action" where
  "println M s = change (put_text M (s @ [newline]))"

definition print_text :: "'w machine \<Rightarrow> string \<Rightarrow> ('w, unit) action" where
  "print_text M s = change (put_text M s)"

definition eprintln :: "'w machine \<Rightarrow> string \<Rightarrow> ('w, unit) action" where
  "eprintln M s = change (put_error M (s @ [newline]))"

text \<open>The dash and the arrow of the messages, in UTF-8.\<close>

definition em_dash :: string where "em_dash = [CHR 0xE2, CHR 0x80, CHR 0x94]"
definition right_arrow :: string where "right_arrow = [CHR 0xE2, CHR 0x86, CHR 0x92]"

section \<open>Paths\<close>

text \<open>\<open>Path::join\<close>: an absolute path replaces, otherwise one separator goes between.\<close>

definition path_join :: "string \<Rightarrow> string \<Rightarrow> string" where
  "path_join a b =
     (if b \<noteq> [] \<and> hd b = CHR ''/'' then b
      else if a = [] \<or> last a = CHR ''/'' then a @ b
      else a @ ''/'' @ b)"

section \<open>Running commands\<close>

record command_output =
  status_ok :: bool
  stdout :: string
  stderr :: string

definition failure_detail :: "command_output \<Rightarrow> string" where
  "failure_detail r =
     (let err = trim (stderr r); out = trim (stdout r)
      in if err \<noteq> [] then err else if out \<noteq> [] then out else ''no output'')"

definition text_of :: "command_output \<Rightarrow> string" where
  "text_of r = (let out = trim (stdout r) in if out \<noteq> [] then out else trim (stderr r))"

definition run_output :: "'w machine \<Rightarrow> string \<Rightarrow> string list \<Rightarrow> ('w, command_output) action" where
  "run_output M program args =
     State (\<lambda>w. case spawn M program args w of
        (Inr (ok, out, err), w') \<Rightarrow> (\<lparr>status_ok = ok, stdout = out, stderr = err\<rparr>, w')
      | (Inl e, w') \<Rightarrow> (\<lparr>status_ok = False, stdout = [], stderr = e\<rparr>, w'))"

definition run_command :: "'w machine \<Rightarrow> string \<Rightarrow> string list \<Rightarrow> ('w, string option) action" where
  "run_command M program args =
     do { r \<leftarrow> run_output M program args;
          ret (if status_ok r then Some (text_of r) else None) }"

text \<open>\<open>exec.run(..).is_some()\<close>.\<close>

definition succeeds :: "'w machine \<Rightarrow> string \<Rightarrow> string list \<Rightarrow> ('w, bool) action" where
  "succeeds M program args = do { r \<leftarrow> run_command M program args; ret (r \<noteq> None) }"

section \<open>The environment trait\<close>

definition environment_var :: "'w machine \<Rightarrow> string \<Rightarrow> ('w, string option) action" where
  "environment_var M name = look (get_var M name)"

definition environment_path_exists :: "'w machine \<Rightarrow> string \<Rightarrow> ('w, bool) action" where
  "environment_path_exists M path = look (file_exists M path)"

definition dir_has_entries :: "'w machine \<Rightarrow> string \<Rightarrow> ('w, bool) action" where
  "dir_has_entries M path =
     look (\<lambda>w. case read_dir M path w of Inr entries \<Rightarrow> entries \<noteq> [] | Inl _ \<Rightarrow> False)"

section \<open>Properties of the machine that an action keeps\<close>

definition keeps :: "('w \<Rightarrow> bool) \<Rightarrow> ('w, 'x) action \<Rightarrow> bool" where
  "keeps P m \<longleftrightarrow> (\<forall>w. P w \<longrightarrow> P (snd (run_state m w)))"

lemma keepsD: "keeps P m \<Longrightarrow> P w \<Longrightarrow> run_state m w = (x, w') \<Longrightarrow> P w'"
  by (metis keeps_def snd_conv)

lemma keeps_ret [keeps_intros]: "keeps P (ret x)"
  by (simp add: keeps_def)

lemma keeps_look [keeps_intros]: "keeps P (look f)"
  by (simp add: keeps_def)

lemma keeps_change: "(\<And>w. P w \<Longrightarrow> P (f w)) \<Longrightarrow> keeps P (change f)"
  by (simp add: keeps_def)

lemma keeps_bind [keeps_intros]:
  "keeps P m \<Longrightarrow> (\<And>x. keeps P (f x)) \<Longrightarrow> keeps P (State_Monad.bind m f)"
  by (simp add: keeps_def case_prod_beta)

lemma keeps_if [keeps_intros]:
  "(c \<Longrightarrow> keeps P m) \<Longrightarrow> (\<not> c \<Longrightarrow> keeps P n) \<Longrightarrow> keeps P (if c then m else n)"
  by simp

lemma keeps_option [keeps_intros]:
  "(v = None \<Longrightarrow> keeps P m) \<Longrightarrow> (\<And>x. v = Some x \<Longrightarrow> keeps P (f x)) \<Longrightarrow>
     keeps P (case v of None \<Rightarrow> m | Some x \<Rightarrow> f x)"
  by (cases v) simp_all

lemma keeps_sum [keeps_intros]:
  "(\<And>e. v = Inl e \<Longrightarrow> keeps P (g e)) \<Longrightarrow> (\<And>x. v = Inr x \<Longrightarrow> keeps P (f x)) \<Longrightarrow>
     keeps P (case v of Inl e \<Rightarrow> g e | Inr x \<Rightarrow> f x)"
  by (cases v) simp_all

lemma keeps_prod [keeps_intros]: "(\<And>x y. v = (x, y) \<Longrightarrow> keeps P (f x y)) \<Longrightarrow> keeps P (case v of (x, y) \<Rightarrow> f x y)"
  by (cases v) simp

lemma keeps_let [keeps_intros]: "(\<And>x. keeps P (f x)) \<Longrightarrow> keeps P (let x = v in f x)"
  by simp

text \<open>A command the machine keeps the property under.\<close>

definition harmless :: "'w machine \<Rightarrow> ('w \<Rightarrow> bool) \<Rightarrow> string \<times> string list \<Rightarrow> bool" where
  "harmless M P cmd \<longleftrightarrow> (\<forall>w. P w \<longrightarrow> P (snd (spawn M (fst cmd) (snd cmd) w)))"

lemma keeps_run_output: "harmless M P (program, args) \<Longrightarrow> keeps P (run_output M program args)"
  by (auto simp: keeps_def harmless_def run_output_def split: prod.splits sum.splits)

lemma keeps_run: "harmless M P (program, args) \<Longrightarrow> keeps P (run_command M program args)"
  unfolding run_command_def by (intro keeps_intros keeps_run_output)

lemma keeps_succeeds: "harmless M P (program, args) \<Longrightarrow> keeps P (succeeds M program args)"
  unfolding succeeds_def by (intro keeps_intros keeps_run)

lemma keeps_environment [keeps_intros]:
  "keeps P (environment_var M name)"
  "keeps P (environment_path_exists M path)"
  "keeps P (dir_has_entries M path)"
  by (simp_all add: environment_var_def environment_path_exists_def dir_has_entries_def keeps_look)

end
