(* ===== verification/Dev_Checks.thy ===== *)
theory Dev_Checks
  imports Dev_Machine
begin

text \<open>
  What the developer setup finds out before it acts: the command-line flags (\<open>flags.rs\<close>), the host
  platform (\<open>platform.rs\<close>), the prompts (\<open>prompt.rs\<close>) and the detect-only checks with their report
  lines (\<open>checks.rs\<close>, \<open>lib.rs\<close>).
\<close>

section \<open>Flags\<close>

record flags =
  fl_check :: bool
  fl_yes :: bool
  fl_start :: bool
  fl_no_start :: bool
  fl_skip_mobile :: bool

definition parse_flag :: "flags \<Rightarrow> string \<Rightarrow> flags" where
  "parse_flag fl arg =
     (if arg = ''--check'' then fl\<lparr>fl_check := True\<rparr>
      else if arg = ''--yes'' \<or> arg = ''-y'' then fl\<lparr>fl_yes := True\<rparr>
      else if arg = ''--start'' then fl\<lparr>fl_start := True\<rparr>
      else if arg = ''--no-start'' then fl\<lparr>fl_no_start := True\<rparr>
      else if arg = ''--skip-mobile'' then fl\<lparr>fl_skip_mobile := True\<rparr>
      else fl)"

definition parse_flags :: "string list \<Rightarrow> flags" where
  "parse_flags args =
     foldl parse_flag
       \<lparr>fl_check = False, fl_yes = False, fl_start = False, fl_no_start = False, fl_skip_mobile = False\<rparr> args"

section \<open>Platform\<close>

datatype os_kind = Macos | Linux
datatype distro_family = Apt | Dnf | Pacman

record platform =
  pf_os :: os_kind
  pf_arch :: string
  pf_distro :: "distro_family option"
  pf_is_wsl :: bool
  pf_home :: string

text \<open>\<open>&s[1..s.len() - 1]\<close> panics (\<open>None\<close>) for a text of one byte, whose range would end before it starts.\<close>

definition unquote :: "string \<Rightarrow> string option" where
  "unquote s =
     (let t = trim s
      in if t \<noteq> [] \<and> (hd t = CHR 0x22 \<and> last t = CHR 0x22 \<or> hd t = CHR 0x27 \<and> last t = CHR 0x27)
         then (if length t = 1 then None else Some (butlast (tl t)))
         else Some t)"

text \<open>The assignments to \<open>id\<close> and \<open>id_like\<close> by the lines, the later ones winning.\<close>

fun distro_ids :: "string list \<Rightarrow> string \<times> string \<Rightarrow> (string \<times> string) option" where
  "distro_ids [] acc = Some acc"
| "distro_ids (line # ls) (id_text, id_like) =
     (case strip_prefix ''ID='' line of
        Some rest \<Rightarrow>
          (case unquote rest of None \<Rightarrow> None | Some s \<Rightarrow> distro_ids ls (to_ascii_lowercase s, id_like))
      | None \<Rightarrow>
          (case strip_prefix ''ID_LIKE='' line of
             Some rest \<Rightarrow>
               (case unquote rest of None \<Rightarrow> None | Some s \<Rightarrow> distro_ids ls (id_text, to_ascii_lowercase s))
           | None \<Rightarrow> distro_ids ls (id_text, id_like)))"

definition parse_distro_family :: "string \<Rightarrow> (string + distro_family) option" where
  "parse_distro_family os_release =
     map_option
       (\<lambda>(id_text, id_like).
          let haystack = '' '' @ id_text @ '' '' @ id_like @ '' ''
          in if contains haystack '' debian '' \<or> contains haystack '' ubuntu '' then Inr Apt
             else if contains haystack '' rhel '' \<or> contains haystack '' fedora '' \<or> contains haystack '' centos '' \<or>
                contains haystack '' rocky '' \<or> contains haystack '' alma '' then Inr Dnf
             else if contains haystack '' arch '' then Inr Pacman
             else Inl (''unsupported Linux distro (ID='' @ id_text @ ''). Supported families: apt, dnf, pacman''))
       (distro_ids (lines os_release) ([], []))"

definition detect_distro :: "'w machine \<Rightarrow> 'w \<Rightarrow> (string + distro_family) option" where
  "detect_distro M w =
     (case read_text M ''/etc/os-release'' w of
        Inl _ \<Rightarrow> Some (Inl ''cannot read /etc/os-release; unsupported Linux environment'')
      | Inr contents \<Rightarrow> parse_distro_family contents)"

definition detect_wsl :: "'w machine \<Rightarrow> 'w \<Rightarrow> bool" where
  "detect_wsl M w =
     (case read_text M ''/proc/version'' w of
        Inl _ \<Rightarrow> False
      | Inr v \<Rightarrow> contains (to_ascii_lowercase v) ''microsoft'')"

definition detect_platform :: "'w machine \<Rightarrow> 'w \<Rightarrow> (string + platform) option" where
  "detect_platform M w =
     (let found = (\<lambda>os.
            case get_var M ''HOME'' w of
              None \<Rightarrow> Some (Inl ''HOME is not set'')
            | Some home \<Rightarrow>
                (let wsl = (os = Linux \<and> detect_wsl M w);
                     made = (\<lambda>d. \<lparr>pf_os = os, pf_arch = arch_name M, pf_distro = d, pf_is_wsl = wsl, pf_home = home\<rparr>)
                 in if os = Linux
                    then (case detect_distro M w of
                            None \<Rightarrow> None
                          | Some (Inl err) \<Rightarrow> Some (Inl err)
                          | Some (Inr d) \<Rightarrow> Some (Inr (made (Some d))))
                    else Some (Inr (made None))))
      in if os_name M = ''macos'' then found Macos
         else if os_name M = ''linux'' then found Linux
         else Some (Inl (''unsupported OS: '' @ os_name M @ '', only macOS and Linux are supported'')))"

definition shell_profile :: "'w machine \<Rightarrow> platform \<Rightarrow> ('w, string) action" where
  "shell_profile M p =
     look (\<lambda>w.
       let shell = or_default [] (get_var M ''SHELL'' w)
       in if ends_with shell ''/zsh'' \<or> shell = ''zsh'' then path_join (pf_home p) ''.zshrc''
          else path_join (pf_home p) ''.bashrc'')"

definition android_sdk_root :: "platform \<Rightarrow> string" where
  "android_sdk_root p =
     (case pf_os p of
        Macos \<Rightarrow> path_join (pf_home p) ''Library/Android/sdk''
      | Linux \<Rightarrow> path_join (pf_home p) ''Android/Sdk'')"

section \<open>Prompts\<close>

record prompt_policy =
  pp_yes :: bool
  pp_is_tty :: bool

definition prompt_policy_from_flags :: "'w machine \<Rightarrow> bool \<Rightarrow> ('w, prompt_policy) action" where
  "prompt_policy_from_flags M yes_flag =
     look (\<lambda>w. \<lparr>pp_yes = yes_flag \<or> \<not> stdin_tty M w, pp_is_tty = stdin_tty M w\<rparr>)"

text \<open>A line read at the end of the input is empty.\<close>

definition confirm :: "'w machine \<Rightarrow> prompt_policy \<Rightarrow> string \<Rightarrow> bool \<Rightarrow> bool \<Rightarrow> ('w, bool) action" where
  "confirm M policy question default_yes accept_under_yes =
     (if pp_yes policy then
        do { println M (question @ '' ['' @ (if accept_under_yes then ''yes (--yes)'' else ''no (--yes)'') @ '']'');
             ret accept_under_yes }
      else if \<not> pp_is_tty policy then ret default_yes
      else
        do { print_text M (question @ '' ['' @ (if default_yes then ''Y/n'' else ''y/N'') @ ''] '');
             answer \<leftarrow> State (next_line M);
             ret (case answer of
                    Inl _ \<Rightarrow> default_yes
                  | Inr line \<Rightarrow>
                      (if line = [] then default_yes
                       else (let trimmed = to_ascii_lowercase (trim line)
                             in if trimmed = [] then default_yes else trimmed = ''y'' \<or> trimmed = ''yes''))) })"

definition confirm_required :: "'w machine \<Rightarrow> prompt_policy \<Rightarrow> string \<Rightarrow> ('w, bool) action" where
  "confirm_required M policy question = confirm M policy question True True"

definition confirm_optional :: "'w machine \<Rightarrow> prompt_policy \<Rightarrow> string \<Rightarrow> ('w, bool) action" where
  "confirm_optional M policy question = confirm M policy question False False"

section \<open>Checks\<close>

datatype tool_status =
    Present "string option"
  | Absent

fun is_present :: "tool_status \<Rightarrow> bool" where
  "is_present (Present _) = True"
| "is_present Absent = False"

record tool_check =
  tc_name :: string
  tc_status :: tool_status

definition is_required :: "string \<Rightarrow> bool" where
  "is_required name = True"

definition check_simple_tool :: "'w machine \<Rightarrow> string \<Rightarrow> string \<Rightarrow> string list \<Rightarrow> ('w, tool_check) action" where
  "check_simple_tool M name program version_args =
     do { r \<leftarrow> run_command M program version_args;
          ret \<lparr>tc_name = name,
               tc_status = (case r of
                  Some version \<Rightarrow> if version \<noteq> [] then Present (Some version) else Present None
                | None \<Rightarrow> Absent)\<rparr> }"

definition check_rustup :: "'w machine \<Rightarrow> ('w, tool_check) action" where
  "check_rustup M = check_simple_tool M ''rustup'' ''rustup'' [''--version'']"

definition check_toolchain :: "'w machine \<Rightarrow> ('w, tool_check) action" where
  "check_toolchain M =
     do { cargo_version \<leftarrow> run_command M ''cargo'' [''--version''];
          rustc_version \<leftarrow> run_command M ''rustc'' [''--version''];
          ret \<lparr>tc_name = ''cargo/rustc'',
               tc_status = (case (cargo_version, rustc_version) of
                  (Some c, Some r) \<Rightarrow> Present (Some (c @ ''; '' @ r))
                | _ \<Rightarrow> Absent)\<rparr> }"

definition check_node :: "'w machine \<Rightarrow> ('w, tool_check) action" where
  "check_node M = check_simple_tool M ''node'' ''node'' [''--version'']"

definition check_moon :: "'w machine \<Rightarrow> ('w, tool_check) action" where
  "check_moon M = check_simple_tool M ''moon'' ''moon'' [''--version'']"

text \<open>The first line that reads \<open>Server Version:\<close> after its leading blanks.\<close>

fun server_version :: "string list \<Rightarrow> string option" where
  "server_version [] = None"
| "server_version (line # ls) =
     (case strip_prefix ''Server Version:'' (trim_start line) of
        Some v \<Rightarrow> Some (trim v)
      | None \<Rightarrow> server_version ls)"

definition check_docker :: "'w machine \<Rightarrow> ('w, tool_check) action" where
  "check_docker M =
     do { r \<leftarrow> run_command M ''docker'' [''info''];
          ret \<lparr>tc_name = ''docker'',
               tc_status = (case r of Some output \<Rightarrow> Present (server_version (lines output)) | None \<Rightarrow> Absent)\<rparr> }"

definition check_sccache :: "'w machine \<Rightarrow> ('w, tool_check) action" where
  "check_sccache M = check_simple_tool M ''sccache'' ''sccache'' [''--version'']"

definition run_all_checks :: "'w machine \<Rightarrow> ('w, tool_check list) action" where
  "run_all_checks M =
     do { a \<leftarrow> check_rustup M;
          b \<leftarrow> check_toolchain M;
          c \<leftarrow> check_node M;
          d \<leftarrow> check_moon M;
          e \<leftarrow> check_docker M;
          f \<leftarrow> check_sccache M;
          ret [a, b, c, d, e, f] }"

definition check_status :: "tool_check list \<Rightarrow> string \<Rightarrow> bool" where
  "check_status checks name =
     (case find (\<lambda>c. tc_name c = name) checks of None \<Rightarrow> False | Some c \<Rightarrow> is_present (tc_status c))"

definition format_check_line :: "tool_check \<Rightarrow> string" where
  "format_check_line c =
     (case tc_status c of
        Present (Some version) \<Rightarrow> tc_name c @ '': Present ('' @ version @ '')''
      | Present None \<Rightarrow> tc_name c @ '': Present''
      | Absent \<Rightarrow> tc_name c @ '': Absent'')"

section \<open>Lemmas\<close>

text \<open>A quoted identifier of one quote character makes the detection panic.\<close>

lemma trim_quote: "trim [CHR 0x22] = [CHR 0x22]"
  by (simp add: trim_def trim_start_stop trim_end_stop whitespace_encodings_def)

lemma unquote_panics: "unquote [CHR 0x22] = None"
  by (simp add: unquote_def trim_quote)

lemma parse_distro_family_panics: "parse_distro_family (''ID='' @ [CHR 0x22]) = None"
proof -
  have "split_on newline (''ID='' @ [CHR 0x22]) = [''ID='' @ [CHR 0x22]]" by (rule split_on_free) simp
  then have "lines (''ID='' @ [CHR 0x22]) = [''ID='' @ [CHR 0x22]]" by (simp add: lines_def Let_def)
  then show ?thesis by (simp add: parse_distro_family_def unquote_panics)
qed

text \<open>A checklist answers by tool whether the tool's own command succeeds.\<close>

lemma check_simple_tool_present:
  "is_present (tc_status (fst (run_state (check_simple_tool M name program args) w))) =
     fst (run_state (succeeds M program args) w)"
  by (auto simp: check_simple_tool_def succeeds_def case_prod_beta split: option.splits)

lemma keeps_println [keeps_intros]: "(\<And>s w. P w \<Longrightarrow> P (put_text M s w)) \<Longrightarrow> keeps P (println M t)"
  by (simp add: println_def keeps_change)

lemma keeps_profile [keeps_intros]: "keeps P (shell_profile M p)" "keeps P (prompt_policy_from_flags M y)"
  by (simp_all add: shell_profile_def prompt_policy_from_flags_def keeps_look)

end
