(* ===== verification/Dev_Files.thy ===== *)
theory Dev_Files
  imports Dev_Checks
begin

text \<open>
  The two files the developer setup writes by itself: the \<open>.env\<close> files (\<open>env_file.rs\<close>) and the
  marked block in the shell profile (\<open>profile.rs\<close>), with the proof that the block is merged
  idempotently and the rest of the profile is left alone.
\<close>

section \<open>Environment files\<close>

datatype env_file_outcome = Created | EnvAlreadyPresent

record env_bootstrap =
  eb_root :: env_file_outcome
  eb_mobile :: env_file_outcome

definition seaweedfs_prefix :: string where
  "seaweedfs_prefix = ''SEAWEEDFS_INTERNAL_ENDPOINT=''"

definition rewrite_line :: "string \<Rightarrow> string" where
  "rewrite_line line =
     (case strip_prefix seaweedfs_prefix line of
        Some rest \<Rightarrow> seaweedfs_prefix @ ''http://localhost:8333''
      | None \<Rightarrow> line)"

definition rewrite_seaweedfs_internal :: "string \<Rightarrow> string" where
  "rewrite_seaweedfs_internal contents = unlines (map rewrite_line (lines contents))"

definition ensure_root_env :: "'w machine \<Rightarrow> string \<Rightarrow> ('w, string + env_file_outcome) action" where
  "ensure_root_env M root =
     do { there \<leftarrow> look (file_exists M (path_join root ''.env''));
          if there then ret (Inr EnvAlreadyPresent)
          else
            do { contents \<leftarrow> look (read_text M (path_join root ''.env.example''));
                 case contents of
                   Inl err \<Rightarrow> ret (Inl err)
                 | Inr text_read \<Rightarrow>
                     do { r \<leftarrow> State (write_text M (path_join root ''.env'') (rewrite_seaweedfs_internal text_read));
                          ret (case r of Inl err \<Rightarrow> Inl err | Inr _ \<Rightarrow> Inr Created) } } }"

text \<open>\<open>Path::parent\<close> of a path without repeated or trailing separators.\<close>

definition path_parent :: "string \<Rightarrow> string option" where
  "path_parent p =
     (if p = [] \<or> p = ''/'' then None
      else Some (case dropWhile (\<lambda>c. c \<noteq> CHR ''/'') (rev p) of
                   [] \<Rightarrow> []
                 | _ # r \<Rightarrow> if r = [] then ''/'' else rev r))"

text \<open>\<open>create_dir_all\<close> on the parent, if there is one.\<close>

definition make_parent :: "'w machine \<Rightarrow> string \<Rightarrow> ('w, string + unit) action" where
  "make_parent M path = (case path_parent path of None \<Rightarrow> ret (Inr ()) | Some parent \<Rightarrow> State (make_dirs M parent))"

definition ensure_copy :: "'w machine \<Rightarrow> string \<Rightarrow> string \<Rightarrow> ('w, string + env_file_outcome) action" where
  "ensure_copy M example dest =
     do { there \<leftarrow> look (file_exists M dest);
          if there then ret (Inr EnvAlreadyPresent)
          else
            do { example_there \<leftarrow> look (file_exists M example);
                 if \<not> example_there then ret (Inr EnvAlreadyPresent)
                 else
                   do { made \<leftarrow> make_parent M dest;
                        case made of
                          Inl err \<Rightarrow> ret (Inl err)
                        | Inr _ \<Rightarrow>
                            do { r \<leftarrow> State (copy_file M example dest);
                                 ret (case r of Inl err \<Rightarrow> Inl err | Inr _ \<Rightarrow> Inr Created) } } } }"

definition ensure_env_files :: "'w machine \<Rightarrow> string \<Rightarrow> ('w, string + env_bootstrap) action" where
  "ensure_env_files M root =
     do { r \<leftarrow> ensure_root_env M root;
          case r of
            Inl err \<Rightarrow> ret (Inl err)
          | Inr root_outcome \<Rightarrow>
              do { m \<leftarrow> ensure_copy M (path_join root ''apps/mobile/.env.example'') (path_join root ''apps/mobile/.env'');
                   ret (case m of
                          Inl err \<Rightarrow> Inl err
                        | Inr mobile \<Rightarrow> Inr \<lparr>eb_root = root_outcome, eb_mobile = mobile\<rparr>) } }"

definition ensure_env_file :: "'w machine \<Rightarrow> string \<Rightarrow> ('w, string + env_file_outcome) action" where
  "ensure_env_file M root = ensure_root_env M root"

section \<open>The profile block\<close>

definition BEGIN_MARK :: string where "BEGIN_MARK = ''# >>> epistl dev-setup >>>''"
definition END_MARK :: string where "END_MARK = ''# <<< epistl dev-setup <<<''"

datatype profile_outcome = Updated | ProfileAlreadyPresent

text \<open>The non-empty lines of a text without their trailing blanks.\<close>

definition block_lines :: "string \<Rightarrow> string list" where
  "block_lines body = filter (\<lambda>l. l \<noteq> []) (map trim_end (lines body))"

definition trim_newline_chars :: "string \<Rightarrow> string" where
  "trim_newline_chars s =
     rev (dropWhile (\<lambda>c. c = newline) (rev (dropWhile (\<lambda>c. c = newline) s)))"

text \<open>
  The text from the first begin mark on, cut at the end mark that follows: what is before the block,
  the block with its begin mark, and what follows the end mark.
\<close>

definition find_block :: "string \<Rightarrow> (string \<times> string \<times> string) option" where
  "find_block existing =
     (case break_on BEGIN_MARK existing of
        None \<Rightarrow> None
      | Some (before, after) \<Rightarrow>
          map_option (\<lambda>(block, rest). (before, block, rest)) (break_on END_MARK (BEGIN_MARK @ after)))"

definition extract_block_lines :: "string \<Rightarrow> string list option" where
  "extract_block_lines existing =
     map_option (\<lambda>(before, block, rest). block_lines (trim_newline_chars (drop (length BEGIN_MARK) block)))
       (find_block existing)"

definition merge_lines :: "string list \<Rightarrow> string list \<Rightarrow> string list" where
  "merge_lines existing incoming =
     foldl (\<lambda>out line. if list_ex (\<lambda>e. e = line) out then out else out @ [line]) existing incoming"

definition replace_block :: "string \<Rightarrow> string \<Rightarrow> string option" where
  "replace_block existing new_block =
     map_option (\<lambda>(before, block, rest).
         before @ new_block @ (if rest \<noteq> [] \<and> hd rest = newline then tl rest else rest))
       (find_block existing)"

definition new_block_of :: "string list \<Rightarrow> string" where
  "new_block_of merged =
     BEGIN_MARK @ [newline] @ join [newline] merged @ [newline] @ END_MARK @ [newline]"

text \<open>The new text of the profile, or \<open>None\<close> when it is the old one.\<close>

definition updated_profile :: "string \<Rightarrow> string \<Rightarrow> string option" where
  "updated_profile existing block_body =
     (let merged = merge_lines (or_default [] (extract_block_lines existing)) (block_lines block_body);
          new_block = new_block_of merged
      in case replace_block existing new_block of
           Some s \<Rightarrow> if s = existing then None else Some s
         | None \<Rightarrow>
             Some (existing @ (if existing \<noteq> [] \<and> last existing \<noteq> newline then [newline] else []) @
                   [newline] @ new_block))"

definition ensure_profile_block :: "'w machine \<Rightarrow> string \<Rightarrow> string \<Rightarrow> ('w, string + profile_outcome) action" where
  "ensure_profile_block M profile_path block_body =
     do { existing \<leftarrow> look (\<lambda>w. if file_exists M profile_path w then read_text M profile_path w else Inr []);
          case existing of
            Inl err \<Rightarrow> ret (Inl err)
          | Inr old \<Rightarrow>
              (case updated_profile old block_body of
                 None \<Rightarrow> ret (Inr ProfileAlreadyPresent)
               | Some updated \<Rightarrow>
                   do { made \<leftarrow> make_parent M profile_path;
                        case made of
                          Inl err \<Rightarrow> ret (Inl err)
                        | Inr _ \<Rightarrow>
                            do { r \<leftarrow> State (write_text M profile_path updated);
                                 ret (case r of Inl err \<Rightarrow> Inl err | Inr _ \<Rightarrow> Inr Updated) } }) }"

section \<open>Texts and their lines\<close>

lemma strip_prefix_sep:
  "c \<notin> set p \<Longrightarrow> strip_prefix p (s @ c # t) = map_option (\<lambda>r. r @ c # t) (strip_prefix p s)"
  by (induction p s rule: strip_prefix.induct) auto

lemma break_on_sep:
  "c \<notin> set p \<Longrightarrow> p \<noteq> [] \<Longrightarrow> break_on p s = None \<Longrightarrow>
     break_on p (s @ c # t) = map_option (\<lambda>(a, b). (s @ c # a, b)) (break_on p t)"
proof (induction p s rule: break_on.induct)
  case (1 p)
  then obtain x xs where p: "p = x # xs" by (cases p) auto
  with 1 have "strip_prefix p (c # t) = None" by auto
  then show ?case by simp
next
  case (2 p x s)
  from "2.prems"(3) have n: "strip_prefix p (x # s) = None" and b: "break_on p s = None"
    by (auto split: option.splits)
  have "strip_prefix p (x # s @ c # t) = None"
    using strip_prefix_sep [OF "2.prems"(1), of "x # s" t] n by simp
  then show ?case
    using "2.IH" [OF n "2.prems"(1,2) b] by (simp add: option.map_comp comp_def case_prod_beta)
qed

lemma break_on_here: "break_on p (p @ x) = Some ([], x)"
proof (cases "p @ x")
  case (Cons a l)
  then have "strip_prefix p (a # l) = Some x" using strip_prefix_append [of p x] by simp
  then show ?thesis using Cons by simp
qed simp

lemma break_on_unlines:
  "newline \<notin> set p \<Longrightarrow> p \<noteq> [] \<Longrightarrow> list_all (\<lambda>l. break_on p l = None) ls \<Longrightarrow>
     break_on p (unlines ls @ p @ x) = Some (unlines ls, x)"
  by (induction ls) (simp_all add: break_on_here break_on_sep)

lemma strip_prefix_long:
  "length p \<le> length s \<Longrightarrow> strip_prefix p (s @ x) = map_option (\<lambda>r. r @ x) (strip_prefix p s)"
  by (induction p s rule: strip_prefix.induct) auto

text \<open>What follows a first occurrence does not matter to it.\<close>

lemma break_on_local:
  "break_on p (a @ p @ b) = Some (a, b) \<Longrightarrow> break_on p (a @ p @ c) = Some (a, c)"
proof (induction a)
  case Nil
  then show ?case using break_on_here by simp
next
  case (Cons y a)
  have n: "strip_prefix p (y # a @ p @ b) = None"
    using Cons.prems by (auto split: option.splits)
  have "strip_prefix p ((y # a @ p) @ c) = None"
    using n strip_prefix_long [of p "y # a @ p"] by simp
  moreover have "break_on p (a @ p @ b) = Some (a, b)"
    using Cons.prems n by auto
  ultimately show ?case using Cons.IH by simp
qed

lemma break_on_None_infix: "break_on p s = None \<Longrightarrow> s = a @ m @ b \<Longrightarrow> break_on p m = None"
  using contains_iff [of m p] contains_iff [of s p] by (auto simp: contains_def) (metis append.assoc)

lemma break_on_before: "break_on p s = Some (a, b) \<Longrightarrow> p \<noteq> [] \<Longrightarrow> break_on p a = None"
proof (rule ccontr)
  assume b: "break_on p s = Some (a, b)" and p: "p \<noteq> []" and "break_on p a \<noteq> None"
  then obtain x y where xy: "break_on p a = Some (x, y)" by auto
  then have "a = x @ p @ y" by (rule break_on_Some)
  then have "s = x @ p @ (y @ p @ b)" "length x < length a"
    using break_on_Some [OF b] p by simp_all
  then show False using break_on_first [OF b] by fastforce
qed

lemma split_on_infix: "l \<in> set (split_on c s) \<Longrightarrow> \<exists>a b. s = a @ l @ b"
proof (induction s arbitrary: l)
  case (Cons x s)
  obtain h t where ht: "split_on c s = h # t" by (cases "split_on c s") auto
  have hs: "\<exists>b. s = h @ b" using ht
  proof (induction s arbitrary: h t)
    case (Cons y s)
    then show ?case by (cases "split_on c s") (auto split: if_splits)
  qed simp
  show ?case
  proof (cases "l \<in> set (split_on c s)")
    case True
    then obtain a b where "s = a @ l @ b" using Cons.IH by blast
    then show ?thesis by (intro exI [of _ "x # a"] exI [of _ b]) simp
  next
    case False
    then have "l = [] \<or> l = x # h" using Cons.prems ht by (auto split: if_splits)
    then show ?thesis using hs by (metis append_Cons append_Nil)
  qed
qed simp

lemma split_on_pieces: "l \<in> set (split_on c s) \<Longrightarrow> c \<notin> set l"
proof (induction s arbitrary: l)
  case (Cons x s)
  then show ?case by (cases "split_on c s") (auto split: if_splits)
qed simp

lemma strip_cr_prefix: "\<exists>b. l = strip_cr l @ b"
  by (cases l rule: rev_cases) (auto simp: strip_cr_def)

lemma lines_infix:
  assumes "l \<in> set (lines s)"
  shows "\<exists>a b. s = a @ l @ b" and "newline \<notin> set l"
proof -
  let ?ps = "split_on newline s"
  consider p where "p \<in> set (butlast ?ps)" "l = strip_cr p" | "last ?ps \<noteq> []" "l = last ?ps"
    using assms by (auto simp: lines_def Let_def split: if_splits)
  then have "\<exists>p \<in> set ?ps. \<exists>b. p = l @ b"
  proof cases
    case (1 p)
    then show ?thesis using strip_cr_prefix [of p] in_set_butlastD by metis
  next
    case 2
    then show ?thesis using last_in_set [OF split_on_not_Nil, of newline s] by (metis append_Nil2)
  qed
  then obtain p b where p: "p \<in> set (split_on newline s)" "p = l @ b" by blast
  obtain x y where "s = x @ p @ y" using split_on_infix [OF p(1)] by blast
  then show "\<exists>a b. s = a @ l @ b" using p(2) by auto
  show "newline \<notin> set l" using split_on_pieces [OF p(1)] p(2) by simp
qed

text \<open>A line as the block holds it.\<close>

definition block_line :: "string \<Rightarrow> bool" where
  "block_line l \<longleftrightarrow> l \<noteq> [] \<and> trim_end l = l \<and> newline \<notin> set l"

lemma block_lines_ok:
  assumes "l \<in> set (block_lines s)"
  shows "block_line l" and "\<exists>a b. s = a @ l @ b"
proof -
  obtain m where m: "m \<in> set (lines s)" "l = trim_end m" "l \<noteq> []"
    using assms by (auto simp: block_lines_def)
  obtain w where w: "m = l @ w" using trim_end_prefix [of m] unfolding m(2) [symmetric] by blast
  have "trim_end l = l" by (simp only: m(2) trim_end_idem)
  moreover have "newline \<notin> set l" using lines_infix(2) [OF m(1)] w by simp
  ultimately show "block_line l" using m(3) by (simp add: block_line_def)
  obtain a b where "s = a @ m @ b" using lines_infix(1) [OF m(1)] by blast
  then have "s = a @ l @ (w @ b)" using w by simp
  then show "\<exists>a b. s = a @ l @ b" by blast
qed

section \<open>Merging\<close>

lemma merge_lines_simps [simp]:
  "merge_lines ms [] = ms"
  "merge_lines ms (l # ls) = merge_lines (if l \<in> set ms then ms else ms @ [l]) ls"
  by (auto simp: merge_lines_def list_ex_iff)

lemma set_merge_lines [simp]: "set (merge_lines ms ls) = set ms \<union> set ls"
  by (induction ls arbitrary: ms) auto

lemma merge_lines_keeps: "\<exists>new. merge_lines ms ls = ms @ new"
proof (induction ls arbitrary: ms)
  case (Cons l ls)
  then obtain new where "merge_lines (if l \<in> set ms then ms else ms @ [l]) ls =
      (if l \<in> set ms then ms else ms @ [l]) @ new" by blast
  then show ?case by (cases "l \<in> set ms") auto
qed simp

lemma merge_lines_known: "set ls \<subseteq> set ms \<Longrightarrow> merge_lines ms ls = ms"
  by (induction ls) auto

section \<open>Finding the block that was written\<close>

lemma marks_plain: "newline \<notin> set BEGIN_MARK" "newline \<notin> set END_MARK" "BEGIN_MARK \<noteq> []" "END_MARK \<noteq> []"
  by (simp_all add: BEGIN_MARK_def END_MARK_def)

lemma end_not_in_begin: "break_on END_MARK BEGIN_MARK = None"
  by (simp add: BEGIN_MARK_def END_MARK_def)

definition first_mark :: "string \<Rightarrow> bool" where
  "first_mark pre \<longleftrightarrow> break_on BEGIN_MARK (pre @ BEGIN_MARK @ []) = Some (pre, [])"

lemma first_markD: "first_mark pre \<Longrightarrow> break_on BEGIN_MARK (pre @ BEGIN_MARK @ x) = Some (pre, x)"
  unfolding first_mark_def by (rule break_on_local)

lemma unlines_join: "ls \<noteq> [] \<Longrightarrow> unlines ls = join [newline] ls @ [newline]"
  by (induction ls rule: induct_list012) simp_all

lemma block_as_lines:
  "BEGIN_MARK @ [newline] @ join [newline] ms @ [newline] = unlines (BEGIN_MARK # (if ms = [] then [[]] else ms))"
  by (simp add: unlines_join)

definition free_of_end :: "string \<Rightarrow> bool" where
  "free_of_end l \<longleftrightarrow> break_on END_MARK l = None"

lemma find_new_block:
  assumes "first_mark pre" and "list_all free_of_end ms"
  shows "find_block (pre @ new_block_of ms @ post) =
    Some (pre, BEGIN_MARK @ [newline] @ join [newline] ms @ [newline], newline # post)"
proof -
  let ?ls = "BEGIN_MARK # (if ms = [] then [[]] else ms)"
  have "break_on END_MARK [] = None" by (simp add: END_MARK_def)
  then have f: "list_all (\<lambda>l. break_on END_MARK l = None) ?ls"
    using assms(2) end_not_in_begin by (simp add: free_of_end_def [abs_def])
  have e: "break_on END_MARK (unlines ?ls @ END_MARK @ newline # post) = Some (unlines ?ls, newline # post)"
    by (rule break_on_unlines [OF marks_plain(2,4) f])
  have b: "BEGIN_MARK @ newline # join [newline] ms @ newline # END_MARK @ newline # post =
      unlines ?ls @ END_MARK @ newline # post"
    using block_as_lines [of ms] by (metis append.assoc append_Cons append_Nil)
  have "break_on BEGIN_MARK (pre @ new_block_of ms @ post) =
      Some (pre, newline # join [newline] ms @ newline # END_MARK @ newline # post)"
    using first_markD [OF assms(1)] by (simp add: new_block_of_def)
  moreover have "break_on END_MARK (BEGIN_MARK @ newline # join [newline] ms @ newline # END_MARK @ newline # post) =
      Some (BEGIN_MARK @ [newline] @ join [newline] ms @ [newline], newline # post)"
    using e unfolding b block_as_lines .
  ultimately show ?thesis by (simp add: find_block_def)
qed

lemma split_on_join:
  "ls \<noteq> [] \<Longrightarrow> list_all (\<lambda>l. newline \<notin> set l) ls \<Longrightarrow> split_on newline (join [newline] ls) = ls"
  by (induction ls rule: induct_list012) (simp_all add: split_on_free split_on_Cons)

lemma trim_end_no_cr: "trim_end l = l \<Longrightarrow> strip_cr l = l"
proof (cases l rule: rev_cases)
  case (snoc xs x)
  assume t: "trim_end l = l"
  show ?thesis
  proof (rule ccontr)
    assume "strip_cr l \<noteq> l"
    then have x: "x = carriage_return" using snoc by (auto simp: strip_cr_def split: if_splits)
    have "strip_any (map rev whitespace_encodings) (carriage_return # rev xs) \<noteq> None"
      by (simp add: whitespace_encodings_def)
    moreover have "strip_any (filter (\<lambda>p. p \<noteq> []) (map rev whitespace_encodings)) (trim_with (map rev whitespace_encodings) (rev l)) = None"
      by (rule trim_with_fixed)
    moreover have "trim_with (map rev whitespace_encodings) (rev l) = rev l"
      using t by (metis rev_rev_ident trim_end_def)
    moreover have "filter (\<lambda>p. p \<noteq> []) (map rev whitespace_encodings) = map rev whitespace_encodings"
      by (simp add: whitespace_encodings_def)
    ultimately show False using snoc x by simp
  qed
qed (simp add: strip_cr_def)

lemma block_lines_join:
  assumes "list_all block_line ms"
  shows "block_lines (join [newline] ms) = ms"
proof (cases ms rule: rev_cases)
  case Nil
  then show ?thesis by (simp add: block_lines_def lines_def)
next
  case (snoc xs x)
  have "split_on newline (join [newline] ms) = ms"
    using snoc assms by (intro split_on_join) (auto simp: block_line_def list_all_iff)
  moreover have "map strip_cr xs = xs" and "x \<noteq> []"
    using snoc assms by (auto simp: block_line_def list_all_iff trim_end_no_cr intro!: map_idI)
  ultimately have "lines (join [newline] ms) = ms" using snoc by (simp add: lines_def Let_def)
  moreover have "map trim_end ms = ms" "filter (\<lambda>l. l \<noteq> []) ms = ms"
    using assms by (auto simp: block_line_def list_all_iff intro!: map_idI filter_True)
  ultimately show ?thesis by (simp add: block_lines_def)
qed

lemma dropWhile_edge: "s \<noteq> [] \<Longrightarrow> hd s \<noteq> c \<Longrightarrow> dropWhile (\<lambda>x. x = c) s = s"
  by (cases s) simp_all

lemma join_edges:
  "list_all block_line ms \<Longrightarrow> ms \<noteq> [] \<Longrightarrow>
     join [newline] ms \<noteq> [] \<and> hd (join [newline] ms) \<noteq> newline \<and> last (join [newline] ms) \<noteq> newline"
proof (induction ms rule: induct_list012)
  case (2 x)
  then have "x \<noteq> []" "newline \<notin> set x" by (auto simp: block_line_def)
  then show ?case using hd_in_set last_in_set by (metis join.simps(2))
next
  case (3 x y zs)
  then have "x \<noteq> []" "newline \<notin> set x" by (auto simp: block_line_def)
  then have "hd x \<noteq> newline" using hd_in_set by metis
  then show ?case using 3 \<open>x \<noteq> []\<close> by auto
qed simp

lemma trim_join:
  assumes "list_all block_line ms"
  shows "trim_newline_chars (newline # join [newline] ms @ [newline]) = join [newline] ms"
proof (cases "ms = []")
  case False
  let ?j = "join [newline] ms"
  have j: "?j \<noteq> []" "hd ?j \<noteq> newline" "last ?j \<noteq> newline" using join_edges [OF assms False] by blast+
  have "dropWhile (\<lambda>c. c = newline) (newline # ?j @ [newline]) = ?j @ [newline]"
    using dropWhile_edge [of "?j @ [newline]" newline] j by simp
  moreover have "dropWhile (\<lambda>c. c = newline) (rev ?j) = rev ?j"
    using j by (intro dropWhile_edge) (simp_all add: hd_rev)
  ultimately show ?thesis by (simp add: trim_newline_chars_def)
qed (simp add: trim_newline_chars_def)

lemma extract_new_block:
  assumes "first_mark pre" and "list_all free_of_end ms" and "list_all block_line ms"
  shows "extract_block_lines (pre @ new_block_of ms @ post) = Some ms"
  using find_new_block [OF assms(1,2)] trim_join [OF assms(3)] block_lines_join [OF assms(3)]
  by (simp add: extract_block_lines_def)

section \<open>Writing the block twice\<close>

lemma find_block_parts:
  assumes "find_block existing = Some (pre, block, rest)"
  shows "existing = pre @ block @ END_MARK @ rest" and "first_mark pre" and "break_on END_MARK block = None"
proof -
  obtain after where a: "break_on BEGIN_MARK existing = Some (pre, after)"
    and e: "break_on END_MARK (BEGIN_MARK @ after) = Some (block, rest)"
    using assms by (auto simp: find_block_def split: option.splits)
  show "existing = pre @ block @ END_MARK @ rest"
    using break_on_Some [OF a] break_on_Some [OF e] by simp
  have "break_on BEGIN_MARK (pre @ BEGIN_MARK @ after) = Some (pre, after)"
    using a break_on_Some [OF a] by simp
  then show "first_mark pre" unfolding first_mark_def by (rule break_on_local)
  show "break_on END_MARK block = None" by (rule break_on_before [OF e marks_plain(4)])
qed

lemma block_lines_list: "list_all block_line (block_lines s)"
  using block_lines_ok(1) by (auto simp: list_all_iff)

lemma block_lines_free: "break_on END_MARK s = None \<Longrightarrow> list_all free_of_end (block_lines s)"
  unfolding list_all_iff free_of_end_def using block_lines_ok(2) break_on_None_infix by blast

lemma trim_newline_infix: "\<exists>a b. s = a @ trim_newline_chars s @ b"
proof -
  let ?P = "\<lambda>c. c = newline"
  let ?t = "dropWhile ?P s"
  have "rev ?t = takeWhile ?P (rev ?t) @ dropWhile ?P (rev ?t)" by (rule takeWhile_dropWhile_id [symmetric])
  then have "?t = trim_newline_chars s @ rev (takeWhile ?P (rev ?t))"
    unfolding trim_newline_chars_def by (metis rev_append rev_rev_ident)
  moreover have "s = takeWhile ?P s @ ?t" by (rule takeWhile_dropWhile_id [symmetric])
  ultimately show ?thesis by metis
qed

lemma extracted_lines:
  assumes "extract_block_lines existing = Some ls"
  shows "list_all block_line ls" and "list_all free_of_end ls"
proof -
  obtain pre block rest where f: "find_block existing = Some (pre, block, rest)"
    and ls: "ls = block_lines (trim_newline_chars (drop (length BEGIN_MARK) block))"
    using assms by (auto simp: extract_block_lines_def)
  show "list_all block_line ls" unfolding ls by (rule block_lines_list)
  let ?body = "drop (length BEGIN_MARK) block"
  obtain a b where "?body = a @ trim_newline_chars ?body @ b" using trim_newline_infix by blast
  then have "block = (take (length BEGIN_MARK) block @ a) @ trim_newline_chars ?body @ b"
    by (metis append.assoc append_take_drop_id)
  then have "break_on END_MARK (trim_newline_chars ?body) = None"
    by (rule break_on_None_infix [OF find_block_parts(3) [OF f]])
  then show "list_all free_of_end ls" unfolding ls by (rule block_lines_free)
qed

lemma first_mark_appended:
  assumes "break_on BEGIN_MARK existing = None"
  shows "first_mark (existing @ (if b then [newline] else []) @ [newline])"
proof -
  have n: "break_on BEGIN_MARK ([] :: string) = None" by (simp add: BEGIN_MARK_def)
  have "break_on BEGIN_MARK (existing @ newline # BEGIN_MARK) = Some (existing @ [newline], [])"
    using break_on_sep [OF marks_plain(1,3) assms, of BEGIN_MARK] break_on_here [of BEGIN_MARK "[]"] by simp
  moreover have "break_on BEGIN_MARK (newline # BEGIN_MARK) = Some ([newline], [])"
    using break_on_sep [OF marks_plain(1,3) n, of BEGIN_MARK] break_on_here [of BEGIN_MARK "[]"] by simp
  then have "break_on BEGIN_MARK (existing @ newline # newline # BEGIN_MARK) = Some (existing @ [newline, newline], [])"
    using break_on_sep [OF marks_plain(1,3) assms, of "newline # BEGIN_MARK"] by simp
  ultimately show ?thesis by (simp add: first_mark_def)
qed

text \<open>
  The block a run leaves behind: the lines it found and the new ones, between a text in which no
  earlier begin mark is and a rest.
\<close>

definition merged_lines :: "string \<Rightarrow> string \<Rightarrow> string list" where
  "merged_lines existing body = merge_lines (or_default [] (extract_block_lines existing)) (block_lines body)"

lemma merged_lines_ok:
  assumes "break_on END_MARK body = None"
  shows "list_all block_line (merged_lines existing body)" and "list_all free_of_end (merged_lines existing body)"
  using extracted_lines [of existing] block_lines_list [of body] block_lines_free [OF assms]
  by (cases "extract_block_lines existing"; simp add: merged_lines_def or_default_def list_all_iff; blast)+

definition well_marked :: "string \<Rightarrow> bool" where
  "well_marked existing \<longleftrightarrow> (break_on BEGIN_MARK existing \<noteq> None \<longrightarrow> find_block existing \<noteq> None)"

lemma updated_profile_shape:
  assumes "well_marked existing"
  obtains pre post where "or_default existing (updated_profile existing body) = pre @ new_block_of (merged_lines existing body) @ post"
    "first_mark pre"
    "(\<exists>block rest. find_block existing = Some (pre, block, rest) \<and> (post = rest \<or> rest = newline # post)) \<or>
     (find_block existing = None \<and> post = [] \<and> (\<exists>sep. pre = existing @ sep \<and> set sep \<subseteq> {newline}))"
proof (cases "find_block existing")
  case None
  then have n: "break_on BEGIN_MARK existing = None" using assms unfolding well_marked_def by blast
  let ?b = "existing \<noteq> [] \<and> last existing \<noteq> newline"
  let ?pre = "existing @ (if ?b then [newline] else []) @ [newline]"
  have "replace_block existing x = None" for x using None by (simp add: replace_block_def)
  then have "or_default existing (updated_profile existing body) = ?pre @ new_block_of (merged_lines existing body) @ []"
    by (simp add: updated_profile_def merged_lines_def or_default_def Let_def)
  then show ?thesis using that [of ?pre "[]"] first_mark_appended [OF n, of ?b] None by auto
next
  case (Some t)
  obtain pre block rest where t: "t = (pre, block, rest)" by (rule prod_cases3)
  let ?post = "if rest \<noteq> [] \<and> hd rest = newline then tl rest else rest"
  have "or_default existing (updated_profile existing body) = pre @ new_block_of (merged_lines existing body) @ ?post"
    using Some t by (simp add: updated_profile_def merged_lines_def replace_block_def or_default_def Let_def)
  moreover have "?post = rest \<or> rest = newline # ?post" by (cases rest) auto
  ultimately show ?thesis
    using that [of pre ?post] find_block_parts(2) [of existing pre block rest] Some t by blast
qed

lemma updated_profile_stable:
  assumes "first_mark pre" and "list_all block_line ms" and "list_all free_of_end ms"
    and "set (block_lines body) \<subseteq> set ms"
  shows "updated_profile (pre @ new_block_of ms @ post) body = None"
proof -
  let ?s = "pre @ new_block_of ms @ post"
  have m: "merge_lines (or_default [] (extract_block_lines ?s)) (block_lines body) = ms"
    using extract_new_block [OF assms(1,3,2)] merge_lines_known [OF assms(4)] by (simp add: or_default_def)
  have "replace_block ?s (new_block_of ms) = Some ?s"
    using find_new_block [OF assms(1,3)] by (simp add: replace_block_def)
  then show ?thesis unfolding updated_profile_def m by simp
qed

section \<open>Files\<close>

text \<open>
  What the lemmas use of the file system: a file written or copied without error is there and has
  that text, and no other file changes; making a directory changes no text and removes nothing.
\<close>

definition other_files_kept :: "'w machine \<Rightarrow> string \<Rightarrow> 'w \<Rightarrow> 'w \<Rightarrow> bool" where
  "other_files_kept M p w w' \<longleftrightarrow>
     (\<forall>q. q \<noteq> p \<longrightarrow> read_text M q w' = read_text M q w \<and> file_exists M q w' = file_exists M q w)"

definition file_laws :: "'w machine \<Rightarrow> bool" where
  "file_laws M \<longleftrightarrow>
     (\<forall>p t w w'. write_text M p t w = (Inr (), w') \<longrightarrow>
        read_text M p w' = Inr t \<and> file_exists M p w' \<and> other_files_kept M p w w') \<and>
     (\<forall>p d w w'. copy_file M p d w = (Inr (), w') \<longrightarrow>
        read_text M d w' = read_text M p w \<and> file_exists M d w' \<and> other_files_kept M d w w') \<and>
     (\<forall>d w r w'. make_dirs M d w = (r, w') \<longrightarrow>
        (\<forall>q. read_text M q w' = read_text M q w \<and> (file_exists M q w \<longrightarrow> file_exists M q w')))"

lemma file_lawsD:
  "file_laws M \<Longrightarrow> write_text M p t w = (Inr (), w') \<Longrightarrow>
     read_text M p w' = Inr t \<and> file_exists M p w' \<and> other_files_kept M p w w'"
  "file_laws M \<Longrightarrow> copy_file M p d w = (Inr (), w') \<Longrightarrow>
     read_text M d w' = read_text M p w \<and> file_exists M d w' \<and> other_files_kept M d w w'"
  "file_laws M \<Longrightarrow> make_dirs M d w = (r, w') \<Longrightarrow>
     read_text M q w' = read_text M q w \<and> (file_exists M q w \<longrightarrow> file_exists M q w')"
  by (auto simp: file_laws_def)

lemma make_parent_keeps:
  "file_laws M \<Longrightarrow> run_state (make_parent M path) w = (r, w') \<Longrightarrow>
     read_text M q w' = read_text M q w \<and> (file_exists M q w \<longrightarrow> file_exists M q w')"
  by (auto simp: make_parent_def file_lawsD(3) split: option.splits)

definition profile_text :: "'w machine \<Rightarrow> string \<Rightarrow> 'w \<Rightarrow> string + string" where
  "profile_text M path w = (if file_exists M path w then read_text M path w else Inr [])"

lemma ensure_profile_block_cases:
  assumes "file_laws M" and "profile_text M path w = Inr existing"
    and "run_state (ensure_profile_block M path body) w = (Inr r, w1)"
  obtains (same) "updated_profile existing body = None" "w1 = w" "r = ProfileAlreadyPresent"
  | (written) s where "updated_profile existing body = Some s" "profile_text M path w1 = Inr s" "r = Updated"
proof (cases "updated_profile existing body")
  case None
  then have "w1 = w" "r = ProfileAlreadyPresent"
    using assms(2,3) by (simp_all add: ensure_profile_block_def profile_text_def)
  with None show ?thesis by (rule same)
next
  case (Some s)
  obtain m w' where m: "run_state (make_parent M path) w = (m, w')" by (rule prod.exhaust)
  have e: "run_state (ensure_profile_block M path body) w =
      (case m of Inl err \<Rightarrow> (Inl err, w')
       | Inr _ \<Rightarrow> (case write_text M path s w' of (Inl err, v) \<Rightarrow> (Inl err, v) | (Inr _, v) \<Rightarrow> (Inr Updated, v)))"
    using assms(2) Some m
    by (simp add: ensure_profile_block_def profile_text_def split: sum.splits prod.splits)
  then have "write_text M path s w' = (Inr (), w1)" "r = Updated"
    using assms(3) by (auto split: sum.splits prod.splits)
  then show ?thesis
    using written Some file_lawsD(1) [OF assms(1), of path s w' w1] by (simp add: profile_text_def)
qed

text \<open>
  C28: Writing the profile block keeps everything else in the file, keeps the lines earlier runs have
  put into the block, adds the new ones, and is idempotent: after a run that succeeded, the block
  holds every line of the body, and running again with the same body finds nothing to do and changes
  nothing. What is used of the profile: a begin mark in it is followed by an end mark, and the body
  does not contain the end mark.
\<close>

theorem profile_block_idempotent:
  assumes "file_laws M" and "profile_text M path w = Inr existing" and "well_marked existing"
    and "\<not> contains body END_MARK"
    and "run_state (ensure_profile_block M path body) w = (Inr r, w1)"
  shows "\<exists>pre post. profile_text M path w1 = Inr (pre @ new_block_of (merged_lines existing body) @ post) \<and>
      ((\<exists>block rest. find_block existing = Some (pre, block, rest) \<and> (post = rest \<or> rest = newline # post)) \<or>
       (find_block existing = None \<and> post = [] \<and> (\<exists>sep. pre = existing @ sep \<and> set sep \<subseteq> {newline}))) \<and>
      set (block_lines body) \<subseteq> set (merged_lines existing body) \<and>
      (\<exists>new. merged_lines existing body = or_default [] (extract_block_lines existing) @ new) \<and>
      run_state (ensure_profile_block M path body) w1 = (Inr ProfileAlreadyPresent, w1)"
proof -
  have nb: "break_on END_MARK body = None" using assms(4) unfolding contains_def by blast
  note ok = merged_lines_ok [OF nb, of existing]
  obtain pre post where s: "or_default existing (updated_profile existing body) = pre @ new_block_of (merged_lines existing body) @ post"
    and f: "first_mark pre"
    and o: "(\<exists>block rest. find_block existing = Some (pre, block, rest) \<and> (post = rest \<or> rest = newline # post)) \<or>
       (find_block existing = None \<and> post = [] \<and> (\<exists>sep. pre = existing @ sep \<and> set sep \<subseteq> {newline}))"
    by (rule updated_profile_shape [OF assms(3), of body])
  have t: "profile_text M path w1 = Inr (or_default existing (updated_profile existing body))"
    by (rule ensure_profile_block_cases [OF assms(1,2,5)]) (simp_all add: or_default_def assms(2))
  have sub: "set (block_lines body) \<subseteq> set (merged_lines existing body)" by (simp add: merged_lines_def)
  have "updated_profile (pre @ new_block_of (merged_lines existing body) @ post) body = None"
    by (rule updated_profile_stable [OF f ok sub])
  then have "run_state (ensure_profile_block M path body) w1 = (Inr ProfileAlreadyPresent, w1)"
    using t s by (simp add: ensure_profile_block_def profile_text_def)
  moreover have "\<exists>new. merged_lines existing body = or_default [] (extract_block_lines existing) @ new"
    unfolding merged_lines_def by (rule merge_lines_keeps)
  ultimately show ?thesis using t s o sub by metis
qed

section \<open>The environment files\<close>

lemma path_join_inject: "b \<noteq> [] \<Longrightarrow> hd b \<noteq> CHR ''/'' \<Longrightarrow> c \<noteq> [] \<Longrightarrow> hd c \<noteq> CHR ''/'' \<Longrightarrow>
    path_join a b = path_join a c \<longleftrightarrow> b = c"
  by (simp add: path_join_def)

lemma rewrite_line_idem: "rewrite_line (rewrite_line l) = rewrite_line l"
  by (simp add: rewrite_line_def split: option.splits)

lemma rewrite_line_clean: "clean_line l \<Longrightarrow> clean_line (rewrite_line l)"
  by (auto simp: rewrite_line_def clean_line_def seaweedfs_prefix_def strip_cr_def split: option.splits)

lemma lines_clean: "carriage_return \<notin> set s \<Longrightarrow> list_all clean_line (lines s)"
proof -
  assume n: "carriage_return \<notin> set s"
  have "clean_line l" if l: "l \<in> set (lines s)" for l
  proof -
    obtain a b where "s = a @ l @ b" using lines_infix(1) [OF l] by blast
    then have "carriage_return \<notin> set l" using n by auto
    then have "l \<noteq> [] \<Longrightarrow> last l \<noteq> carriage_return" using last_in_set by metis
    then show ?thesis
      using lines_infix(2) [OF l] by (auto simp: clean_line_def strip_cr_def)
  qed
  then show ?thesis by (simp add: list_all_iff)
qed

lemma rewrite_lines:
  assumes "carriage_return \<notin> set s"
  shows "lines (rewrite_seaweedfs_internal s) = map rewrite_line (lines s)"
  unfolding rewrite_seaweedfs_internal_def
  using lines_clean [OF assms] by (intro lines_unlines) (auto simp: list_all_iff rewrite_line_clean)

lemma rewrite_idem:
  assumes "carriage_return \<notin> set s"
  shows "rewrite_seaweedfs_internal (rewrite_seaweedfs_internal s) = rewrite_seaweedfs_internal s"
proof -
  have "rewrite_seaweedfs_internal (rewrite_seaweedfs_internal s) =
      unlines (map rewrite_line (lines (rewrite_seaweedfs_internal s)))"
    by (rule rewrite_seaweedfs_internal_def)
  also have "\<dots> = unlines (map rewrite_line (lines s))"
    unfolding rewrite_lines [OF assms] by (simp add: rewrite_line_idem comp_def)
  finally show ?thesis unfolding rewrite_seaweedfs_internal_def [of s] .
qed

lemma ensure_root_env_cases:
  assumes "file_laws M" and "run_state (ensure_root_env M root) w = (Inr r, w1)"
  obtains (there) "file_exists M (path_join root ''.env'') w" "w1 = w" "r = EnvAlreadyPresent"
  | (made) contents where "\<not> file_exists M (path_join root ''.env'') w" "r = Created"
      "read_text M (path_join root ''.env.example'') w = Inr contents"
      "read_text M (path_join root ''.env'') w1 = Inr (rewrite_seaweedfs_internal contents)"
      "file_exists M (path_join root ''.env'') w1" "other_files_kept M (path_join root ''.env'') w w1"
proof (cases "file_exists M (path_join root ''.env'') w")
  case True
  then have "w1 = w" "r = EnvAlreadyPresent" using assms(2) by (simp_all add: ensure_root_env_def)
  with True show ?thesis by (rule there)
next
  case False
  show ?thesis
  proof (cases "read_text M (path_join root ''.env.example'') w")
    case (Inl err)
    then show ?thesis using False assms(2) by (simp add: ensure_root_env_def)
  next
    case (Inr contents)
    obtain x w' where x: "write_text M (path_join root ''.env'') (rewrite_seaweedfs_internal contents) w = (x, w')"
      by (rule prod.exhaust)
    then have "x = Inr ()" "w' = w1" "r = Created"
      using False Inr assms(2) by (cases x; simp add: ensure_root_env_def)+
    then show ?thesis using x made False Inr file_lawsD(1) [OF assms(1)] by metis
  qed
qed

lemma ensure_copy_cases:
  assumes "file_laws M" and "run_state (ensure_copy M example dest) w = (Inr r, w1)"
  obtains (kept) "file_exists M dest w \<or> \<not> file_exists M example w" "w1 = w" "r = EnvAlreadyPresent"
  | (copied) "\<not> file_exists M dest w" "file_exists M dest w1" "read_text M dest w1 = read_text M example w"
      "\<forall>q. q \<noteq> dest \<longrightarrow> read_text M q w1 = read_text M q w \<and> (file_exists M q w \<longrightarrow> file_exists M q w1)"
proof (cases "file_exists M dest w \<or> \<not> file_exists M example w")
  case True
  then have "w1 = w" "r = EnvAlreadyPresent" using assms(2) by (auto simp: ensure_copy_def split: if_splits)
  with True show ?thesis by (rule kept)
next
  case False
  obtain m w' where m: "run_state (make_parent M dest) w = (m, w')" by (rule prod.exhaust)
  then obtain u where u: "m = Inr u" using False assms(2) by (cases m) (auto simp: ensure_copy_def)
  obtain x w'' where x: "copy_file M example dest w' = (x, w'')" by (rule prod.exhaust)
  have "x = Inr ()" "w'' = w1"
    using False assms(2) m u x by (cases x; simp add: ensure_copy_def)+
  then have c: "read_text M dest w1 = read_text M example w'" "file_exists M dest w1" "other_files_kept M dest w' w1"
    using x file_lawsD(2) [OF assms(1)] by blast+
  show ?thesis
    using copied False c make_parent_keeps [OF assms(1) m] by (metis other_files_kept_def)
qed

text \<open>
  C32: Setting up the \<open>.env\<close> files never changes one that exists. A root \<open>.env\<close> it creates has the
  example's lines, all of them in order, with the internal SeaweedFS endpoint pointing to the host
  and no other line changed; and once it succeeded, setting them up again finds both and changes
  nothing.
\<close>

theorem env_files_never_overwritten:
  assumes "file_laws M" and "run_state (ensure_env_files M root) w = (Inr b, w1)"
  shows "(\<forall>f \<in> {''.env'', ''apps/mobile/.env''}. file_exists M (path_join root f) w \<longrightarrow>
       read_text M (path_join root f) w1 = read_text M (path_join root f) w) \<and>
    (\<not> file_exists M (path_join root ''.env'') w \<longrightarrow>
       (\<exists>ex. read_text M (path_join root ''.env.example'') w = Inr ex \<and>
          read_text M (path_join root ''.env'') w1 = Inr (rewrite_seaweedfs_internal ex) \<and>
          (carriage_return \<notin> set ex \<longrightarrow> lines (rewrite_seaweedfs_internal ex) = map rewrite_line (lines ex)))) \<and>
    run_state (ensure_env_files M root) w1 = (Inr \<lparr>eb_root = EnvAlreadyPresent, eb_mobile = EnvAlreadyPresent\<rparr>, w1)"
proof -
  let ?env = "path_join root ''.env''" and ?mob = "path_join root ''apps/mobile/.env''"
  let ?ex = "path_join root ''apps/mobile/.env.example''"
  obtain r1 v where 1: "run_state (ensure_root_env M root) w = (r1, v)" by (rule prod.exhaust)
  obtain a where a: "r1 = Inr a" using assms(2) 1 by (cases r1) (auto simp: ensure_env_files_def)
  obtain r2 v2 where 2: "run_state (ensure_copy M ?ex ?mob) v = (r2, v2)" by (rule prod.exhaust)
  obtain c where c: "r2 = Inr c" "v2 = w1" using assms(2) 1 2 a by (cases r2) (auto simp: ensure_env_files_def)
  have ne: "?env \<noteq> ?mob" "?ex \<noteq> ?env" "?ex \<noteq> ?mob" by (simp_all add: path_join_inject)
  have root: "file_exists M ?env v \<and> (file_exists M ?env w \<longrightarrow> v = w) \<and>
      (\<not> file_exists M ?env w \<longrightarrow> (\<exists>ex. read_text M (path_join root ''.env.example'') w = Inr ex \<and>
          read_text M ?env v = Inr (rewrite_seaweedfs_internal ex))) \<and>
      read_text M ?mob v = read_text M ?mob w \<and> (file_exists M ?mob w \<longrightarrow> file_exists M ?mob v)"
    by (rule ensure_root_env_cases [OF assms(1) 1 [unfolded a]])
       (use ne in \<open>auto simp: other_files_kept_def\<close>)
  have mob: "read_text M ?env w1 = read_text M ?env v \<and> file_exists M ?env w1 \<and>
      (file_exists M ?mob v \<longrightarrow> w1 = v) \<and> (file_exists M ?mob w1 \<or> w1 = v \<and> \<not> file_exists M ?ex w1)"
    by (rule ensure_copy_cases [OF assms(1) 2 [unfolded c]]) (use root ne in auto)
  have "run_state (ensure_env_files M root) w1 = (Inr \<lparr>eb_root = EnvAlreadyPresent, eb_mobile = EnvAlreadyPresent\<rparr>, w1)"
    using mob by (auto simp: ensure_env_files_def ensure_root_env_def ensure_copy_def)
  then show ?thesis using root mob rewrite_lines by auto
qed

section \<open>A concrete machine\<close>

text \<open>
  A machine with files that are texts by path and a log of what was printed; \<open>run\<close> is what its
  commands answer.
\<close>

record disk =
  disk_file :: "string \<Rightarrow> string option"
  disk_log :: "string list"

definition empty_disk :: disk where
  "empty_disk = \<lparr>disk_file = (\<lambda>_. None), disk_log = []\<rparr>"

definition sample_machine :: "(string \<Rightarrow> string list \<Rightarrow> disk \<Rightarrow> (string + bool \<times> string \<times> string) \<times> disk) \<Rightarrow> disk machine" where
  "sample_machine run =
     \<lparr>spawn = run, spawn_status = (\<lambda>p as d. (Inl ''not found'', d)), os_name = ''linux'', arch_name = ''x86_64'',
      get_var = (\<lambda>v d. if v = ''HOME'' then Some ''/h'' else None),
      set_var = (\<lambda>v s d. d),
      file_exists = (\<lambda>p d. disk_file d p \<noteq> None),
      is_dir = (\<lambda>p d. False),
      is_file = (\<lambda>p d. disk_file d p \<noteq> None),
      read_dir = (\<lambda>p d. Inl ''no directory''),
      read_text = (\<lambda>p d. case disk_file d p of None \<Rightarrow> Inl ''no file'' | Some t \<Rightarrow> Inr t),
      write_text = (\<lambda>p t d. (Inr (), d\<lparr>disk_file := (disk_file d)(p \<mapsto> t)\<rparr>)),
      make_dirs = (\<lambda>p d. (Inr (), d)),
      copy_file = (\<lambda>p q d. case disk_file d p of None \<Rightarrow> (Inl ''no file'', d)
                              | Some t \<Rightarrow> (Inr (), d\<lparr>disk_file := (disk_file d)(q \<mapsto> t)\<rparr>)),
      stdin_tty = (\<lambda>d. False),
      next_line = (\<lambda>d. (Inr [], d)),
      put_text = (\<lambda>s d. d\<lparr>disk_log := disk_log d @ [s]\<rparr>),
      put_error = (\<lambda>s d. d),
      pause = (\<lambda>n d. d)\<rparr>"

lemma sample_file_laws: "file_laws (sample_machine run)"
  by (auto simp: file_laws_def other_files_kept_def sample_machine_def split: option.splits)

lemma sample_ensure_ok: "\<exists>r w1. run_state (ensure_profile_block (sample_machine run) p b) empty_disk = (Inr r, w1)"
proof -
  have e: "run_state (make_parent (sample_machine run) p) w = (Inr (), w)" for w
    by (simp add: make_parent_def sample_machine_def split: option.splits)
  show ?thesis
    by (simp add: ensure_profile_block_def e split: option.splits)
       (simp add: sample_machine_def empty_disk_def)
qed

definition no_commands :: "string \<Rightarrow> string list \<Rightarrow> disk \<Rightarrow> (string + bool \<times> string \<times> string) \<times> disk" where
  "no_commands program args d = (Inl ''not found'', d)"

theorem profile_block_idempotent_witness:
  "\<exists>w1. run_state (ensure_profile_block (sample_machine no_commands) ''/h/.bashrc'' ''export A=1'') w1 =
     (Inr ProfileAlreadyPresent, w1)"
proof -
  obtain r w1 where r: "run_state (ensure_profile_block (sample_machine no_commands) ''/h/.bashrc'' ''export A=1'') empty_disk = (Inr r, w1)"
    using sample_ensure_ok by blast
  have t: "profile_text (sample_machine no_commands) ''/h/.bashrc'' empty_disk = Inr []"
    by (simp add: profile_text_def sample_machine_def empty_disk_def)
  have m: "well_marked []" by (simp add: well_marked_def BEGIN_MARK_def)
  have c: "\<not> contains ''export A=1'' END_MARK" by (simp add: contains_def END_MARK_def)
  show ?thesis using profile_block_idempotent [OF sample_file_laws t m c r] by blast
qed

definition example_disk :: disk where
  "example_disk = empty_disk\<lparr>disk_file := [''/r/.env.example'' \<mapsto> ''A=1'']\<rparr>"

theorem env_files_never_overwritten_witness:
  "\<exists>b w1. run_state (ensure_env_files (sample_machine no_commands) ''/r'') example_disk = (Inr b, w1) \<and>
     run_state (ensure_env_files (sample_machine no_commands) ''/r'') w1 =
       (Inr \<lparr>eb_root = EnvAlreadyPresent, eb_mobile = EnvAlreadyPresent\<rparr>, w1)"
proof -
  have "\<exists>b w1. run_state (ensure_env_files (sample_machine no_commands) ''/r'') example_disk = (Inr b, w1)"
    by (simp add: ensure_env_files_def ensure_root_env_def ensure_copy_def path_join_def sample_machine_def
        example_disk_def empty_disk_def)
  then obtain b w1 where r: "run_state (ensure_env_files (sample_machine no_commands) ''/r'') example_disk = (Inr b, w1)"
    by blast
  show ?thesis using r env_files_never_overwritten [OF sample_file_laws r] by blast
qed

end
