(* ===== verification/Dev_Packages.thy ===== *)
theory Dev_Packages
  imports Dev_Files
begin

text \<open>
  Installing packages (\<open>pkg.rs\<close>), the outcome of handling one tool (\<open>tools/mod.rs\<close>) and Docker
  (\<open>tools/docker.rs\<close>): detection, access through \<open>sg\<close>, installation, and the quoting of a command
  line for \<open>sg docker -c\<close>, with the proof that a shell reads the arguments back.
\<close>

section \<open>Outcomes\<close>

datatype tool_outcome =
    ToolPresent string
  | ToolAbsent string
  | Installed string
  | Guided string
  | Skipped string
  | Failed string

fun is_failure :: "tool_outcome \<Rightarrow> bool" where
  "is_failure (Failed _) = True"
| "is_failure (ToolAbsent _) = True"
| "is_failure _ = False"

fun is_blocking_failure :: "bool \<Rightarrow> tool_outcome \<Rightarrow> bool" where
  "is_blocking_failure required (Failed _) = True"
| "is_blocking_failure required (ToolAbsent _) = required"
| "is_blocking_failure required (Guided _) = required"
| "is_blocking_failure required (Skipped _) = required"
| "is_blocking_failure required (ToolPresent _) = False"
| "is_blocking_failure required (Installed _) = False"

fun outcome_message :: "tool_outcome \<Rightarrow> string" where
  "outcome_message (ToolPresent m) = m"
| "outcome_message (ToolAbsent m) = m"
| "outcome_message (Installed m) = m"
| "outcome_message (Guided m) = m"
| "outcome_message (Skipped m) = m"
| "outcome_message (Failed m) = m"

fun outcome_tag :: "tool_outcome \<Rightarrow> string" where
  "outcome_tag (ToolPresent _) = ''present''"
| "outcome_tag (ToolAbsent _) = ''absent''"
| "outcome_tag (Installed _) = ''installed''"
| "outcome_tag (Guided _) = ''guide''"
| "outcome_tag (Skipped _) = ''skipped''"
| "outcome_tag (Failed _) = ''failed''"

definition format_outcome :: "string \<Rightarrow> tool_outcome \<Rightarrow> string" where
  "format_outcome name outcome = name @ '': ['' @ outcome_tag outcome @ ''] '' @ outcome_message outcome"

text \<open>\<open>Present\<close> or \<open>Installed\<close>: the tool can be used in this session.\<close>

definition usable :: "tool_outcome \<Rightarrow> bool" where
  "usable outcome \<longleftrightarrow> (case outcome of ToolPresent _ \<Rightarrow> True | Installed _ \<Rightarrow> True | _ \<Rightarrow> False)"

section \<open>Package managers\<close>

record package_spec =
  ps_apt :: "string list"
  ps_dnf :: "string list"
  ps_pacman :: "string list"
  ps_brew :: "string list"
  ps_brew_cask :: "string list"

fun brew_install :: "'w machine \<Rightarrow> string list \<Rightarrow> string list \<Rightarrow> ('w, string + unit) action" where
  "brew_install M options [] = ret (Inr ())"
| "brew_install M options (f # fs) =
     do { ok \<leftarrow> succeeds M ''brew'' ([''install''] @ options @ [f]);
          if ok then brew_install M options fs
          else ret (Inl (''`brew install '' @ concat (map (\<lambda>x. x @ '' '') options) @ f @ ''` failed'')) }"

definition install_linux :: "'w machine \<Rightarrow> distro_family \<Rightarrow> package_spec \<Rightarrow> ('w, string + unit) action" where
  "install_linux M family spec =
     (case family of
        Apt \<Rightarrow>
          do { updated \<leftarrow> succeeds M ''sudo'' [''apt-get'', ''update'', ''-qq''];
               if \<not> updated then ret (Inl ''`sudo apt-get update` failed'')
               else
                 do { ok \<leftarrow> succeeds M ''sudo'' ([''apt-get'', ''install'', ''-y'', ''-qq''] @ ps_apt spec);
                      ret (if ok then Inr () else Inl (''`sudo apt-get install '' @ join '' '' (ps_apt spec) @ ''` failed'')) } }
      | Dnf \<Rightarrow>
          do { has_dnf \<leftarrow> succeeds M ''dnf'' [''--version''];
               let pm = (if has_dnf then ''dnf'' else ''yum'');
               ok \<leftarrow> succeeds M ''sudo'' ([pm, ''install'', ''-y''] @ ps_dnf spec);
               ret (if ok then Inr () else Inl (''`sudo '' @ pm @ '' install '' @ join '' '' (ps_dnf spec) @ ''` failed'')) }
      | Pacman \<Rightarrow>
          do { ok \<leftarrow> succeeds M ''sudo'' ([''pacman'', ''-Sy'', ''--needed'', ''--noconfirm''] @ ps_pacman spec);
               ret (if ok then Inr () else Inl (''`sudo pacman -Sy '' @ join '' '' (ps_pacman spec) @ ''` failed'')) })"

definition install_packages :: "'w machine \<Rightarrow> platform \<Rightarrow> package_spec \<Rightarrow> ('w, string + unit) action" where
  "install_packages M p spec =
     (case pf_os p of
        Macos \<Rightarrow>
          do { brew \<leftarrow> succeeds M ''brew'' [''--version''];
               if \<not> brew then ret (Inl ''Homebrew is not installed; install from https://brew.sh'')
               else
                 do { r \<leftarrow> brew_install M [] (ps_brew spec);
                      case r of Inl err \<Rightarrow> ret (Inl err) | Inr _ \<Rightarrow> brew_install M [''--cask''] (ps_brew_cask spec) } }
      | Linux \<Rightarrow>
          (case pf_distro p of
             None \<Rightarrow> ret (Inl ''Linux distro family unknown'')
           | Some family \<Rightarrow> install_linux M family spec))"

definition brew_available :: "'w machine \<Rightarrow> ('w, bool) action" where
  "brew_available M = succeeds M ''brew'' [''--version'']"

section \<open>Docker\<close>

datatype docker_access = Ambient | ViaSg

definition sg_on_path :: "'w machine \<Rightarrow> ('w, bool) action" where
  "sg_on_path M =
     do { r \<leftarrow> run_command M ''bash'' [''-c'', ''command -v sg''];
          ret (case r of Some s \<Rightarrow> trim s \<noteq> [] | None \<Rightarrow> False) }"

definition ensure_sg_available :: "'w machine \<Rightarrow> platform \<Rightarrow> ('w, string + unit) action" where
  "ensure_sg_available M p =
     do { sg \<leftarrow> sg_on_path M;
          if sg then ret (Inr ())
          else if pf_os p \<noteq> Linux then ret (Inr ())
          else
            do { r \<leftarrow> install_packages M p
                   \<lparr>ps_apt = [''util-linux-extra''], ps_dnf = [''util-linux''], ps_pacman = [''util-linux''],
                    ps_brew = [], ps_brew_cask = []\<rparr>;
                 case r of
                   Inl err \<Rightarrow> ret (Inl err)
                 | Inr _ \<Rightarrow>
                     do { now_there \<leftarrow> sg_on_path M;
                          ret (if now_there then Inr ()
                               else Inl ''`sg`/`newgrp` still missing after package install (need util-linux-extra on Ubuntu)'') } } }"

definition probe_docker_access :: "'w machine \<Rightarrow> ('w, docker_access option) action" where
  "probe_docker_access M =
     do { ambient \<leftarrow> succeeds M ''docker'' [''info''];
          if ambient then ret (Some Ambient)
          else
            do { sg \<leftarrow> sg_on_path M;
                 if \<not> sg then ret None
                 else
                   do { via \<leftarrow> succeeds M ''sg'' [''docker'', ''-c'', ''docker info''];
                        ret (if via then Some ViaSg else None) } } }"

definition shell_safe :: "char \<Rightarrow> bool" where
  "shell_safe c \<longleftrightarrow> is_ascii_alphanumeric c \<or> c \<in> set ''-_./:=@,''"

definition quote_char :: char where "quote_char = CHR 0x27"
definition backslash :: char where "backslash = CHR 0x5C"

text \<open>Each quote inside becomes \<open>'\''\<close>: close, an escaped quote, open again.\<close>

definition escape_quotes :: "string \<Rightarrow> string" where
  "escape_quotes a =
     concat (map (\<lambda>c. if c = quote_char then [quote_char, backslash, quote_char, quote_char] else [c]) a)"

definition quote_arg :: "string \<Rightarrow> string" where
  "quote_arg a = (if list_all shell_safe a then a else [quote_char] @ escape_quotes a @ [quote_char])"

definition shell_join :: "string list \<Rightarrow> string" where
  "shell_join args = join '' '' (map quote_arg args)"

definition run_docker :: "'w machine \<Rightarrow> docker_access \<Rightarrow> string list \<Rightarrow> ('w, command_output) action" where
  "run_docker M access args =
     (case access of
        Ambient \<Rightarrow> run_output M ''docker'' args
      | ViaSg \<Rightarrow> run_output M ''sg'' [''docker'', ''-c'', ''docker '' @ shell_join args])"

definition present_message :: "platform \<Rightarrow> docker_access \<Rightarrow> string \<Rightarrow> string" where
  "present_message p access version =
     version @ (if pf_is_wsl p then '' (WSL '' @ em_dash @ '' Docker Desktop socket OK)'' else '''') @
     (if access = ViaSg then '' [session uses sg docker]'' else '''')"

definition version_from_info :: "string \<Rightarrow> string \<Rightarrow> string" where
  "version_from_info output fallback = or_default fallback (server_version (lines output))"

definition try_present :: "'w machine \<Rightarrow> platform \<Rightarrow> ('w, tool_outcome option) action" where
  "try_present M p =
     do { found \<leftarrow> probe_docker_access M;
          case found of
            None \<Rightarrow> ret None
          | Some access \<Rightarrow>
              do { r \<leftarrow> (if access = Ambient then run_command M ''docker'' [''info'']
                        else run_command M ''sg'' [''docker'', ''-c'', ''docker info'']);
                   let fallback = (if access = Ambient then ''daemon reachable'' else ''daemon reachable via sg'');
                   let version = (case r of Some out \<Rightarrow> version_from_info out fallback | None \<Rightarrow> fallback);
                   ret (Some (ToolPresent (present_message p access version))) } }"

text \<open>The installation on Linux, after the user agreed.\<close>

definition install_docker :: "'w machine \<Rightarrow> platform \<Rightarrow> ('w, tool_outcome) action" where
  "install_docker M p =
     do { sg \<leftarrow> ensure_sg_available M p;
          case sg of
            Inl e \<Rightarrow> ret (Failed (''need `sg`/`newgrp` for same-session docker group access: '' @ e))
          | Inr _ \<Rightarrow>
              do { out \<leftarrow> run_output M ''sh'' [''-c'', ''curl -fsSL https://get.docker.com | sh''];
                   if \<not> status_ok out
                   then ret (Failed (''get.docker.com install script failed: '' @ failure_detail out))
                   else
                     do { user \<leftarrow> look (\<lambda>w. or_default ''USER'' (get_var M ''USER'' w));
                          _ \<leftarrow> run_command M ''sh'' [''-c'', ''sudo usermod -aG docker '' @ user];
                          _ \<leftarrow> run_command M ''sudo'' [''systemctl'', ''enable'', ''--now'', ''docker''];
                          access \<leftarrow> probe_docker_access M;
                          case access of
                            Some Ambient \<Rightarrow>
                              ret (Installed (''Docker Engine installed. User `'' @ user @ ''` was added to the docker group.''))
                          | Some ViaSg \<Rightarrow>
                              ret (Installed (''Docker Engine installed. User `'' @ user @
                                ''` was added to the docker group; this session will use `sg docker` until you log out/in (or `newgrp docker`).''))
                          | None \<Rightarrow>
                              do { on_path \<leftarrow> sg_on_path M;
                                   let sg_hint = (if on_path then ''Log out and back in (or `newgrp docker`)''
                                     else ''Install util-linux-extra (provides `sg`/`newgrp`), then log out and back in'');
                                   ret (Failed (''Docker Engine installed and user `'' @ user @
                                     ''` added to the docker group, but the daemon is not reachable in this session. '' @
                                     sg_hint @ '', verify with `docker info`, then re-run with --start.'')) } } } }"

definition ensure_docker :: "'w machine \<Rightarrow> platform \<Rightarrow> prompt_policy \<Rightarrow> bool \<Rightarrow> ('w, tool_outcome) action" where
  "ensure_docker M p policy check_only =
     do { found \<leftarrow> try_present M p;
          case found of
            Some outcome \<Rightarrow> ret outcome
          | None \<Rightarrow>
              do { again \<leftarrow>
                     (if \<not> check_only \<and> pf_os p = Linux
                      then do { sg \<leftarrow> ensure_sg_available M p;
                                case sg of Inr _ \<Rightarrow> try_present M p | Inl _ \<Rightarrow> ret None }
                      else ret None);
                   case again of
                     Some outcome \<Rightarrow> ret outcome
                   | None \<Rightarrow>
                       if check_only
                       then ret (ToolAbsent ''docker daemon not reachable (is Docker installed and running?)'')
                       else if pf_os p = Macos
                       then ret (Guided ''Install Docker Desktop for Mac from https://www.docker.com/products/docker-desktop/ then re-run'')
                       else
                         do { yes \<leftarrow> confirm_required M policy
                                (if pf_is_wsl p
                                 then ''Docker daemon not reachable in WSL. Install Docker Engine via get.docker.com? (prefer enabling Docker Desktop WSL integration if you use Desktop)''
                                 else ''Docker missing. Install via get.docker.com and add your user to the docker group?'');
                              if \<not> yes then ret (Skipped ''user declined Docker install'')
                              else install_docker M p } } }"

section \<open>What a shell reads\<close>

text \<open>
  The words of a POSIX shell command without expansions: blanks separate, single quotes take
  everything up to the next one, a backslash takes the next character. The word read so far is
  \<open>None\<close> between words.
\<close>

fun sh_lex :: "string \<Rightarrow> bool \<Rightarrow> string option \<Rightarrow> string list" where
  "sh_lex [] quoted cur = (case cur of None \<Rightarrow> [] | Some w \<Rightarrow> [w])"
| "sh_lex (c # s) True cur =
     (if c = quote_char then sh_lex s False cur else sh_lex s True (Some (or_default [] cur @ [c])))"
| "sh_lex [c] False cur =
     (if c = CHR '' '' \<or> c = quote_char then (case cur of None \<Rightarrow> [] | Some w \<Rightarrow> [w])
      else [or_default [] cur @ [c]])"
| "sh_lex (c # d # s) False cur =
     (if c = quote_char then sh_lex (d # s) True (Some (or_default [] cur))
      else if c = backslash then sh_lex s False (Some (or_default [] cur @ [d]))
      else if c = CHR '' '' then (case cur of None \<Rightarrow> [] | Some w \<Rightarrow> [w]) @ sh_lex (d # s) False None
      else sh_lex (d # s) False (Some (or_default [] cur @ [c])))"

definition sh_words :: "string \<Rightarrow> string list" where
  "sh_words s = sh_lex s False None"

lemma specials: "quote_char \<noteq> CHR '' ''" "backslash \<noteq> CHR '' ''" "quote_char \<noteq> backslash" "backslash \<noteq> quote_char"
  by (simp_all add: quote_char_def backslash_def)

lemma shell_safe_plain: "shell_safe c \<Longrightarrow> c \<noteq> quote_char \<and> c \<noteq> backslash \<and> c \<noteq> CHR '' ''"
  by (auto simp: shell_safe_def quote_char_def backslash_def is_ascii_alphanumeric_def is_ascii_lowercase_def
      is_ascii_uppercase_def is_ascii_digit_def byte_def)

lemma sh_lex_safe:
  "list_all shell_safe a \<Longrightarrow> a \<noteq> [] \<or> cur \<noteq> None \<Longrightarrow>
     sh_lex (a @ '' '' @ d # s) False cur = (or_default [] cur @ a) # sh_lex (d # s) False None \<and>
     sh_lex a False cur = [or_default [] cur @ a]"
proof (induction a arbitrary: cur)
  case Nil
  then show ?case using specials by (auto simp: or_default_def)
next
  case (Cons c a)
  have c: "c \<noteq> quote_char" "c \<noteq> backslash" "c \<noteq> CHR '' ''" using shell_safe_plain Cons.prems by auto
  have ih: "sh_lex (a @ '' '' @ d # s) False (Some (or_default [] cur @ [c])) =
      (or_default [] cur @ c # a) # sh_lex (d # s) False None \<and>
      sh_lex a False (Some (or_default [] cur @ [c])) = [or_default [] cur @ c # a]"
    using Cons.IH [of "Some (or_default [] cur @ [c])"] Cons.prems by (simp add: or_default_def)
  then show ?case using c by (cases a) simp_all
qed

lemma escape_quotes_simps [simp]:
  "escape_quotes [] = []"
  "escape_quotes (c # a) =
     (if c = quote_char then quote_char # backslash # quote_char # quote_char # escape_quotes a else c # escape_quotes a)"
  by (simp_all add: escape_quotes_def)

lemma sh_lex_quoted:
  "sh_lex (escape_quotes a @ quote_char # s) True (Some w) = sh_lex s False (Some (w @ a))"
proof (induction a arbitrary: w)
  case (Cons c a)
  show ?case
  proof (cases "c = quote_char")
    case True
    obtain x y where xy: "escape_quotes a @ quote_char # s = x # y"
      by (cases "escape_quotes a @ quote_char # s") auto
    have "sh_lex (escape_quotes (c # a) @ quote_char # s) True (Some w) =
        sh_lex (x # y) True (Some (w @ [quote_char]))"
      using True xy specials by (simp add: or_default_def)
    then show ?thesis using Cons.IH [of "w @ [quote_char]"] xy True by simp
  qed (use Cons.IH [of "w @ [c]"] in \<open>simp add: or_default_def\<close>)
qed simp

lemma sh_lex_arg:
  assumes "a \<noteq> []"
  shows "sh_lex (quote_arg a @ '' '' @ d # s) False None = a # sh_lex (d # s) False None"
    and "sh_lex (quote_arg a) False None = [a]"
proof -
  have "sh_lex (quote_arg a @ '' '' @ d # s) False None = a # sh_lex (d # s) False None \<and>
      sh_lex (quote_arg a) False None = [a]"
  proof (cases "list_all shell_safe a")
    case True
    then show ?thesis using sh_lex_safe [OF True, of None d s] assms by (simp add: quote_arg_def or_default_def)
  next
    case False
    have q: "sh_lex (quote_char # t) False None = sh_lex t True (Some [])" if "t \<noteq> []" for t
      using that by (cases t) (simp_all add: or_default_def)
    have "sh_lex (quote_arg a @ '' '' @ d # s) False None = sh_lex ('' '' @ d # s) False (Some a)"
      using False q [of "escape_quotes a @ quote_char # '' '' @ d # s"] sh_lex_quoted [of a "'' '' @ d # s" "[]"]
      by (simp add: quote_arg_def)
    moreover have "sh_lex (quote_arg a) False None = sh_lex [] False (Some a)"
      using False q [of "escape_quotes a @ [quote_char]"] sh_lex_quoted [of a "[]" "[]"]
      by (simp add: quote_arg_def)
    ultimately show ?thesis using specials by simp
  qed
  then show "sh_lex (quote_arg a @ '' '' @ d # s) False None = a # sh_lex (d # s) False None"
    and "sh_lex (quote_arg a) False None = [a]" by blast+
qed

lemma quote_arg_not_Nil: "a \<noteq> [] \<Longrightarrow> quote_arg a \<noteq> []"
  by (simp add: quote_arg_def)

lemma sh_words_shell_join: "list_all (\<lambda>a. a \<noteq> []) args \<Longrightarrow> sh_words (shell_join args) = args"
proof (induction args rule: induct_list012)
  case (3 a b args)
  obtain d s where ds: "shell_join (b # args) = d # s"
    using 3(3) quote_arg_not_Nil [of b] by (cases args; cases "quote_arg b") (auto simp: shell_join_def)
  have "shell_join (a # b # args) = quote_arg a @ '' '' @ shell_join (b # args)" by (simp add: shell_join_def)
  then show ?case using 3 ds sh_lex_arg(1) [of a d s] by (simp add: sh_words_def)
qed (simp_all add: shell_join_def sh_words_def sh_lex_arg)



end
