(* ===== verification/Dev_Tools.thy ===== *)
theory Dev_Tools
  imports Dev_Packages
begin

text \<open>
  The core tools (\<open>tools/rust.rs\<close>, \<open>sccache.rs\<close>, \<open>moon.rs\<close>, \<open>node.rs\<close>, \<open>npm.rs\<close>): each is detected
  by running it, reported as absent in check mode, and otherwise installed after a prompt; and the
  proof that the test of Node's version is the range it quotes.
\<close>

section \<open>Rust and sccache\<close>

definition ensure_rust :: "'w machine \<Rightarrow> prompt_policy \<Rightarrow> bool \<Rightarrow> ('w, tool_outcome) action" where
  "ensure_rust M policy check_only =
     do { rustup \<leftarrow> run_command M ''rustup'' [''--version''];
          cargo \<leftarrow> run_command M ''cargo'' [''--version''];
          rustc \<leftarrow> run_command M ''rustc'' [''--version''];
          case (rustup, cargo, rustc) of
            (Some ru, Some ca, Some rc) \<Rightarrow> ret (ToolPresent (ru @ ''; '' @ ca @ ''; '' @ rc))
          | _ \<Rightarrow>
              if check_only
              then ret (ToolAbsent ''rustup/cargo/rustc not found (run bootstrap.sh or pass without --check to install)'')
              else
                do { yes \<leftarrow> confirm_required M policy ''rustup/cargo/rustc missing. Install via rustup?'';
                     if \<not> yes then ret (Skipped ''user declined rustup install'')
                     else
                       do { ok \<leftarrow> succeeds M ''sh'' [''-c'',
                              ''curl --proto '' @ [quote_char] @ ''=https'' @ [quote_char] @ '' --tlsv1.2 -sSf https://sh.rustup.rs | sh -s -- -y --default-toolchain stable --component rustfmt,clippy''];
                            ret (if ok then Installed ''rustup installed (restart shell if cargo is not on PATH)''
                                 else Failed ''rustup install script failed'') } } }"

definition SCCACHE_VERSION :: string where "SCCACHE_VERSION = ''0.18.0''"

definition ensure_sccache :: "'w machine \<Rightarrow> prompt_policy \<Rightarrow> bool \<Rightarrow> ('w, tool_outcome) action" where
  "ensure_sccache M policy check_only =
     do { found \<leftarrow> run_command M ''sccache'' [''--version''];
          case found of
            Some version \<Rightarrow> ret (ToolPresent version)
          | None \<Rightarrow>
              if check_only then ret (ToolAbsent ''sccache not found (required by .cargo/config.toml rustc-wrapper)'')
              else
                do { yes \<leftarrow> confirm_required M policy ''sccache missing (required). Install via cargo?'';
                     if \<not> yes then ret (Skipped ''user declined sccache install'')
                     else
                       do { ok \<leftarrow> succeeds M ''sh'' [''-c'', ''RUSTC_WRAPPER= cargo install sccache --locked --version '' @ SCCACHE_VERSION];
                            ret (if ok then Installed (''sccache '' @ SCCACHE_VERSION @ '' installed'')
                                 else Failed ''cargo install sccache failed'') } } }"

section \<open>moon\<close>

definition double_quote :: char where "double_quote = CHR 0x22"

definition moon_profile_body :: string where
  "moon_profile_body = ''export PATH='' @ [double_quote] @ ''$HOME/.moon/bin:$HOME/.local/bin:$PATH'' @ [double_quote]"

definition ensure_moon :: "'w machine \<Rightarrow> platform \<Rightarrow> prompt_policy \<Rightarrow> bool \<Rightarrow> ('w, tool_outcome) action" where
  "ensure_moon M p policy check_only =
     do { found \<leftarrow> run_command M ''moon'' [''--version''];
          case found of
            Some version \<Rightarrow> ret (ToolPresent version)
          | None \<Rightarrow>
              if check_only then ret (ToolAbsent ''moon not found'')
              else
                do { yes \<leftarrow> confirm_required M policy ''moon missing. Install via moonrepo install script?'';
                     if \<not> yes then ret (Skipped ''user declined moon install'')
                     else
                       do { ok \<leftarrow> succeeds M ''bash'' [''-c'', ''curl -fsSL https://moonrepo.dev/install/moon.sh | bash''];
                            if ok then
                              do { profile \<leftarrow> shell_profile M p;
                                   _ \<leftarrow> ensure_profile_block M profile moon_profile_body;
                                   ret (Installed ''moon installed to ~/.moon/bin (restart shell or export PATH)'') }
                            else ret (Failed ''moon install script failed'') } } }"

section \<open>Node\<close>

definition NODE_MAJOR :: nat where "NODE_MAJOR = 22"

definition version_parts :: "string \<Rightarrow> nat list" where
  "version_parts version_str =
     List.map_filter parse_u32 (split_on (CHR ''.'') (dropWhile (\<lambda>c. c = CHR ''v'') (trim version_str)))"

definition nth_or_zero :: "nat \<Rightarrow> nat list \<Rightarrow> nat" where
  "nth_or_zero i ns = (if i < length ns then ns ! i else 0)"

definition node_version_ok :: "string \<Rightarrow> bool" where
  "node_version_ok version_str =
     (case version_parts version_str of
        [] \<Rightarrow> False
      | major # rest \<Rightarrow>
          (let minor = nth_or_zero 0 rest; patch = nth_or_zero 1 rest
           in if major = 20 then 19 < minor \<or> minor = 19 \<and> 4 \<le> patch
              else if major = 22 then 13 \<le> minor
              else if major = 24 then 3 \<le> minor
              else 25 \<le> major))"

definition fnm_candidate_dirs :: "string \<Rightarrow> string list" where
  "fnm_candidate_dirs home = [path_join home ''.local/share/fnm'', path_join home ''.fnm'']"

definition resolve_fnm_dir :: "'w machine \<Rightarrow> string \<Rightarrow> ('w, string option) action" where
  "resolve_fnm_dir M home = look (\<lambda>w. find (\<lambda>d. is_file M (path_join d ''fnm'') w) (fnm_candidate_dirs home))"

definition fnm_activate :: string where
  "fnm_activate =
     ''eval '' @ [double_quote] @ ''$(fnm env)'' @ [double_quote] @ '' && fnm install '' @ show_nat NODE_MAJOR @
     '' && fnm default '' @ show_nat NODE_MAJOR @ '' && command -v node && command -v fnm''"

definition fnm_install_and_capture_cmd :: "string \<Rightarrow> string" where
  "fnm_install_and_capture_cmd fnm_dir =
     ''export PATH='' @ [double_quote] @ fnm_dir @ '':$PATH'' @ [double_quote] @ '' && '' @ fnm_activate"

definition prepend_process_path :: "'w machine \<Rightarrow> string list \<Rightarrow> ('w, unit) action" where
  "prepend_process_path M dirs =
     (if dirs = [] then ret ()
      else
        do { old \<leftarrow> look (\<lambda>w. or_default [] (get_var M ''PATH'' w));
             let prefix = join '':'' dirs;
             change (set_var M ''PATH'' (if old = [] then prefix else prefix @ '':'' @ old)) })"

definition install_fnm :: "'w machine \<Rightarrow> platform \<Rightarrow> ('w, string + unit) action" where
  "install_fnm M p =
     (case pf_os p of
        Macos \<Rightarrow>
          do { brew \<leftarrow> brew_available M;
               if \<not> brew then ret (Inl ''Homebrew required to install fnm on macOS'')
               else install_packages M p
                      \<lparr>ps_apt = [], ps_dnf = [], ps_pacman = [], ps_brew = [''fnm''], ps_brew_cask = []\<rparr> }
      | Linux \<Rightarrow>
          do { out \<leftarrow> run_output M ''bash'' [''-c'', ''curl -fsSL https://fnm.vercel.app/install | bash -s -- --skip-shell''];
               ret (if status_ok out then Inr () else Inl (''fnm install script failed: '' @ failure_detail out)) })"

definition add_new :: "string list \<Rightarrow> string option \<Rightarrow> string list" where
  "add_new dirs d = (case d of None \<Rightarrow> dirs | Some x \<Rightarrow> if x \<in> set dirs then dirs else dirs @ [x])"

text \<open>
  The directories of the last two lines printed (\<open>command -v node\<close>, then \<open>command -v fnm\<close>), behind
  the directory of fnm.
\<close>

definition node_path_dirs :: "string \<Rightarrow> string \<Rightarrow> string list" where
  "node_path_dirs fnm_dir out =
     (let paths = filter (\<lambda>l. l \<noteq> []) (map trim (lines out));
          dirs0 = (if fnm_dir = [] then [] else [fnm_dir]);
          dirs1 = (if paths = [] then dirs0 else add_new dirs0 (path_parent (last paths)))
      in if 2 \<le> length paths then add_new dirs1 (path_parent (paths ! (length paths - 2))) else dirs1)"

definition fnm_profile_body :: string where
  "fnm_profile_body =
     ''export PATH='' @ [double_quote] @ ''$HOME/.local/share/fnm:$HOME/.fnm:$PATH'' @ [double_quote] @ [newline] @
     ''eval '' @ [double_quote] @ ''$(fnm env)'' @ [double_quote] @ [newline] @
     ''export PATH='' @ [double_quote] @ ''$HOME/.local/bin:$PATH'' @ [double_quote]"

text \<open>The installation, once fnm is there; \<open>fnm_dir\<close> is empty when fnm is only on the path.\<close>

definition install_node :: "'w machine \<Rightarrow> platform \<Rightarrow> string \<Rightarrow> ('w, tool_outcome) action" where
  "install_node M p fnm_dir =
     do { out \<leftarrow> run_output M ''bash'' [''-c'', if fnm_dir = [] then fnm_activate else fnm_install_and_capture_cmd fnm_dir];
          if \<not> status_ok out then ret (Failed (''fnm install/default failed: '' @ failure_detail out))
          else
            do { alias_there \<leftarrow> look (is_dir M (path_join fnm_dir ''aliases/default/bin''));
                 let path_dirs = node_path_dirs fnm_dir (stdout out) @
                   (if fnm_dir \<noteq> [] \<and> alias_there then [path_join fnm_dir ''aliases/default/bin''] else []);
                 _ \<leftarrow> prepend_process_path M path_dirs;
                 profile \<leftarrow> shell_profile M p;
                 _ \<leftarrow> ensure_profile_block M profile fnm_profile_body;
                 ret (Installed (''fnm + Node '' @ show_nat NODE_MAJOR @ '' installed (restart shell or: eval '' @
                   [double_quote] @ ''$(fnm env)'' @ [double_quote] @ '')'')) } }"

definition ensure_node :: "'w machine \<Rightarrow> platform \<Rightarrow> prompt_policy \<Rightarrow> bool \<Rightarrow> ('w, tool_outcome) action" where
  "ensure_node M p policy check_only =
     do { found \<leftarrow> run_command M ''node'' [''--version''];
          let current = (case found of Some version \<Rightarrow> node_version_ok version | None \<Rightarrow> False);
          if current then ret (ToolPresent (or_default [] found))
          else if check_only then
            ret (ToolAbsent (case found of
                   Some version \<Rightarrow> ''node '' @ version @ '' does not satisfy ^20.19.4 || ^22.13 || ^24.3 || >=25''
                 | None \<Rightarrow> ''node not found''))
          else
            do { yes \<leftarrow> confirm_required M policy (''Node.js '' @ show_nat NODE_MAJOR @ ''+ missing/too-old. Install via fnm?'');
                 if \<not> yes then ret (Skipped ''user declined fnm/node install'')
                 else
                   do { has_fnm \<leftarrow> succeeds M ''fnm'' [''--version''];
                        installed \<leftarrow> (if has_fnm then ret (Inr ()) else install_fnm M p);
                        case installed of
                          Inl e \<Rightarrow> ret (Failed e)
                        | Inr _ \<Rightarrow>
                            do { dir \<leftarrow> resolve_fnm_dir M (pf_home p);
                                 fnm_dir \<leftarrow>
                                   (case dir of
                                      Some d \<Rightarrow> ret (Some d)
                                    | None \<Rightarrow>
                                        do { on_path \<leftarrow> succeeds M ''fnm'' [''--version''];
                                             ret (if on_path then Some [] else None) });
                                 case fnm_dir of
                                   None \<Rightarrow> ret (Failed ''fnm installed but binary not found under ~/.local/share/fnm or ~/.fnm'')
                                 | Some d \<Rightarrow> install_node M p d } } } }"

section \<open>Mobile dependencies\<close>

definition ensure_mobile_deps :: "'w machine \<Rightarrow> prompt_policy \<Rightarrow> bool \<Rightarrow> string \<Rightarrow> ('w, tool_outcome) action" where
  "ensure_mobile_deps M policy check_only repo_root =
     do { let mobile = path_join repo_root ''apps/mobile'';
          there \<leftarrow> look (is_dir M (path_join mobile ''node_modules''));
          if there then ret (ToolPresent ''apps/mobile/node_modules present'')
          else if check_only then ret (ToolAbsent ''apps/mobile/node_modules missing (run npm ci)'')
          else
            do { has_node \<leftarrow> succeeds M ''node'' [''--version''];
                 if \<not> has_node then ret (Failed ''node not on PATH; cannot run npm ci'')
                 else
                   do { yes \<leftarrow> confirm_required M policy ''apps/mobile dependencies missing. Run `npm ci`?'';
                        if \<not> yes then ret (Skipped ''user declined npm ci'')
                        else
                          do { ok \<leftarrow> succeeds M ''sh'' [''-c'', ''cd '' @ [quote_char] @ mobile @ [quote_char] @ '' && npm ci''];
                               ret (if ok then Installed ''npm ci completed in apps/mobile''
                                    else Failed ''npm ci failed in apps/mobile'') } } } }"

section \<open>The Node version range\<close>

text \<open>Versions in their order of precedence, and \<open>^v\<close>: from \<open>v\<close> up to the next major version.\<close>

datatype version = Version (major: nat) (minor: nat) (patch: nat)

instantiation version :: linorder
begin

definition less_eq_version :: "version \<Rightarrow> version \<Rightarrow> bool" where
  "v \<le> w \<longleftrightarrow> major v < major w \<or> major v = major w \<and>
     (minor v < minor w \<or> minor v = minor w \<and> patch v \<le> patch w)"

definition less_version :: "version \<Rightarrow> version \<Rightarrow> bool" where
  "v < w \<longleftrightarrow> v \<le> w \<and> \<not> w \<le> (v::version)"

instance
  by standard (auto simp: less_eq_version_def less_version_def intro: version.expand)

end

definition caret :: "version \<Rightarrow> version set" where
  "caret v = {v ..< Version (Suc (major v)) 0 0}"

lemma in_caret:
  "Version a b c \<in> caret (Version x y z) \<longleftrightarrow> a = x \<and> (y < b \<or> y = b \<and> z \<le> c)"
  by (auto simp: caret_def less_eq_version_def less_version_def)

definition version_text :: "version \<Rightarrow> string" where
  "version_text v = ''v'' @ show_nat (major v) @ ''.'' @ show_nat (minor v) @ ''.'' @ show_nat (patch v)"

lemma digit_not_dot: "is_ascii_digit c \<Longrightarrow> c \<noteq> CHR ''.''"
  by (auto simp: is_ascii_digit_def byte_def)

lemma show_nat_no_dot: "CHR ''.'' \<notin> set (show_nat n)"
  using show_nat_digits [of n] digit_not_dot by (auto simp: list_all_iff)

lemma strip_any_other: "list_all (\<lambda>p. p \<noteq> [] \<and> hd p \<noteq> c) ps \<Longrightarrow> strip_any ps (c # s) = None"
proof (induction ps)
  case (Cons p ps)
  then obtain x xs where "p = x # xs" "x \<noteq> c" by (cases p) auto
  then show ?case using Cons by simp
qed simp

lemma digit_not_blank: "is_ascii_digit c \<Longrightarrow> strip_any (map rev whitespace_encodings) (c # s) = None"
proof (rule strip_any_other)
  have "list_all (\<lambda>p. p \<noteq> [] \<and> \<not> is_ascii_digit (hd p)) (map rev whitespace_encodings)" by code_simp
  moreover assume "is_ascii_digit c"
  ultimately show "list_all (\<lambda>p. p \<noteq> [] \<and> hd p \<noteq> c) (map rev whitespace_encodings)"
    by (auto simp: list_all_iff)
qed

lemma trim_version: "trim (version_text (Version a b c)) = version_text (Version a b c)"
proof -
  have "trim_start (version_text (Version a b c)) = version_text (Version a b c)"
    by (rule trim_start_stop) (simp add: version_text_def whitespace_encodings_def)
  moreover have "trim_end (version_text (Version a b c)) = version_text (Version a b c)"
  proof (rule trim_end_stop)
    obtain xs x where x: "show_nat c = xs @ [x]" by (cases "show_nat c" rule: rev_cases) auto
    then have "is_ascii_digit x" using show_nat_digits [of c] by simp
    then show "strip_any (map rev whitespace_encodings) (rev (version_text (Version a b c))) = None"
      using x digit_not_blank by (simp add: version_text_def)
  qed
  ultimately show ?thesis by (simp add: trim_def)
qed

lemma version_parts_text:
  assumes "a < 2 ^ 32" and "b < 2 ^ 32" and "c < 2 ^ 32"
  shows "version_parts (version_text (Version a b c)) = [a, b, c]"
proof -
  obtain x xs where x: "show_nat a = x # xs" by (cases "show_nat a") auto
  then have "is_ascii_digit x" using show_nat_digits [of a] by simp
  moreover have "\<not> is_ascii_digit (CHR ''v'')" by (simp add: is_ascii_digit_def byte_def)
  ultimately have "x \<noteq> CHR ''v''" by metis
  then have "dropWhile (\<lambda>c. c = CHR ''v'') (version_text (Version a b c)) = show_nat a @ CHR ''.'' # show_nat b @ CHR ''.'' # show_nat c"
    using x by (simp add: version_text_def)
  then show ?thesis
    using assms
    by (simp add: version_parts_def trim_version split_on_Cons split_on_free show_nat_no_dot parse_show_u32 List.map_filter_simps)
qed

text \<open>
  A Node version passes exactly when it lies in the range that React Native declares,
  \<open>^20.19.4 || ^22.13.0 || ^24.3.0 || >=25\<close>, for every version of three numbers below \<open>2^32\<close>, as
  \<open>node --version\<close> prints it.
\<close>

theorem node_version_is_the_range:
  assumes "major v < 2 ^ 32" and "minor v < 2 ^ 32" and "patch v < 2 ^ 32"
  shows "node_version_ok (version_text v) \<longleftrightarrow>
    v \<in> caret (Version 20 19 4) \<union> caret (Version 22 13 0) \<union> caret (Version 24 3 0) \<union> {Version 25 0 0 ..}"
proof (cases v)
  case (Version a b c)
  then have "a < 2 ^ 32" and "b < 2 ^ 32" and "c < 2 ^ 32" using assms by simp_all
  then have "version_parts (version_text v) = [a, b, c]" unfolding Version by (rule version_parts_text)
  then show ?thesis
    by (auto simp: Version in_caret less_eq_version_def node_version_ok_def nth_or_zero_def)
qed

theorem node_version_is_the_range_witness:
  "node_version_ok (version_text (Version 22 13 0)) \<and> \<not> node_version_ok (version_text (Version 22 12 9))"
  using node_version_is_the_range [of "Version 22 13 0"] node_version_is_the_range [of "Version 22 12 9"]
  by (simp add: in_caret less_eq_version_def)

end
