(* ===== verification/Dev_Mobile.thy ===== *)
theory Dev_Mobile
  imports Dev_Tools
begin

text \<open>
  The optional mobile toolchains (\<open>tools/android.rs\<close>, \<open>tools/ios.rs\<close>): JDK, Android SDK and NDK,
  Android Studio, the native pre-build, Xcode and CocoaPods.
\<close>

section \<open>Words of a text\<close>

text \<open>\<open>split_whitespace\<close>: a word goes up to the next whitespace character.\<close>

fun take_word :: "string \<Rightarrow> string \<times> string" where
  "take_word [] = ([], [])"
| "take_word (c # s) =
     (if strip_any whitespace_encodings (c # s) \<noteq> None then ([], c # s)
      else (let (word, rest) = take_word s in (c # word, rest)))"

lemma take_word_length: "length (snd (take_word s)) \<le> length s"
  by (induction s) (auto simp: case_prod_beta)

lemma trim_start_length: "length (trim_start s) \<le> length s"
  using trim_with_suffix [of s whitespace_encodings] unfolding trim_start_def
  by (metis length_append le_add2)

lemma trim_start_fixed: "strip_any whitespace_encodings (trim_start s) = None"
proof -
  have "filter (\<lambda>p. p \<noteq> []) whitespace_encodings = whitespace_encodings" by (simp add: whitespace_encodings_def)
  then show ?thesis using trim_with_fixed [of whitespace_encodings s] by (simp add: trim_start_def)
qed

function split_whitespace :: "string \<Rightarrow> string list" where
  "split_whitespace s =
     (case trim_start s of
        [] \<Rightarrow> []
      | c # t \<Rightarrow> (let (word, rest) = take_word (c # t) in word # split_whitespace rest))"
  by pat_completeness auto
termination
proof (relation "measure length", simp)
  fix s c t x word rest
  assume t: "trim_start s = c # t" and x: "x = take_word (c # t)" and w: "(word, rest) = x"
  have n: "strip_any whitespace_encodings (c # t) = None" using trim_start_fixed [of s] t by simp
  have "length (c # t) \<le> length s" using trim_start_length [of s] t by simp
  moreover have "rest = snd (take_word t)" using x w n by (simp add: case_prod_beta)
  ultimately show "(rest, s) \<in> measure length" using take_word_length [of t] by simp
qed

declare split_whitespace.simps [simp del]

definition trim_char :: "char \<Rightarrow> string \<Rightarrow> string" where
  "trim_char c s = rev (dropWhile (\<lambda>x. x = c) (rev (dropWhile (\<lambda>x. x = c) s)))"

section \<open>JDK\<close>

definition NDK_VERSION :: string where "NDK_VERSION = ''27.1.12297006''"
definition BUILD_TOOLS :: string where "BUILD_TOOLS = ''36.0.0''"
definition COMPILE_SDK :: string where "COMPILE_SDK = ''36''"
definition CMAKE_VERSION :: string where "CMAKE_VERSION = ''3.22.1''"

definition in_jdk_range :: "string \<Rightarrow> bool" where
  "in_jdk_range s = (case parse_u32 s of Some n \<Rightarrow> 17 \<le> n \<and> n < 100 | None \<Rightarrow> False)"

definition java_major_ok :: "string \<Rightarrow> bool" where
  "java_major_ok version_output \<longleftrightarrow>
     list_ex (\<lambda>word. let t = trim_char quote_char (trim_char double_quote word)
                      in (case break_on ''.'' t of Some (maj, _) \<Rightarrow> in_jdk_range maj | None \<Rightarrow> False) \<or>
                         in_jdk_range t)
       (split_whitespace version_output)"

definition jdk_numbers :: "string list" where
  "jdk_numbers = [''17'', ''18'', ''19'', ''20'', ''21'', ''22'', ''23'', ''24'', ''25'']"

definition first_line_of :: "string \<Rightarrow> string" where
  "first_line_of s = (case lines s of [] \<Rightarrow> s | l # _ \<Rightarrow> l)"

definition ensure_jdk :: "'w machine \<Rightarrow> platform \<Rightarrow> prompt_policy \<Rightarrow> bool \<Rightarrow> ('w, tool_outcome) action" where
  "ensure_jdk M p policy check_only =
     do { found \<leftarrow> run_command M ''java'' [''-version''];
          let ok = (case found of
                      Some version \<Rightarrow> list_ex (contains version) jdk_numbers \<or> java_major_ok version
                    | None \<Rightarrow> False);
          if ok then ret (ToolPresent (first_line_of (or_default [] found)))
          else if check_only then ret (ToolAbsent ''JDK 17+ not found'')
          else
            do { yes \<leftarrow> confirm_required M policy ''JDK 17+ missing (needed for Android builds). Install?'';
                 if \<not> yes then ret (Skipped ''user declined JDK install'')
                 else
                   do { r \<leftarrow> install_packages M p
                          \<lparr>ps_apt = [''openjdk-17-jdk''], ps_dnf = [''java-17-openjdk-devel''],
                           ps_pacman = [''jdk17-openjdk''], ps_brew = [], ps_brew_cask = [''temurin@17'']\<rparr>;
                        ret (case r of Inr _ \<Rightarrow> Installed ''JDK 17 installed'' | Inl e \<Rightarrow> Failed e) } } }"

section \<open>SDK and NDK\<close>

definition resolve_sdk_root :: "'w machine \<Rightarrow> platform \<Rightarrow> ('w, string) action" where
  "resolve_sdk_root M p =
     do { home \<leftarrow> environment_var M ''ANDROID_HOME'';
          case home of
            Some v \<Rightarrow> ret v
          | None \<Rightarrow>
              do { root \<leftarrow> environment_var M ''ANDROID_SDK_ROOT'';
                   ret (case root of Some v \<Rightarrow> v | None \<Rightarrow> android_sdk_root p) } }"

definition ensure_unzip :: "'w machine \<Rightarrow> platform \<Rightarrow> ('w, string + unit) action" where
  "ensure_unzip M p =
     do { there \<leftarrow> succeeds M ''unzip'' [''-v''];
          if there then ret (Inr ())
          else
            do { r \<leftarrow> install_packages M p
                   \<lparr>ps_apt = [''unzip''], ps_dnf = [''unzip''], ps_pacman = [''unzip''],
                    ps_brew = [''unzip''], ps_brew_cask = []\<rparr>;
                 case r of
                   Inr _ \<Rightarrow> ret (Inr ())
                 | Inl _ \<Rightarrow>
                     do { on_path \<leftarrow> succeeds M ''which'' [''unzip''];
                          ret (if on_path then Inr ()
                               else Inl ''unzip is required to install Android cmdline-tools'') } } }"

text \<open>A text between double quotes, as the scripts have them.\<close>

definition dq :: "string \<Rightarrow> string" where
  "dq s = [double_quote] @ s @ [double_quote]"

definition sdk_setup_script :: "os_kind \<Rightarrow> string \<Rightarrow> string" where
  "sdk_setup_script os sdk =
     (let os_tag = (case os of Macos \<Rightarrow> ''mac'' | Linux \<Rightarrow> ''linux'');
          zip_url = ''https://dl.google.com/android/repository/commandlinetools-'' @ os_tag @ ''-11076708_latest.zip'';
          cmdline = path_join sdk ''cmdline-tools''
      in [newline] @ unlines
           [''set -euo pipefail'',
            ''mkdir -p '' @ dq sdk,
            ''TMP='' @ dq ''$(mktemp -d)'',
            ''curl -fsSL '' @ dq zip_url @ '' -o '' @ dq ''$TMP/cmdtools.zip'',
            ''unzip -q '' @ dq ''$TMP/cmdtools.zip'' @ '' -d '' @ dq ''$TMP'',
            ''mkdir -p '' @ dq (cmdline @ ''/latest''),
            ''# The zip contains a top-level `cmdline-tools/` directory.'',
            ''if [ -d '' @ dq ''$TMP/cmdline-tools'' @ '' ]; then'',
            ''  cp -R '' @ dq ''$TMP/cmdline-tools/.'' @ '' '' @ dq (cmdline @ ''/latest/''),
            ''else'',
            ''  cp -R '' @ dq ''$TMP/.'' @ '' '' @ dq (cmdline @ ''/latest/''),
            ''fi'',
            ''rm -rf '' @ dq ''$TMP'',
            ''export ANDROID_HOME='' @ dq sdk,
            ''export PATH='' @ dq (cmdline @ ''/latest/bin:$PATH''),
            ''yes | sdkmanager --sdk_root='' @ dq sdk @ '' --licenses >/dev/null || true'',
            ''sdkmanager --sdk_root='' @ dq sdk @ '' '' @ [backslash],
            ''  '' @ dq ''platform-tools'' @ '' '' @ [backslash],
            ''  '' @ dq (''platforms;android-'' @ COMPILE_SDK) @ '' '' @ [backslash],
            ''  '' @ dq (''build-tools;'' @ BUILD_TOOLS) @ '' '' @ [backslash],
            ''  '' @ dq (''ndk;'' @ NDK_VERSION) @ '' '' @ [backslash],
            ''  '' @ dq (''cmake;'' @ CMAKE_VERSION)])"

definition install_cmdline_tools_and_packages :: "'w machine \<Rightarrow> platform \<Rightarrow> string \<Rightarrow> ('w, string + unit) action" where
  "install_cmdline_tools_and_packages M p sdk_root =
     do { unzip \<leftarrow> ensure_unzip M p;
          case unzip of
            Inl e \<Rightarrow> ret (Inl e)
          | Inr _ \<Rightarrow>
              do { ok \<leftarrow> succeeds M ''bash'' [''-c'', sdk_setup_script (pf_os p) sdk_root];
                   ret (if ok then Inr () else Inl ''Android cmdline-tools / sdkmanager install failed'') } }"

definition sdk_profile_body :: "string \<Rightarrow> string" where
  "sdk_profile_body sdk_root =
     ''export ANDROID_HOME='' @ dq sdk_root @ [newline] @
     ''export ANDROID_SDK_ROOT='' @ dq ''$ANDROID_HOME'' @ [newline] @
     ''export ANDROID_NDK_HOME='' @ dq (''$ANDROID_HOME/ndk/'' @ NDK_VERSION) @ [newline] @
     ''export PATH='' @ dq ''$ANDROID_HOME/cmdline-tools/latest/bin:$ANDROID_HOME/platform-tools:$PATH''"

definition ensure_sdk :: "'w machine \<Rightarrow> platform \<Rightarrow> prompt_policy \<Rightarrow> bool \<Rightarrow> ('w, tool_outcome) action" where
  "ensure_sdk M p policy check_only =
     do { sdk_root \<leftarrow> resolve_sdk_root M p;
          ndk_there \<leftarrow> environment_path_exists M (path_join (path_join sdk_root ''ndk'') NDK_VERSION);
          platform_there \<leftarrow>
            (if ndk_there
             then environment_path_exists M (path_join (path_join sdk_root ''platforms'') (''android-'' @ COMPILE_SDK))
             else ret False);
          if platform_there
          then ret (ToolPresent (''SDK at '' @ sdk_root @ '' (NDK '' @ NDK_VERSION @ '', platform '' @ COMPILE_SDK @ '')''))
          else if check_only
          then ret (ToolAbsent (''Android SDK/NDK incomplete (want NDK '' @ NDK_VERSION @ '' + platforms;android-'' @
                 COMPILE_SDK @ '' under '' @ sdk_root @ '')''))
          else
            do { yes \<leftarrow> confirm_required M policy
                   (''Android SDK/NDK missing. Install cmdline-tools + platform-tools, platforms;android-'' @ COMPILE_SDK @
                    '', build-tools;'' @ BUILD_TOOLS @ '', ndk;'' @ NDK_VERSION @ '', cmake;'' @ CMAKE_VERSION @
                    '' into '' @ sdk_root @ ''?'');
                 if \<not> yes then ret (Skipped ''user declined Android SDK install'')
                 else
                   do { r \<leftarrow> install_cmdline_tools_and_packages M p sdk_root;
                        case r of
                          Inl e \<Rightarrow> ret (Failed e)
                        | Inr _ \<Rightarrow>
                            do { profile \<leftarrow> shell_profile M p;
                                 _ \<leftarrow> ensure_profile_block M profile (sdk_profile_body sdk_root);
                                 ret (Installed (''Android SDK installed at '' @ sdk_root @ '' (NDK '' @ NDK_VERSION @
                                   ''). Restart shell to pick up ANDROID_HOME.'')) } } } }"

section \<open>Android Studio and the native build\<close>

text \<open>\<open>||\<close> on actions: the second runs only when the first is false.\<close>

definition or_else_try :: "('w, bool) action \<Rightarrow> ('w, bool) action \<Rightarrow> ('w, bool) action" where
  "or_else_try a b = do { x \<leftarrow> a; if x then ret True else b }"

definition studio_present :: "'w machine \<Rightarrow> platform \<Rightarrow> ('w, bool) action" where
  "studio_present M p =
     (case pf_os p of
        Macos \<Rightarrow> environment_path_exists M ''/Applications/Android Studio.app''
      | Linux \<Rightarrow>
          or_else_try (environment_path_exists M ''/opt/android-studio'')
            (or_else_try (environment_path_exists M (path_join (pf_home p) ''android-studio''))
               (or_else_try (succeeds M ''which'' [''studio'']) (succeeds M ''which'' [''android-studio'']))))"

definition ensure_studio :: "'w machine \<Rightarrow> platform \<Rightarrow> prompt_policy \<Rightarrow> bool \<Rightarrow> ('w, tool_outcome) action" where
  "ensure_studio M p policy check_only =
     do { present \<leftarrow> studio_present M p;
          if present then ret (ToolPresent ''Android Studio IDE found'')
          else if check_only
          then ret (ToolAbsent (''Android Studio IDE not found (optional '' @ em_dash @ '' SDK alone is enough to build)''))
          else
            do { yes \<leftarrow> confirm_optional M policy
                   ''Install Android Studio IDE? (optional; SDK/NDK alone is enough for `expo run:android`)'';
                 if \<not> yes then ret (Skipped ''skipped Android Studio IDE'')
                 else
                   (case pf_os p of
                      Macos \<Rightarrow>
                        do { r \<leftarrow> install_packages M p
                               \<lparr>ps_apt = [], ps_dnf = [], ps_pacman = [], ps_brew = [], ps_brew_cask = [''android-studio'']\<rparr>;
                             ret (case r of Inr _ \<Rightarrow> Installed ''Android Studio installed via Homebrew cask'' | Inl e \<Rightarrow> Failed e) }
                    | Linux \<Rightarrow>
                        ret (Guided ''Download Android Studio from https://developer.android.com/studio and unpack to ~/android-studio (or install the Flatpak/Snap if you prefer)'')) } }"

definition ensure_android ::
  "'w machine \<Rightarrow> platform \<Rightarrow> prompt_policy \<Rightarrow> bool \<Rightarrow> ('w, (string \<times> tool_outcome) list) action" where
  "ensure_android M p policy check_only =
     do { jdk \<leftarrow> ensure_jdk M p policy check_only;
          sdk \<leftarrow> ensure_sdk M p policy check_only;
          studio \<leftarrow> ensure_studio M p policy check_only;
          ret [(''jdk'', jdk), (''android-sdk'', sdk), (''android-studio'', studio)] }"

definition find_node :: "'w machine \<Rightarrow> ('w, string option) action" where
  "find_node M = do { ok \<leftarrow> succeeds M ''node'' [''--version'']; ret (if ok then Some ''node'' else None) }"

definition native_script :: "string \<Rightarrow> string" where
  "native_script repo_root =
     foldl path_join repo_root
       [''apps'', ''mobile'', ''modules'', ''quic-relay-client'', ''scripts'', ''ensure-native-built.js'']"

definition ensure_native_built_android :: "'w machine \<Rightarrow> string \<Rightarrow> ('w, tool_outcome) action" where
  "ensure_native_built_android M repo_root =
     do { there \<leftarrow> look (file_exists M (native_script repo_root));
          if \<not> there
          then ret (Skipped (''ensure-native-built.js not found at '' @ native_script repo_root @ '' '' @ em_dash @
                 '' skipping native pre-build''))
          else
            do { node \<leftarrow> find_node M;
                 case node of
                   None \<Rightarrow>
                     ret (Skipped (''node not found on PATH '' @ em_dash @
                       '' skipping Android native pre-build (run `node scripts/ensure-native-built.js` manually from apps/mobile/modules/quic-relay-client once node is installed)''))
                 | Some program \<Rightarrow>
                     do { r \<leftarrow> State (spawn_status M program [native_script repo_root]);
                          ret (case r of
                                 Inr (True, _) \<Rightarrow> ToolPresent ''quic-relay-client native .a built for all Android ABIs''
                               | Inr (False, st) \<Rightarrow> Failed (''ensure-native-built.js exited with '' @ st @ ''; check output above for details'')
                               | Inl e \<Rightarrow> Failed (''failed to launch node ensure-native-built.js: '' @ e)) } } }"

section \<open>iOS\<close>

definition ensure_xcode :: "'w machine \<Rightarrow> bool \<Rightarrow> ('w, tool_outcome) action" where
  "ensure_xcode M check_only =
     do { app_present \<leftarrow> environment_path_exists M ''/Applications/Xcode.app'';
          clt \<leftarrow> run_command M ''xcode-select'' [''-p''];
          ret (if app_present
               then ToolPresent (''Xcode.app found'' @
                 (case clt of
                    Some path \<Rightarrow> ''; CLT at '' @ path
                  | None \<Rightarrow> ''; Command Line Tools not selected '' @ em_dash @ '' run `sudo xcode-select -s /Applications/Xcode.app`''))
               else if check_only
               then (if clt \<noteq> None
                     then ToolAbsent (''Xcode.app not found (CLT present '' @ em_dash @ '' full Xcode required for iOS simulator builds)'')
                     else ToolAbsent ''Xcode.app and Command Line Tools not found'')
               else Guided ''Install Xcode from the Mac App Store (or https://developer.apple.com/xcode/), then run `sudo xcode-select -s /Applications/Xcode.app` and `sudo xcodebuild -license accept`'') }"

definition ensure_cocoapods :: "'w machine \<Rightarrow> platform \<Rightarrow> prompt_policy \<Rightarrow> bool \<Rightarrow> ('w, tool_outcome) action" where
  "ensure_cocoapods M p policy check_only =
     do { found \<leftarrow> run_command M ''pod'' [''--version''];
          case found of
            Some version \<Rightarrow> ret (ToolPresent (''CocoaPods '' @ version))
          | None \<Rightarrow>
              if check_only then ret (ToolAbsent ''CocoaPods (`pod`) not found'')
              else
                do { yes \<leftarrow> confirm_required M policy ''CocoaPods missing. Install via Homebrew?'';
                     if \<not> yes then ret (Skipped ''user declined CocoaPods install'')
                     else
                       do { r \<leftarrow> install_packages M p
                              \<lparr>ps_apt = [], ps_dnf = [], ps_pacman = [], ps_brew = [''cocoapods''], ps_brew_cask = []\<rparr>;
                            ret (case r of Inr _ \<Rightarrow> Installed ''CocoaPods installed via Homebrew'' | Inl e \<Rightarrow> Failed e) } } }"

definition ensure_ios ::
  "'w machine \<Rightarrow> platform \<Rightarrow> prompt_policy \<Rightarrow> bool \<Rightarrow> ('w, (string \<times> tool_outcome) list) action" where
  "ensure_ios M p policy check_only =
     (if pf_os p \<noteq> Macos then ret []
      else
        do { xcode \<leftarrow> ensure_xcode M check_only;
             pods \<leftarrow> ensure_cocoapods M p policy check_only;
             ret [(''xcode'', xcode), (''cocoapods'', pods)] })"

section \<open>An old JDK passes\<close>

text \<open>
  The version text is searched for the numbers 17 to 25 anywhere, so that the update number of an old
  release is taken for its major version.
\<close>

lemma old_jdk_is_present:
  assumes "run_state (run_command M ''java'' [''-version'']) w = (Some (''openjdk version '' @ dq ''11.0.20''), w')"
  shows "\<exists>msg. run_state (ensure_jdk M p policy check_only) w = (ToolPresent msg, w')"
proof -
  have "contains (''openjdk version '' @ dq ''11.0.20'') ''20''"
    unfolding contains_iff
    by (rule exI [of _ "''openjdk version '' @ [double_quote] @ ''11.0.''"], rule exI [of _ "[double_quote]"])
       (simp add: dq_def)
  then have "list_ex (contains (''openjdk version '' @ dq ''11.0.20'')) jdk_numbers" by (simp add: jdk_numbers_def)
  then show ?thesis using assms by (simp add: ensure_jdk_def)
qed

end
