(* ===== verification/Dev_Start.thy ===== *)
theory Dev_Start
  imports Dev_Packages
begin

text \<open>
  Bringing up the local stack (\<open>start.rs\<close>): compose, the bounded wait for each service, the
  migration. The wait is a recursion on the attempts that are left, so that it ends by definition;
  the lemmas say after how many polls and pauses, and with which answer.
\<close>

datatype step_outcome =
    Success string
  | Failure string

fun step_failed :: "step_outcome \<Rightarrow> bool" where
  "step_failed (Failure _) = True"
| "step_failed (Success _) = False"

definition HEALTH_POLL_INTERVAL :: nat where "HEALTH_POLL_INTERVAL = 1"
definition HEALTH_MAX_ATTEMPTS :: nat where "HEALTH_MAX_ATTEMPTS = 30"
definition COMPOSE_SERVICES :: "string list" where
  "COMPOSE_SERVICES = [''postgres'', ''nats'', ''seaweedfs'']"

definition format_step_outcome :: "step_outcome \<Rightarrow> string" where
  "format_step_outcome outcome =
     (case outcome of
        Success message \<Rightarrow> ''[start] OK: '' @ message
      | Failure message \<Rightarrow> ''[start] FAILED: '' @ message)"

definition health_args :: "string \<Rightarrow> string \<Rightarrow> string list" where
  "health_args project_dir service =
     [''compose'', ''--project-directory'', project_dir, ''ps'', service, ''--format'', ''{{.Health}}'']"

definition poll_health :: "'w machine \<Rightarrow> docker_access \<Rightarrow> string \<Rightarrow> string \<Rightarrow> ('w, bool) action" where
  "poll_health M access project_dir service =
     do { status \<leftarrow> run_docker M access (health_args project_dir service);
          ret (status_ok status \<and> trim (text_of status) = ''healthy'') }"

text \<open>The attempts \<open>attempt, ..., attempt + left - 1\<close>; all but the first pause before they poll.\<close>

fun poll_until_healthy :: "'w machine \<Rightarrow> docker_access \<Rightarrow> string \<Rightarrow> string \<Rightarrow> nat \<Rightarrow> nat \<Rightarrow> ('w, bool) action" where
  "poll_until_healthy M access project_dir service attempt 0 = ret False"
| "poll_until_healthy M access project_dir service attempt (Suc left) =
     do { _ \<leftarrow> (if 0 < attempt then change (pause M HEALTH_POLL_INTERVAL) else ret ());
          healthy \<leftarrow> poll_health M access project_dir service;
          if healthy then ret True
          else poll_until_healthy M access project_dir service (Suc attempt) left }"

definition wait_for_healthy :: "'w machine \<Rightarrow> docker_access \<Rightarrow> string \<Rightarrow> string \<Rightarrow> ('w, string + unit) action" where
  "wait_for_healthy M access project_dir service =
     do { healthy \<leftarrow> poll_until_healthy M access project_dir service 0 HEALTH_MAX_ATTEMPTS;
          ret (if healthy then Inr ()
               else Inl (service @ '' did not become healthy within '' @
                      show_nat (HEALTH_MAX_ATTEMPTS * HEALTH_POLL_INTERVAL) @ ''s -- check `docker compose logs '' @
                      service @ ''`.'')) }"

fun wait_services ::
  "'w machine \<Rightarrow> docker_access \<Rightarrow> string \<Rightarrow> string list \<Rightarrow> step_outcome list \<Rightarrow> ('w, bool \<times> step_outcome list) action" where
  "wait_services M access project_dir [] outcomes = ret (True, outcomes)"
| "wait_services M access project_dir (service # services) outcomes =
     do { r \<leftarrow> wait_for_healthy M access project_dir service;
          case r of
            Inr _ \<Rightarrow> wait_services M access project_dir services (outcomes @ [Success (service @ '' is healthy'')])
          | Inl message \<Rightarrow> ret (False, outcomes @ [Failure message]) }"

definition no_daemon_message :: string where
  "no_daemon_message =
     ''docker daemon not reachable in this session (tried ambient `docker info` and `sg docker -c '' @
     [quote_char] @ ''docker info'' @ [quote_char] @
     ''`). Log out and back in (or `newgrp docker`), then re-run with --start.''"

definition migrate_step :: "bool \<Rightarrow> step_outcome" where
  "migrate_step migrated =
     (if migrated then Success ''moon run api:migrate succeeded''
      else Failure (''moon run api:migrate failed -- see moon'' @ [quote_char] @ ''s own output above for details.''))"

definition up_step :: "docker_access \<Rightarrow> step_outcome" where
  "up_step access =
     Success (''docker compose up -d succeeded'' @ (case access of Ambient \<Rightarrow> '''' | ViaSg \<Rightarrow> '' (via sg docker)''))"

text \<open>The steps once Docker is known to be reachable.\<close>

definition start_with :: "'w machine \<Rightarrow> docker_access \<Rightarrow> string \<Rightarrow> ('w, step_outcome list) action" where
  "start_with M access project_dir =
     do { up \<leftarrow> run_docker M access [''compose'', ''--project-directory'', project_dir, ''up'', ''-d''];
          if \<not> status_ok up then ret [Failure (''docker compose up -d failed: '' @ failure_detail up)]
          else
            do { (ok, outcomes) \<leftarrow> wait_services M access project_dir COMPOSE_SERVICES [up_step access];
                 if \<not> ok then ret outcomes
                 else
                   do { migrated \<leftarrow> succeeds M ''moon'' [''run'', ''api:migrate''];
                        ret (outcomes @ [migrate_step migrated]) } } }"

definition run_start :: "'w machine \<Rightarrow> bool \<Rightarrow> bool \<Rightarrow> string \<Rightarrow> ('w, step_outcome list) action" where
  "run_start M docker_present moon_present repo_root =
     (if \<not> docker_present then
        ret [Failure ''docker is Absent -- skipping --start (nothing was run). Install Docker, then re-run with --start.'']
      else if \<not> moon_present then
        ret [Failure ''moon is Absent -- skipping --start (nothing was run). Install moon, then re-run with --start.'']
      else
        do { found \<leftarrow> probe_docker_access M;
             case found of
               None \<Rightarrow> ret [Failure no_daemon_message]
             | Some access \<Rightarrow> start_with M access repo_root })"

definition maybe_run_start ::
  "'w machine \<Rightarrow> bool \<Rightarrow> bool \<Rightarrow> bool \<Rightarrow> string \<Rightarrow> ('w, step_outcome list option) action" where
  "maybe_run_start M start_requested docker_present moon_present repo_root =
     (if \<not> start_requested then ret None
      else do { outcomes \<leftarrow> run_start M docker_present moon_present repo_root; ret (Some outcomes) })"

section \<open>The wait is bounded\<close>

text \<open>
  The states just before the polls of a wait, and after the last one: a pause, then the poll that
  found the service not healthy.
\<close>

definition poll_result :: "'w machine \<Rightarrow> docker_access \<Rightarrow> string \<Rightarrow> string \<Rightarrow> 'w \<Rightarrow> bool \<times> 'w" where
  "poll_result M access project_dir service w = run_state (poll_health M access project_dir service) w"

fun after_polls :: "'w machine \<Rightarrow> docker_access \<Rightarrow> string \<Rightarrow> string \<Rightarrow> nat \<Rightarrow> 'w \<Rightarrow> 'w" where
  "after_polls M access project_dir service 0 w = w"
| "after_polls M access project_dir service (Suc n) w =
     pause M HEALTH_POLL_INTERVAL (snd (poll_result M access project_dir service (after_polls M access project_dir service n w)))"

lemma after_polls_shift:
  "after_polls M access pd service n (pause M HEALTH_POLL_INTERVAL (snd (poll_result M access pd service w))) =
     after_polls M access pd service (Suc n) w"
  by (induction n) simp_all

lemma poll_until_healthy_run:
  "run_state (poll_until_healthy M access pd service attempt (Suc left)) w =
     (let w0 = (if 0 < attempt then pause M HEALTH_POLL_INTERVAL w else w); (h, w1) = poll_result M access pd service w0
      in if h then (True, w1) else run_state (poll_until_healthy M access pd service (Suc attempt) left) w1)"
  by (simp add: poll_result_def Let_def case_prod_beta)

text \<open>From the second attempt on, the state that counts is the one after the pause.\<close>

lemma poll_until_healthy_spec:
  "fst (run_state (poll_until_healthy M access pd service (Suc attempt) left) w) \<longleftrightarrow>
     (\<exists>i < left. fst (poll_result M access pd service (after_polls M access pd service i (pause M HEALTH_POLL_INTERVAL w))))"
proof (induction left arbitrary: attempt w)
  case (Suc left)
  let ?w0 = "pause M HEALTH_POLL_INTERVAL w"
  obtain h w1 where h: "poll_result M access pd service ?w0 = (h, w1)" by (rule prod.exhaust)
  have shift: "after_polls M access pd service i (pause M HEALTH_POLL_INTERVAL w1) = after_polls M access pd service (Suc i) ?w0" for i
    using after_polls_shift [of M access pd service i ?w0] h by simp
  have step: "fst (run_state (poll_until_healthy M access pd service (Suc attempt) (Suc left)) w) \<longleftrightarrow>
      h \<or> (\<exists>i < left. fst (poll_result M access pd service (after_polls M access pd service (Suc i) ?w0)))"
    unfolding poll_until_healthy_run using h Suc.IH [of "Suc attempt" w1] by (simp add: shift Let_def)
  have "(\<exists>i < Suc left. fst (poll_result M access pd service (after_polls M access pd service i ?w0))) \<longleftrightarrow>
      fst (poll_result M access pd service ?w0) \<or>
      (\<exists>i < left. fst (poll_result M access pd service (after_polls M access pd service (Suc i) ?w0)))"
    unfolding Ex_less_Suc2 by simp
  then show ?case using step h by simp
qed simp

lemma wait_for_healthy_iff:
  "fst (run_state (wait_for_healthy M access pd service) w) = Inr () \<longleftrightarrow>
     (\<exists>i < 30. fst (poll_result M access pd service (after_polls M access pd service i w)))"
proof -
  obtain h w1 where h: "poll_result M access pd service w = (h, w1)" by (rule prod.exhaust)
  have shift: "after_polls M access pd service i (pause M HEALTH_POLL_INTERVAL w1) = after_polls M access pd service (Suc i) w" for i
    using after_polls_shift [of M access pd service i w] h by simp
  have "fst (run_state (poll_until_healthy M access pd service 0 (Suc 29)) w) \<longleftrightarrow>
      h \<or> (\<exists>i < 29. fst (poll_result M access pd service (after_polls M access pd service (Suc i) w)))"
    unfolding poll_until_healthy_run using h poll_until_healthy_spec [of M access pd service 0 29 w1]
    by (simp add: shift Let_def)
  moreover have "(\<exists>i < Suc 29. fst (poll_result M access pd service (after_polls M access pd service i w))) \<longleftrightarrow>
      h \<or> (\<exists>i < 29. fst (poll_result M access pd service (after_polls M access pd service (Suc i) w)))"
    unfolding Ex_less_Suc2 using h by simp
  ultimately show ?thesis
    by (simp add: wait_for_healthy_def HEALTH_MAX_ATTEMPTS_def case_prod_beta)
qed

section \<open>Stopping at the first failure\<close>

lemma wait_services_shape:
  "list_all (\<lambda>x. \<not> step_failed x) outcomes \<Longrightarrow>
     run_state (wait_services M access pd services outcomes) w = ((ok, result), w') \<Longrightarrow>
     (if ok then list_all (\<lambda>x. \<not> step_failed x) result \<and> length result = length outcomes + length services
      else \<exists>done msg. result = done @ [Failure msg] \<and> list_all (\<lambda>x. \<not> step_failed x) done)"
proof (induction services arbitrary: outcomes w)
  case (Cons s ss)
  obtain r w1 where r: "run_state (wait_for_healthy M access pd s) w = (r, w1)" by (rule prod.exhaust)
  show ?case
  proof (cases r)
    case (Inl m)
    then show ?thesis using Cons.prems r by auto
  next
    case (Inr u)
    then show ?thesis
      using Cons.IH [of "outcomes @ [Success (s @ '' is healthy'')]" w1] Cons.prems r by auto
  qed
qed auto

definition ends_in_failure :: "step_outcome list \<Rightarrow> bool" where
  "ends_in_failure outcomes \<longleftrightarrow>
     outcomes \<noteq> [] \<and> step_failed (last outcomes) \<and> list_all (\<lambda>x. \<not> step_failed x) (butlast outcomes)"

lemma ends_in_failure_one: "ends_in_failure [Failure msg]"
  by (simp add: ends_in_failure_def)

lemma start_with_shape:
  assumes "run_state (start_with M access root) w = (outcomes, w')"
  shows "ends_in_failure outcomes \<or> list_all (\<lambda>x. \<not> step_failed x) outcomes \<and> length outcomes = 5"
proof -
  obtain up w2 where up: "run_state (run_docker M access [''compose'', ''--project-directory'', root, ''up'', ''-d'']) w = (up, w2)"
    by (rule prod.exhaust)
  show ?thesis
  proof (cases "status_ok up")
    case False
    then show ?thesis using assms up by (auto simp: start_with_def ends_in_failure_def)
  next
    case ok: True
    obtain b result w3 where s: "run_state (wait_services M access root COMPOSE_SERVICES [up_step access]) w2 = ((b, result), w3)"
      by (metis surj_pair)
    have shape: "if b then list_all (\<lambda>x. \<not> step_failed x) result \<and> length result = 4
        else \<exists>done msg. result = done @ [Failure msg] \<and> list_all (\<lambda>x. \<not> step_failed x) done"
      using wait_services_shape [OF _ s] by (simp add: COMPOSE_SERVICES_def up_step_def split: if_splits)
    obtain m w4 where m: "run_state (succeeds M ''moon'' [''run'', ''api:migrate'']) w3 = (m, w4)" by (rule prod.exhaust)
    have "outcomes = (if \<not> b then result else result @ [migrate_step m])"
      using assms ok up s m by (cases b) (simp_all add: start_with_def)
    then show ?thesis using shape by (cases b; cases m) (auto simp: ends_in_failure_def migrate_step_def)
  qed
qed



end
