(* ===== verification/Dev_Main.thy ===== *)
theory Dev_Main
  imports Dev_Mobile Dev_Start
begin

text \<open>
  The \<open>dev-setup\<close> program (\<open>main.rs\<close>): platform, \<open>.env\<close> files, core tools, mobile toolchains, start,
  exit code; with what \<open>--check\<close> means: nothing but probes runs once the \<open>.env\<close> files are there, and
  the exit code tells whether the five core tools are present.
\<close>

section \<open>The program\<close>

definition show_os :: "os_kind \<Rightarrow> string" where
  "show_os os = (case os of Macos \<Rightarrow> ''Macos'' | Linux \<Rightarrow> ''Linux'')"

definition show_distro :: "distro_family \<Rightarrow> string" where
  "show_distro d = (case d of Apt \<Rightarrow> ''Apt'' | Dnf \<Rightarrow> ''Dnf'' | Pacman \<Rightarrow> ''Pacman'')"

definition print_banner :: "'w machine \<Rightarrow> platform \<Rightarrow> prompt_policy \<Rightarrow> bool \<Rightarrow> ('w, unit) action" where
  "print_banner M p policy check_only =
     do { _ \<leftarrow> println M ''Epistl dev-setup'';
          _ \<leftarrow> println M (''  platform: '' @ show_os (pf_os p) @ '' ('' @ pf_arch p @ '')'' @
                (if pf_is_wsl p then '' [WSL]'' else ''''));
          _ \<leftarrow> (case pf_distro p of Some d \<Rightarrow> println M (''  distro family: '' @ show_distro d) | None \<Rightarrow> ret ());
          _ \<leftarrow> println M (''  mode: '' @
                (if check_only then ''check-only'' else if pp_yes policy then ''install (--yes)'' else ''interactive install''));
          println M '''' }"

definition report_env :: "'w machine \<Rightarrow> env_bootstrap \<Rightarrow> ('w, unit) action" where
  "report_env M b =
     do { _ \<leftarrow> println M (case eb_root b of
                Created \<Rightarrow> ''.env: created from .env.example (SEAWEEDFS_INTERNAL_ENDPOINT '' @ right_arrow @ '' localhost)''
              | EnvAlreadyPresent \<Rightarrow> ''.env: already present'');
          println M (case eb_mobile b of
              Created \<Rightarrow> ''apps/mobile/.env: created from .env.example''
            | EnvAlreadyPresent \<Rightarrow> ''apps/mobile/.env: already present (or example missing)'') }"

definition core_tools ::
  "'w machine \<Rightarrow> platform \<Rightarrow> prompt_policy \<Rightarrow> bool \<Rightarrow> ('w, (string \<times> tool_outcome) list) action" where
  "core_tools M p policy check_only =
     do { rust \<leftarrow> ensure_rust M policy check_only;
          sccache \<leftarrow> ensure_sccache M policy check_only;
          node \<leftarrow> ensure_node M p policy check_only;
          moon \<leftarrow> ensure_moon M p policy check_only;
          docker \<leftarrow> ensure_docker M p policy check_only;
          ret [(''rust'', rust), (''sccache'', sccache), (''node'', node), (''moon'', moon), (''docker'', docker)] }"

fun report_outcomes :: "'w machine \<Rightarrow> (string \<times> tool_outcome) list \<Rightarrow> ('w, unit) action" where
  "report_outcomes M [] = ret ()"
| "report_outcomes M ((name, outcome) # rest) =
     do { _ \<leftarrow> println M (format_outcome name outcome); report_outcomes M rest }"

fun has_failed :: "tool_outcome \<Rightarrow> bool" where
  "has_failed (Failed _) = True"
| "has_failed _ = False"

text \<open>The native pre-build, attempted when the SDK is usable and this is no check.\<close>

definition native_section :: "'w machine \<Rightarrow> bool \<Rightarrow> bool \<Rightarrow> string \<Rightarrow> ('w, bool) action" where
  "native_section M sdk_ok check_only repo_root =
     (if sdk_ok \<and> \<not> check_only then
        do { native_outcome \<leftarrow> ensure_native_built_android M repo_root;
             _ \<leftarrow> println M (format_outcome ''quic-relay-client-native'' native_outcome);
             ret (has_failed native_outcome) }
      else if \<not> sdk_ok \<and> \<not> check_only then
        do { _ \<leftarrow> println M (format_outcome ''quic-relay-client-native''
                (Skipped (''Android NDK not available '' @ em_dash @
                   '' run bootstrap again once NDK is installed to pre-build the native .a'')));
             ret False }
      else ret False)"

definition mobile_section :: "'w machine \<Rightarrow> platform \<Rightarrow> prompt_policy \<Rightarrow> bool \<Rightarrow> bool \<Rightarrow> string \<Rightarrow> ('w, bool) action" where
  "mobile_section M p policy check_only skip_mobile repo_root =
     (if skip_mobile then
        do { _ \<leftarrow> println M ''''; _ \<leftarrow> println M ''Mobile toolchains: skipped (--skip-mobile)''; ret False }
      else
        do { _ \<leftarrow> println M '''';
             _ \<leftarrow> println M ''Mobile toolchains (optional; pass --skip-mobile to skip):'';
             android_outcomes \<leftarrow> ensure_android M p policy check_only;
             let sdk_ok = list_ex (\<lambda>(name, outcome). name = ''android-sdk'' \<and> usable outcome) android_outcomes;
             _ \<leftarrow> report_outcomes M android_outcomes;
             native_failed \<leftarrow> native_section M sdk_ok check_only repo_root;
             ios_outcomes \<leftarrow> ensure_ios M p policy check_only;
             _ \<leftarrow> report_outcomes M ios_outcomes;
             ret (list_ex (has_failed \<circ> snd) android_outcomes \<or> native_failed \<or> list_ex (has_failed \<circ> snd) ios_outcomes) })"

definition tool_ready :: "string \<Rightarrow> (string \<times> tool_outcome) list \<Rightarrow> bool" where
  "tool_ready name outcomes = (case find (\<lambda>x. fst x = name) outcomes of Some x \<Rightarrow> usable (snd x) | None \<Rightarrow> False)"

definition decide_start :: "'w machine \<Rightarrow> prompt_policy \<Rightarrow> flags \<Rightarrow> bool \<Rightarrow> bool \<Rightarrow> ('w, bool) action" where
  "decide_start M policy fl docker_ok moon_ok =
     (if fl_check fl \<or> fl_no_start fl then ret False
      else if fl_start fl then ret True
      else if \<not> docker_ok \<or> \<not> moon_ok then
        do { _ \<leftarrow> println M '''';
             _ \<leftarrow> println M (''Start: skipped ('' @
                   (if \<not> docker_ok \<and> \<not> moon_ok then ''docker and moon not ready this session''
                    else if \<not> docker_ok then ''docker not ready this session''
                    else ''moon not ready this session'') @ '')'');
             ret False }
      else confirm_required M policy ''Bring up docker compose (postgres/nats/seaweedfs) and run migrations?'')"

fun report_steps :: "'w machine \<Rightarrow> step_outcome list \<Rightarrow> ('w, unit) action" where
  "report_steps M [] = ret ()"
| "report_steps M (s # ss) = do { _ \<leftarrow> println M (format_step_outcome s); report_steps M ss }"

definition start_section :: "'w machine \<Rightarrow> prompt_policy \<Rightarrow> flags \<Rightarrow> (string \<times> tool_outcome) list \<Rightarrow> string \<Rightarrow> ('w, bool) action" where
  "start_section M policy fl outcomes repo_root =
     do { let docker_ok = tool_ready ''docker'' outcomes;
          let moon_ok = tool_ready ''moon'' outcomes;
          start_requested \<leftarrow> decide_start M policy fl docker_ok moon_ok;
          steps \<leftarrow> maybe_run_start M start_requested docker_ok moon_ok repo_root;
          case steps of
            None \<Rightarrow> ret False
          | Some step_outcomes \<Rightarrow>
              do { _ \<leftarrow> println M '''';
                   _ \<leftarrow> println M ''Start:'';
                   _ \<leftarrow> report_steps M step_outcomes;
                   ret (list_ex step_failed step_outcomes) } }"

text \<open>Everything after the \<open>.env\<close> files; the result is whether the exit code is success.\<close>

definition run_tools :: "'w machine \<Rightarrow> platform \<Rightarrow> prompt_policy \<Rightarrow> flags \<Rightarrow> string \<Rightarrow> ('w, bool) action" where
  "run_tools M p policy fl repo_root =
     do { _ \<leftarrow> println M '''';
          _ \<leftarrow> println M ''Core tools:'';
          outcomes \<leftarrow> core_tools M p policy (fl_check fl);
          _ \<leftarrow> report_outcomes M outcomes;
          npm_outcome \<leftarrow> ensure_mobile_deps M policy (fl_check fl) repo_root;
          _ \<leftarrow> println M (format_outcome ''mobile-deps'' npm_outcome);
          mobile_failed \<leftarrow> mobile_section M p policy (fl_check fl) (fl_skip_mobile fl) repo_root;
          start_failed \<leftarrow> start_section M policy fl outcomes repo_root;
          ret (\<not> (list_ex (is_blocking_failure True \<circ> snd) outcomes \<or> has_failed npm_outcome \<or> mobile_failed \<or> start_failed)) }"

text \<open>\<open>None\<close>: the detection of the platform panicked.\<close>

definition dev_setup_main :: "'w machine \<Rightarrow> string list \<Rightarrow> string \<Rightarrow> ('w, bool option) action" where
  "dev_setup_main M args repo_root =
     do { let fl = parse_flags args;
          detected \<leftarrow> look (detect_platform M);
          case detected of
            None \<Rightarrow> ret None
          | Some (Inl message) \<Rightarrow> do { _ \<leftarrow> eprintln M message; ret (Some False) }
          | Some (Inr p) \<Rightarrow>
              do { policy \<leftarrow> prompt_policy_from_flags M (fl_yes fl);
                   _ \<leftarrow> print_banner M p policy (fl_check fl);
                   env \<leftarrow> ensure_env_files M repo_root;
                   case env of
                     Inl err \<Rightarrow> do { _ \<leftarrow> eprintln M (''failed to set up .env files: '' @ err); ret (Some False) }
                   | Inr b \<Rightarrow>
                       do { _ \<leftarrow> report_env M b;
                            ok \<leftarrow> run_tools M p policy fl repo_root;
                            ret (Some ok) } } }"

section \<open>Check mode runs probes only\<close>

text \<open>The commands that detect.\<close>

definition probes :: "(string \<times> string list) list" where
  "probes =
     [(''rustup'', [''--version'']), (''cargo'', [''--version'']), (''rustc'', [''--version'']),
      (''sccache'', [''--version'']), (''node'', [''--version'']), (''moon'', [''--version'']),
      (''docker'', [''info'']), (''bash'', [''-c'', ''command -v sg'']), (''sg'', [''docker'', ''-c'', ''docker info'']),
      (''java'', [''-version'']), (''which'', [''studio'']), (''which'', [''android-studio'']),
      (''xcode-select'', [''-p'']), (''pod'', [''--version''])]"

text \<open>A property of the machine that probes and printing do not touch.\<close>

definition undisturbed :: "'w machine \<Rightarrow> ('w \<Rightarrow> bool) \<Rightarrow> bool" where
  "undisturbed M P \<longleftrightarrow>
     list_all (harmless M P) probes \<and> (\<forall>s w. P w \<longrightarrow> P (put_text M s w)) \<and> (\<forall>s w. P w \<longrightarrow> P (put_error M s w))"

lemma undisturbed_probe:
  "undisturbed M P \<Longrightarrow> (program, args) \<in> set probes \<Longrightarrow> harmless M P (program, args)"
  by (simp add: undisturbed_def list_all_iff)

lemma keeps_probe:
  assumes "undisturbed M P" and "(program, args) \<in> set probes"
  shows "keeps P (run_command M program args)" and "keeps P (succeeds M program args)"
  using undisturbed_probe [OF assms] by (simp_all add: keeps_run keeps_succeeds)

lemma keeps_output:
  assumes "undisturbed M P"
  shows "keeps P (println M s)" and "keeps P (eprintln M s)"
  using assms by (simp_all add: undisturbed_def println_def eprintln_def keeps_change)

lemma probe_list [simp]:
  "(''rustup'', [''--version'']) \<in> set probes" "(''cargo'', [''--version'']) \<in> set probes"
  "(''rustc'', [''--version'']) \<in> set probes" "(''sccache'', [''--version'']) \<in> set probes"
  "(''node'', [''--version'']) \<in> set probes" "(''moon'', [''--version'']) \<in> set probes"
  "(''docker'', [''info'']) \<in> set probes" "(''bash'', [''-c'', ''command -v sg'']) \<in> set probes"
  "(''sg'', [''docker'', ''-c'', ''docker info'']) \<in> set probes" "(''java'', [''-version'']) \<in> set probes"
  "(''which'', [''studio'']) \<in> set probes" "(''which'', [''android-studio'']) \<in> set probes"
  "(''xcode-select'', [''-p'']) \<in> set probes" "(''pod'', [''--version'']) \<in> set probes"
  by (simp_all add: probes_def)

lemma keeps_case_triple [keeps_intros]:
  "(\<And>a b c. x = Some a \<Longrightarrow> y = Some b \<Longrightarrow> z = Some c \<Longrightarrow> keeps P (f a b c)) \<Longrightarrow> keeps P m \<Longrightarrow>
     keeps P (case (x, y, z) of (Some a, Some b, Some c) \<Rightarrow> f a b c | _ \<Rightarrow> m)"
  by (cases x; cases y; cases z) simp_all

lemma check_rust: "undisturbed M P \<Longrightarrow> keeps P (ensure_rust M policy True)"
  unfolding ensure_rust_def if_True by (intro keeps_intros keeps_probe) simp_all

lemma check_simple:
  assumes "undisturbed M P"
  shows "keeps P (ensure_sccache M policy True)" and "keeps P (ensure_moon M p policy True)"
    and "keeps P (ensure_node M p policy True)" and "keeps P (ensure_mobile_deps M policy True root)"
    and "keeps P (ensure_jdk M p policy True)" and "keeps P (ensure_cocoapods M p policy True)"
    and "keeps P (ensure_xcode M True)"
  unfolding ensure_sccache_def ensure_moon_def ensure_node_def ensure_mobile_deps_def ensure_jdk_def
    ensure_cocoapods_def ensure_xcode_def if_True
  by (intro keeps_intros keeps_probe assms; simp)+

lemma check_docker_tool:
  assumes "undisturbed M P"
  shows "keeps P (ensure_docker M p policy True)"
proof -
  have sg: "keeps P (sg_on_path M)" unfolding sg_on_path_def by (intro keeps_intros keeps_probe assms) simp
  have probe: "keeps P (probe_docker_access M)"
    unfolding probe_docker_access_def by (intro keeps_intros keeps_probe sg assms) simp_all
  have "keeps P (try_present M p)"
    unfolding try_present_def by (intro keeps_intros keeps_probe probe assms) simp_all
  then show ?thesis unfolding ensure_docker_def by (intro keeps_intros) simp_all
qed

lemma check_sdk: "undisturbed M P \<Longrightarrow> keeps P (ensure_sdk M p policy True)"
  unfolding ensure_sdk_def resolve_sdk_root_def if_True by (intro keeps_intros)

lemma check_studio:
  assumes "undisturbed M P"
  shows "keeps P (ensure_studio M p policy True)"
proof -
  have "keeps P (studio_present M p)"
    unfolding studio_present_def or_else_try_def
    by (cases "pf_os p"; simp only: os_kind.case; intro keeps_intros keeps_probe assms; simp)
  then show ?thesis unfolding ensure_studio_def if_True by (intro keeps_intros)
qed

lemma check_core: "undisturbed M P \<Longrightarrow> keeps P (core_tools M p policy True)"
  unfolding core_tools_def by (intro keeps_intros check_rust check_simple check_docker_tool)

lemma check_android: "undisturbed M P \<Longrightarrow> keeps P (ensure_android M p policy True)"
  unfolding ensure_android_def by (intro keeps_intros check_simple check_sdk check_studio)

lemma check_ios: "undisturbed M P \<Longrightarrow> keeps P (ensure_ios M p policy True)"
  unfolding ensure_ios_def by (intro keeps_intros check_simple)

lemma keeps_report: "undisturbed M P \<Longrightarrow> keeps P (report_outcomes M outcomes)"
proof (induction outcomes)
  case (Cons x xs)
  obtain n oc where "x = (n, oc)" by (rule prod.exhaust)
  then show ?case using Cons by (simp add: keeps_bind keeps_output)
qed (simp add: keeps_ret)

lemma check_mobile: "undisturbed M P \<Longrightarrow> keeps P (mobile_section M p policy True skip root)"
  unfolding mobile_section_def native_section_def
  by (intro keeps_intros keeps_output keeps_report check_android check_ios) simp_all

lemma check_start: "fl_check fl \<Longrightarrow> keeps P (start_section M policy fl outcomes root)"
  by (simp add: start_section_def decide_start_def maybe_run_start_def keeps_ret)

lemma check_tools: "undisturbed M P \<Longrightarrow> fl_check fl \<Longrightarrow> keeps P (run_tools M p policy fl root)"
  unfolding run_tools_def
  by (simp only:, intro keeps_intros keeps_output keeps_report check_core check_simple check_mobile check_start)

lemma keeps_report_env: "undisturbed M P \<Longrightarrow> keeps P (report_env M b)"
  unfolding report_env_def by (intro keeps_intros keeps_output)

lemma keeps_banner: "undisturbed M P \<Longrightarrow> keeps P (print_banner M p policy check_only)"
  unfolding print_banner_def by (intro keeps_intros keeps_output)

section \<open>The exit code of a check\<close>

definition detect_only :: "tool_outcome \<Rightarrow> bool" where
  "detect_only outcome \<longleftrightarrow> (case outcome of ToolPresent _ \<Rightarrow> True | ToolAbsent _ \<Rightarrow> True | _ \<Rightarrow> False)"

lemma detect_only_simps [simp]:
  "detect_only (ToolPresent m)" "detect_only (ToolAbsent m)" "\<not> detect_only (Failed m)"
  by (simp_all add: detect_only_def)

lemma detect_only_not_failed: "detect_only outcome \<Longrightarrow> \<not> has_failed outcome"
  by (cases outcome) (simp_all add: detect_only_def)

lemma detect_only_blocking: "detect_only outcome \<Longrightarrow> is_blocking_failure True outcome \<longleftrightarrow> \<not> usable outcome"
  by (cases outcome) (simp_all add: detect_only_def usable_def)

lemma detect_rust: "detect_only (fst (run_state (ensure_rust M policy True) w))"
  by (simp add: ensure_rust_def case_prod_beta split: option.splits)

lemma detect_simple:
  "detect_only (fst (run_state (ensure_sccache M policy True) w))"
  "detect_only (fst (run_state (ensure_moon M p policy True) w))"
  "detect_only (fst (run_state (ensure_node M p policy True) w))"
  "detect_only (fst (run_state (ensure_mobile_deps M policy True root) w))"
  "detect_only (fst (run_state (ensure_jdk M p policy True) w))"
  "detect_only (fst (run_state (ensure_sdk M p policy True) w))"
  "detect_only (fst (run_state (ensure_studio M p policy True) w))"
  "detect_only (fst (run_state (ensure_cocoapods M p policy True) w))"
  "detect_only (fst (run_state (ensure_xcode M True) w))"
  by (simp_all add: ensure_sccache_def ensure_moon_def ensure_node_def ensure_mobile_deps_def ensure_jdk_def
      ensure_sdk_def ensure_studio_def ensure_cocoapods_def ensure_xcode_def Let_def case_prod_beta split: option.splits)

lemma try_present_detects:
  "run_state (try_present M p) w = (Some outcome, w') \<Longrightarrow> detect_only outcome"
  by (auto simp: try_present_def Let_def split: option.splits prod.splits if_splits)

lemma detect_docker: "detect_only (fst (run_state (ensure_docker M p policy True) w))"
proof -
  obtain r w1 where r: "run_state (try_present M p) w = (r, w1)" by (rule prod.exhaust)
  show ?thesis
  proof (cases r)
    case None
    then show ?thesis using r by (simp add: ensure_docker_def)
  next
    case (Some outcome)
    then show ?thesis using r try_present_detects [of M p w outcome w1] by (simp add: ensure_docker_def)
  qed
qed

lemma detect_core: "list_all (detect_only \<circ> snd) (fst (run_state (core_tools M p policy True) w))"
  by (simp add: core_tools_def case_prod_beta detect_rust detect_simple detect_docker)

lemma detect_android: "list_all (detect_only \<circ> snd) (fst (run_state (ensure_android M p policy True) w))"
  by (simp add: ensure_android_def case_prod_beta detect_simple)

lemma detect_ios: "list_all (detect_only \<circ> snd) (fst (run_state (ensure_ios M p policy True) w))"
  by (simp add: ensure_ios_def case_prod_beta detect_simple)

lemma none_failed: "list_all (detect_only \<circ> snd) outcomes \<Longrightarrow> \<not> list_ex (has_failed \<circ> snd) outcomes"
  using detect_only_not_failed by (fastforce simp: list_all_iff list_ex_iff)

lemma mobile_check_ok: "\<not> fst (run_state (mobile_section M p policy True skip root) w)"
  by (simp add: mobile_section_def native_section_def none_failed detect_android detect_ios Let_def case_prod_beta)

lemma start_check_ok: "fl_check fl \<Longrightarrow> \<not> fst (run_state (start_section M policy fl outcomes root) w)"
  by (simp add: start_section_def decide_start_def maybe_run_start_def Let_def)

lemma blocking_iff:
  "list_all (detect_only \<circ> snd) outcomes \<Longrightarrow>
     list_ex (is_blocking_failure True \<circ> snd) outcomes \<longleftrightarrow> \<not> list_all (usable \<circ> snd) outcomes"
  using detect_only_blocking by (fastforce simp: list_all_iff list_ex_iff)

text \<open>The state in which the core tools are looked at: two lines have been printed.\<close>

definition at_core_tools :: "'w machine \<Rightarrow> 'w \<Rightarrow> 'w" where
  "at_core_tools M w = snd (run_state (println M ''Core tools:'') (snd (run_state (println M '''') w)))"

lemma check_exit:
  assumes "fl_check fl"
  shows "fst (run_state (run_tools M p policy fl root) w) \<longleftrightarrow>
    list_all (usable \<circ> snd) (fst (run_state (core_tools M p policy True) (at_core_tools M w)))"
proof -
  have d: "\<not> has_failed (fst (run_state (ensure_mobile_deps M policy True root) v))" for v
    by (rule detect_only_not_failed [OF detect_simple(4)])
  show ?thesis
    using assms blocking_iff [OF detect_core [of M p policy "at_core_tools M w"]]
    by (simp add: run_tools_def case_prod_beta d mobile_check_ok start_check_ok at_core_tools_def)
qed

section \<open>Properties\<close>


text \<open>A disk on which both files exist; its commands fail.\<close>

definition ready_disk :: disk where
  "ready_disk = empty_disk\<lparr>disk_file := [''/r/.env'' \<mapsto> ''A=1'', ''/r/apps/mobile/.env'' \<mapsto> ''B=1'']\<rparr>"


text \<open>
  The \<open>.env\<close> files are set up before the mode is looked at: on a fresh checkout a check writes one.
\<close>

definition fresh_disk :: disk where
  "fresh_disk = empty_disk\<lparr>disk_file := [''/r/.env.example'' \<mapsto> ''A=1'', ''/etc/os-release'' \<mapsto> ''ID=debian'']\<rparr>"

lemma fresh_platform: "\<exists>p. detect_platform (sample_machine run) fresh_disk = Some (Inr p)"
proof -
  have "split_on newline ''ID=debian'' = [''ID=debian'']" by (rule split_on_free) simp
  then have l: "lines ''ID=debian'' = [''ID=debian'']" by (simp add: lines_def Let_def)
  have t: "trim ''debian'' = ''debian''"
    by (simp add: trim_def trim_start_stop trim_end_stop whitespace_encodings_def)
  have lc: "to_ascii_lowercase ''debian'' = ''debian''" by code_simp
  have c: "contains '' debian  '' '' debian ''" by (simp add: contains_def)
  have "parse_distro_family ''ID=debian'' = Some (Inr Apt)"
    using t lc c by (simp add: parse_distro_family_def l unquote_def Let_def)
  then show ?thesis
    by (simp add: detect_platform_def detect_distro_def sample_machine_def fresh_disk_def empty_disk_def Let_def)
qed

lemma check_mode_writes_env:
  "disk_file (snd (run_state (dev_setup_main (sample_machine no_commands) [''--check''] ''/r'') fresh_disk)) ''/r/.env'' \<noteq> None"
proof -
  let ?M = "sample_machine no_commands" and ?P = "\<lambda>d :: disk. disk_file d ''/r/.env'' \<noteq> None"
  let ?Q = "\<lambda>d :: disk. disk_file d = disk_file fresh_disk"
  obtain p where p: "detect_platform ?M fresh_disk = Some (Inr p)" using fresh_platform by blast
  have f: "fl_check (parse_flags [''--check''])" by (simp add: parse_flags_def parse_flag_def)
  have uP: "undisturbed ?M ?P" and uQ: "undisturbed ?M ?Q"
    by (simp_all add: undisturbed_def list_all_iff harmless_def sample_machine_def no_commands_def)
  obtain policy w0 where pol: "run_state (prompt_policy_from_flags ?M (fl_yes (parse_flags [''--check'']))) fresh_disk = (policy, w0)"
    by (rule prod.exhaust)
  have w0: "w0 = fresh_disk" using pol by (simp add: prompt_policy_from_flags_def)
  obtain u w1 where b: "run_state (print_banner ?M p policy (fl_check (parse_flags [''--check'']))) w0 = (u, w1)"
    by (rule prod.exhaust)
  have q: "?Q w1" by (rule keepsD [OF keeps_banner [OF uQ] _ b]) (simp add: w0)
  have "\<exists>r w2. run_state (ensure_env_files ?M ''/r'') w1 = (Inr r, w2) \<and> ?P w2"
    using q by (simp add: ensure_env_files_def ensure_root_env_def ensure_copy_def path_join_def sample_machine_def
        fresh_disk_def empty_disk_def)
  then obtain r w2 where e: "run_state (ensure_env_files ?M ''/r'') w1 = (Inr r, w2)" and w2: "?P w2" by blast
  obtain u2 w3 where re: "run_state (report_env ?M r) w2 = (u2, w3)" by (rule prod.exhaust)
  have w3: "?P w3" by (rule keepsD [OF keeps_report_env [OF uP] w2 re])
  obtain ok w4 where t: "run_state (run_tools ?M p policy (parse_flags [''--check'']) ''/r'') w3 = (ok, w4)" by (rule prod.exhaust)
  have "?P w4" by (rule keepsD [OF check_tools [OF uP f] w3 t])
  moreover have "run_state (dev_setup_main ?M [''--check''] ''/r'') fresh_disk = (Some ok, w4)"
    using p pol b e re t by (simp add: dev_setup_main_def Let_def)
  ultimately show ?thesis by simp
qed

end
