(* ===== verification/Spec2Isabelle.thy ===== *)
theory Spec2Isabelle
  imports Api_Migrate Api_Messages Api_Main Api_Privacy Api_Answers Api_Entities Api_Threads_Safe Epistl_Journey Dev_Main
begin

text \<open>
  \<^bold>\<open>Epistl.\<close> A model of the Rust programs of the Epistl messenger and what is proved of them. Paths
  below are relative to \<open>src/\<close>.

  \<^bold>\<open>The programs.\<close> The API server (\<open>apps/api\<close>) keeps users, contacts, requests, key bundles and push
  tokens in Postgres, relays end-to-end encrypted messages between connected clients over WebSocket
  and QUIC, queues them in a JetStream stream for clients that are away, and notifies their devices.
  Its binary \<open>migrate\<close> creates, drops and prunes the per-worktree databases and streams. The QUIC
  client (\<open>packages/quic-relay-client\<close>) is the other end of the QUIC transport, and \<open>dev-setup\<close>
  (\<open>packages/dev-setup\<close>) installs the tools a developer needs and starts the services.

  \<^bold>\<open>How the code is modelled.\<close> A function of the source is a function here, under its name where HOL
  leaves it free. A handler takes the state it changes and returns it with its answer; an error is a
  value of a sum. A struct is a record, an enum a datatype. Strings are their UTF-8 bytes, so that
  \<open>length\<close> is Rust's \<open>len\<close>; \<open>u32\<close> parsing has its bound written out. Third-party code is a parameter:
  a record of functions (\<open>lib\<close>, \<open>better_auth\<close>, \<open>jetstream\<close>, \<open>notifier\<close>, \<open>s3\<close>, \<open>search_db\<close>, \<open>quinn\<close>,
  \<open>quic_stack\<close>, \<open>services\<close>, \<open>machine\<close>) on a state of its own type. What a property needs of such code is
  a named hypothesis, and a concrete instance shows that it can hold.

  \<^bold>\<open>Theories, from the bottom up.\<close>

  \<^item> \<open>Epistl_Prelude\<close>: strings (search, split, trim, replace, decimal numbers), fallible effects with
    \<open>and_then\<close> for \<open>?\<close>, JSON values, HTTP responses, and the collections \<open>str_simps\<close>, \<open>db_simps\<close>,
    \<open>wf_intros\<close>.
  \<^item> \<open>Api_Naming\<close>, \<open>Api_Worktrees\<close>, \<open>Api_Migrate\<close>: \<open>db.rs\<close>, \<open>nats.rs\<close>, \<open>bin/migrate.rs\<close>. The lemmas show
    which names are derived, which database a drop or prune can touch, and where truncation to 63 bytes
    breaks that.
  \<^item> \<open>Api_Database\<close>: the tables, their constraints \<open>db_wf\<close>, and how a statement runs. \<open>dbenv\<close> says for
    each round trip whether it is lost before or after the server acted and what other sessions
    commit meanwhile; \<open>autocommit\<close>, \<open>begin_tx\<close>, \<open>in_tx\<close> and \<open>commit_tx\<close> follow it, in Postgres's default
    isolation. \<open>Api_Library\<close>: the crates all handlers share.
  \<^item> \<open>Api_Schema\<close>, \<open>Api_Schema_Correct\<close>: the eight files of \<open>apps/api/migrations\<close> as statements on a
    schema and its rows, in order; that \<open>db_wf\<close> is what they build, that the cascade of a deleted user is
    theirs, and that the username migration applies to any stored users. \<open>Api_Entities\<close>: the SeaORM
    entities of \<open>auth.rs\<close> against those tables.
  \<^item> \<open>Api_Registry\<close>: \<open>registry.rs\<close> and the channels behind its senders. The locale
    \<open>connection_registry\<close> states what its users rely on.
  \<^item> \<open>Api_Contacts\<close>, \<open>Api_Contacts_Correct\<close>, \<open>Api_Contacts_Spec\<close>, \<open>Api_Contacts_Live\<close>: \<open>contacts.rs\<close>; that it
    keeps the constraints, that it refines the social contract \<open>social_step\<close> all-or-nothing, and that
    clients are told of commits only.
  \<^item> \<open>Api_Push\<close>, \<open>Api_Relay\<close>, \<open>Api_Relay_Correct\<close>, \<open>Api_Relay_Node\<close>, \<open>Api_Relay_Examples\<close>, \<open>Api_Messages\<close>:
    \<open>push.rs\<close>, \<open>relay.rs\<close>, \<open>messages.rs\<close>. \<open>node_step\<close> is the relay as a transition system that runs each
    handler whole; its invariant is that what was acknowledged is handed over or queued.
  \<^item> \<open>Api_Threads\<close>, \<open>Api_Threads_Safe\<close>: the same handlers cut into \<open>micro\<close> steps at every access to shared
    state. Uninterrupted they are the handlers; \<open>pool_step\<close> lets any number of them take turns, and what
    each relies on is shown to survive the steps of all others.
  \<^item> \<open>Api_Auth\<close>: \<open>auth.rs\<close>. \<open>Api_Transport\<close>: \<open>ws.rs\<close> and \<open>quic.rs\<close>, with the locale \<open>frame_transport\<close> for what
    a client can read back. \<open>Api_Upserts\<close>: \<open>keys.rs\<close>, \<open>push_tokens.rs\<close>, with the locale \<open>upsert_store\<close>.
    \<open>Api_Profile\<close>: \<open>username.rs\<close>, \<open>account.rs\<close>. \<open>Api_Search\<close>: \<open>search.rs\<close>. \<open>Api_Avatars\<close>: \<open>avatars.rs\<close>.
  \<^item> \<open>Api_App\<close>: the merged routers of \<open>lib.rs\<close> over the shared state. \<open>Api_System\<close>: that state under
    requests, frames, connects, tasks and commits of others in any order, with the invariants of the
    whole. \<open>Api_Delivery\<close>: that catching up delivers everything, and what is lost between channel and
    socket. \<open>Api_Privacy\<close>: what depends on the body of a message. \<open>Api_Answers\<close>: the answers of every
    handler and that errors change nothing, with the locale \<open>honest_handler\<close>. \<open>Api_Main\<close>: start-up (\<open>main.rs\<close>)
    and every reason to exit.
  \<^item> \<open>Quic_Client\<close>: \<open>quic-relay-client/src/lib.rs\<close>, put against the server of \<open>Api_Transport\<close>.
    \<open>Epistl_Journey\<close>: a queued message all the way to the listener of a client.
  \<^item> \<open>Dev_Machine\<close> (the operating system as a parameter, programs as actions of the state monad, the
    collection \<open>keeps_intros\<close>), \<open>Dev_Checks\<close> (\<open>flags.rs\<close>, \<open>platform.rs\<close>, \<open>prompt.rs\<close>, \<open>checks.rs\<close>), \<open>Dev_Files\<close>
    (\<open>env_file.rs\<close>, \<open>profile.rs\<close>), \<open>Dev_Packages\<close> (\<open>pkg.rs\<close>, \<open>tools/mod.rs\<close>, \<open>tools/docker.rs\<close>), \<open>Dev_Tools\<close>
    (\<open>rust.rs\<close>, \<open>sccache.rs\<close>, \<open>moon.rs\<close>, \<open>node.rs\<close>, \<open>npm.rs\<close>), \<open>Dev_Mobile\<close> (\<open>android.rs\<close>, \<open>ios.rs\<close>), \<open>Dev_Start\<close>
    (\<open>start.rs\<close>), \<open>Dev_Main\<close> (\<open>main.rs\<close>).

  \<^bold>\<open>Bounds and loops.\<close> No recursion runs on fuel of the model's own. Loops over what arrives recurse
  on the list of what arrives. The peek loop counts down the source's 256 messages, the health poll
  its 30 attempts. The limiter's window, the lengths of keys, the size of an avatar and the 63 bytes of
  a Postgres name are the constants of the source.

  \<^bold>\<open>Interleaving.\<close> A statement is atomic, and \<open>peers\<close> lets other sessions commit between any two. A
  client frame, a catch-up and a spawned task are each one step of \<open>node_step\<close> and of \<open>Api_System\<close>, and
  steps interleave freely; \<open>Api_Threads_Safe\<close> splits them at every access to the database, the registry,
  a channel, JetStream and the list of tasks. Instants and timeouts appear where the code compares
  them (the limiter, the grace of 200 ms) and are passed on otherwise.

  \<^bold>\<open>What modelling showed.\<close> Proved of the code as it is: with base names near 63 bytes dropping and
  pruning hit the wrong database (\<open>Api_Migrate\<close>); crossed contact requests can both stay open
  (\<open>Api_Contacts_Live\<close>); redelivery can duplicate a message (\<open>Api_Relay_Examples\<close>); a queued message is
  acknowledged once it is in the channel, before it is written (\<open>Api_Delivery\<close>); a search for \<open>%%%\<close>
  lists everyone (\<open>Api_Search\<close>); a refused avatar leaves the old one dangling (\<open>Api_Avatars\<close>); a local
  close of the QUIC client is silent (\<open>Quic_Client\<close>); a lone quote in \<open>os-release\<close> panics
  (\<open>Dev_Checks\<close>); JDK 11.0.20 passes for 17 (\<open>Dev_Mobile\<close>); check mode creates the \<open>.env\<close> files
  (\<open>Dev_Main\<close>).

  \<^bold>\<open>Not modelled.\<close> What derives and frameworks generate (serde, UniFFI scaffolding, path matching and
  extractor rejections of axum), TLS and the client's verifier that accepts every certificate, the
  tokio runtime, what sqlx does inside its pool, and what the server prints to its log.
  \<open>better-auth\<close> writes users, accounts and sessions through its own connection: its store is a
  separate state, and its writes reach the tables here as commits of another session. The mobile
  application is TypeScript and outside this library.
\<close>

end
